(* ===== verification/Xvc_Prelude.thy ===== *)
theory Xvc_Prelude
  imports Main "HOL-Library.Word"
begin

text \<open>
  Shared vocabulary of the development: the C types the server uses, the outcome of running a
  C function (a value, undefined behaviour, the end of the process by a signal, or no return at all), the \<open>if (f() < 0) return -1\<close>
  idiom as a combinator, C integer division, and the lemmas on bits of bytes and on lists that
  the component theories use.
\<close>

unbundle bit_operations_syntax

named_theorems outcome_simps \<open>how the outcome combinators compute\<close>
named_theorems bit_simps8 \<open>bits of bytes\<close>

type_synonym u8 = "8 word"
type_synonym u16 = "16 word"
type_synonym u32 = "32 word"
type_synonym u64 = "64 word"
type_synonym i32 = "32 word" \<comment> \<open>\<open>int32_t\<close> and \<open>int\<close>, read with \<open>sint\<close>\<close>

section \<open>Outcomes of C functions\<close>

datatype 'a outcome = Ret 'a | Undefined | Killed | Diverges

fun bind_out :: "'a outcome \<Rightarrow> ('a \<Rightarrow> 'b outcome) \<Rightarrow> 'b outcome" where
  "bind_out (Ret a) f = f a"
| "bind_out Undefined f = Undefined"
| "bind_out Killed f = Killed"
| "bind_out Diverges f = Diverges"

text \<open>
  \<open>ok_then r f\<close> is the source's \<^verbatim>\<open>if (g(...) < 0) return -1; f\<close> where \<open>r\<close> is what \<open>g\<close> did:
  a negative code stops with \<open>-1\<close> in the state \<open>g\<close> left.
\<close>

definition ok_then :: "(int \<times> 's) outcome \<Rightarrow> ('s \<Rightarrow> (int \<times> 's) outcome) \<Rightarrow> (int \<times> 's) outcome" where
  "ok_then r f = bind_out r (\<lambda>(code, s). if code < 0 then Ret (-1, s) else f s)"

lemma ok_then_simps [simp, outcome_simps]:
  "ok_then (Ret (code, s)) f = (if code < 0 then Ret (-1, s) else f s)"
  "ok_then Undefined f = Undefined"
  "ok_then Killed f = Killed"
  "ok_then Diverges f = Diverges"
  by (simp_all add: ok_then_def)

lemma bind_out_assoc: "bind_out (bind_out m f) g = bind_out m (\<lambda>x. bind_out (f x) g)"
  by (cases m) simp_all

lemma bind_out_Ret_iff: "bind_out m f = Ret b \<longleftrightarrow> (\<exists>a. m = Ret a \<and> f a = Ret b)"
  by (cases m) simp_all

lemma bind_out_Diverges_iff: "bind_out m f = Diverges \<longleftrightarrow> m = Diverges \<or> (\<exists>a. m = Ret a \<and> f a = Diverges)"
  by (cases m) simp_all

lemma ok_then_Ret_0:
  "ok_then r f = Ret (c, s') \<Longrightarrow> 0 \<le> c \<Longrightarrow> \<exists>c0 s. r = Ret (c0, s) \<and> 0 \<le> c0 \<and> f s = Ret (c, s')"
  by (cases r) (auto split: if_splits)

text \<open>The outcome is not endless, and a value satisfies \<open>R\<close>.\<close>

fun ends_in :: "('a \<Rightarrow> bool) \<Rightarrow> 'a outcome \<Rightarrow> bool" where
  "ends_in R (Ret a) = R a"
| "ends_in R Undefined = True"
| "ends_in R Killed = True"
| "ends_in R Diverges = False"

lemma ends_in_iff: "ends_in R m \<longleftrightarrow> m \<noteq> Diverges \<and> (\<forall>a. m = Ret a \<longrightarrow> R a)"
  by (cases m) auto

lemma ends_in_bind: "ends_in R m \<Longrightarrow> (\<And>a. R a \<Longrightarrow> ends_in S (f a)) \<Longrightarrow> ends_in S (bind_out m f)"
  by (cases m) auto

lemma ends_in_mono: "ends_in R m \<Longrightarrow> (\<And>a. R a \<Longrightarrow> S a) \<Longrightarrow> ends_in S m"
  by (cases m) auto

section \<open>C integer arithmetic\<close>

text \<open>C's \<open>/\<close> truncates towards zero.\<close>

definition c_div :: "int \<Rightarrow> int \<Rightarrow> int" where
  "c_div a b = (if (a < 0) = (b < 0) then \<bar>a\<bar> div \<bar>b\<bar> else - (\<bar>a\<bar> div \<bar>b\<bar>))"

lemma c_div_nonneg [simp]: "0 \<le> a \<Longrightarrow> 0 < b \<Longrightarrow> c_div a b = a div b"
  by (simp add: c_div_def)

lemma c_div_neg: "a < 0 \<Longrightarrow> 0 < b \<Longrightarrow> c_div a b = - ((- a) div b)"
  by (simp add: c_div_def)

section \<open>Bytes and bits\<close>

text \<open>The eight bits of a byte, least significant first.\<close>

definition byte_bits :: "u8 \<Rightarrow> bool list" where
  "byte_bits b = map (bit b) [0..<8]"

lemma length_byte_bits [simp]: "length (byte_bits b) = 8"
  by (simp add: byte_bits_def)

lemma nth_byte_bits [simp]: "i < 8 \<Longrightarrow> byte_bits b ! i = bit b i"
  by (simp add: byte_bits_def)

lemma byte_eq_iff_bits: "(a :: u8) = b \<longleftrightarrow> (\<forall>i < 8. bit a i = bit b i)"
  by (simp add: bit_eq_iff possible_bit_word)

lemma bit_u8_ge8 [simp]: "8 \<le> i \<Longrightarrow> bit (b :: u8) i = False"
  using bit_imp_le_length[of b i] by auto

lemma bit_exp_u8 [bit_simps8]: "bit (2 ^ k :: u8) i \<longleftrightarrow> i = k \<and> k < 8"
  by (auto simp: bit_exp_iff possible_bit_word)

lemma bit_of_bool_u8 [bit_simps8]: "bit (of_bool b :: u8) i \<longleftrightarrow> b \<and> i = 0"
  by (cases b) (auto simp: bit_1_iff)

lemma bit_push_of_bool_u8 [bit_simps8]: "bit (push_bit k (of_bool b) :: u8) i \<longleftrightarrow> b \<and> i = k \<and> k < 8"
  by (cases b) (auto simp: bit_simps8)

lemma less_8_cases: "(i :: nat) < 8 \<Longrightarrow> i = 0 \<or> i = 1 \<or> i = 2 \<or> i = 3 \<or> i = 4 \<or> i = 5 \<or> i = 6 \<or> i = 7"
  by presburger

lemma unat_of_nat_u8: "n < 256 \<Longrightarrow> unat (of_nat n :: u8) = n"
  by (simp add: unat_of_nat)

lemma u32_small:
  assumes "k < 2 ^ 31"
  shows "unat (of_nat k :: u32) = k" "sint (of_nat k :: u32) = int k"
proof -
  show "unat (of_nat k :: u32) = k"
    using assms by (simp add: unat_of_nat take_bit_nat_eq_self_iff)
  have "signed_take_bit 31 (int k) = int k"
    using assms by (simp add: signed_take_bit_int_eq_self_iff)
  then show "sint (of_nat k :: u32) = int k"
    by (simp add: signed_of_nat)
qed

lemma div8_eqI: "8 * q \<le> i \<Longrightarrow> i < 8 * q + 8 \<Longrightarrow> i div 8 = (q :: nat)"
  by (rule div_nat_eqI) simp_all

lemma mod8_eqI: "8 * q \<le> i \<Longrightarrow> i < 8 * q + 8 \<Longrightarrow> i mod 8 = i - 8 * (q :: nat)"
  using div8_eqI[of q i] by (simp flip: minus_mult_div_eq_mod)

lemma div8_less: "i < 8 * n \<Longrightarrow> i div 8 < (n :: nat)"
  by presburger

section \<open>Lists\<close>

lemma upt_split: "a \<le> b \<Longrightarrow> b \<le> c \<Longrightarrow> [a..<c] = [a..<b] @ [b..<c]"
  using upt_add_eq_append[of a b "c - b"] by simp

lemma map_upt_eqI:
  assumes "length xs = b - a" "\<And>i. i < b - a \<Longrightarrow> xs ! i = f (a + i)"
  shows "xs = map f [a..<b]"
  by (rule nth_equalityI) (use assms in auto)

end
