(* ===== verification/C_Lib.thy ===== *)
theory C_Lib
  imports Xvc_Prelude
begin

text \<open>
  The parts of the C library the program uses on strings and numbers, in the C locale and as
  the GNU C library does them on a 64-bit little-endian machine. A C string is a \<open>string\<close>
  without its terminating NUL. A fixed array that a \<open>strncpy\<close> of one byte less than its size
  writes after it was zeroed is the string before the first NUL.
\<close>

named_theorems c_string \<open>how the C string functions compute\<close>

section \<open>Characters and strings\<close>

abbreviation NUL :: char where "NUL \<equiv> CHR 0x00"
abbreviation NL :: char where "NL \<equiv> CHR 0x0A"

definition isspace :: "char \<Rightarrow> bool" where
  "isspace c \<longleftrightarrow> c = CHR 0x20 \<or> c = CHR 0x09 \<or> c = NL \<or> c = CHR 0x0B \<or> c = CHR 0x0C \<or> c = CHR 0x0D"

text \<open>The string an array holds: what precedes the first NUL.\<close>

definition c_str :: "string \<Rightarrow> string" where
  "c_str s = takeWhile (\<lambda>c. c \<noteq> NUL) s"

text \<open>
  \<open>p = strchr(s, c)\<close> followed by \<open>*p = '\0'\<close>: the part before the first \<open>c\<close> and the part after
  it, \<open>None\<close> when there is no \<open>c\<close>.
\<close>

definition strchr_split :: "char \<Rightarrow> string \<Rightarrow> (string \<times> string) option" where
  "strchr_split c s = (if c \<in> set s then Some (takeWhile (\<lambda>x. x \<noteq> c) s, tl (dropWhile (\<lambda>x. x \<noteq> c) s)) else None)"

text \<open>\<open>strncmp(s, p, strlen(p)) == 0\<close>\<close>

definition has_prefix :: "string \<Rightarrow> string \<Rightarrow> bool" where
  "has_prefix s p \<longleftrightarrow> take (length p) s = p"

text \<open>\<open>strncpy\<close> of at most \<open>n\<close> bytes into a zeroed array of more than \<open>n\<close> bytes.\<close>

definition strncpy :: "nat \<Rightarrow> string \<Rightarrow> string" where
  "strncpy n s = take n s"

text \<open>\<open>snprintf(buf, len, ...)\<close>: the length of the full text, and the array's string.\<close>

definition snprintf :: "nat \<Rightarrow> string \<Rightarrow> int \<times> string" where
  "snprintf len s = (int (length s), take (len - 1) s)"

text \<open>
  \<open>fgets(line, n, fp)\<close> on the rest of the file: at most \<open>n - 1\<close> bytes, up to and including the
  first newline; and what is left of the file.
\<close>

fun fgets_take :: "nat \<Rightarrow> string \<Rightarrow> string \<times> string" where
  "fgets_take 0 s = ([], s)"
| "fgets_take (Suc n) [] = ([], [])"
| "fgets_take (Suc n) (c # s) =
    (if c = NL then ([c], s) else let (l, r) = fgets_take n s in (c # l, r))"

definition fgets :: "nat \<Rightarrow> string \<Rightarrow> (string \<times> string) option" where
  "fgets n s = (if s = [] then None else Some (fgets_take (n - 1) s))"

lemma fgets_take_rest: "length (snd (fgets_take n s)) \<le> length s"
  by (induction n s rule: fgets_take.induct) (auto simp: Let_def split: prod.splits)

lemma fgets_rest: "fgets n s = Some (l, r) \<Longrightarrow> 2 \<le> n \<Longrightarrow> length r < length s"
proof -
  assume *: "fgets n s = Some (l, r)" "2 \<le> n"
  then obtain c t m where "s = c # t" "n - 1 = Suc m" by (cases s; cases "n - 1") (auto simp: fgets_def)
  with * fgets_take_rest[of m t] show "length r < length s"
    by (auto simp: fgets_def Let_def split: prod.splits if_splits)
qed

lemma fgets_take_line:
  "NL \<notin> set l \<Longrightarrow> length l < n \<Longrightarrow> fgets_take n (l @ NL # r) = (l @ [NL], r)"
proof (induction l arbitrary: n)
  case Nil
  then show ?case by (cases n) simp_all
next
  case (Cons c l)
  then show ?case by (cases n) auto
qed

lemma fgets_line:
  "NL \<notin> set l \<Longrightarrow> length l + 1 < n \<Longrightarrow> fgets n (l @ NL # r) = Some (l @ [NL], r)"
  by (simp add: fgets_def fgets_take_line)

lemma fgets_bound: "fgets n s = Some (l, r) \<Longrightarrow> length l < max n 1"
proof -
  have "length (fst (fgets_take k t)) \<le> k" for k t
    by (induction k t rule: fgets_take.induct) (auto simp: Let_def split: prod.splits)
  from this[of "n - 1" s] show "fgets n s = Some (l, r) \<Longrightarrow> length l < max n 1"
    by (auto simp: fgets_def split: if_splits)
qed

lemma c_str_id [c_string]: "NUL \<notin> set s \<Longrightarrow> c_str s = s"
  by (induction s) (auto simp: c_str_def)

lemma c_str_no_NUL [simp]: "NUL \<notin> set (c_str s)"
  by (auto simp: c_str_def dest: set_takeWhileD)

lemma strchr_split_Some [c_string]: "c \<notin> set a \<Longrightarrow> strchr_split c (a @ c # b) = Some (a, b)"
  by (induction a) (auto simp: strchr_split_def)

lemma strchr_split_None [c_string]: "c \<notin> set s \<Longrightarrow> strchr_split c s = None"
  by (simp add: strchr_split_def)

lemma strchr_split_SomeD: "strchr_split c s = Some (a, b) \<Longrightarrow> s = a @ c # b \<and> c \<notin> set a"
proof -
  assume *: "strchr_split c s = Some (a, b)"
  then have "c \<in> set s" by (auto simp: strchr_split_def split: if_splits)
  then obtain u v where "s = u @ c # v" "c \<notin> set u" by (meson split_list_first)
  with * show ?thesis by (simp add: strchr_split_Some)
qed

lemma length_strncpy: "length (strncpy n s) \<le> n"
  by (simp add: strncpy_def)

lemma strncpy_id [c_string]: "length s \<le> n \<Longrightarrow> strncpy n s = s"
  by (simp add: strncpy_def)

section \<open>Printing numbers\<close>

definition digit_char :: "nat \<Rightarrow> char" where
  "digit_char d = ''0123456789'' ! d"

definition hex_digit :: "nat \<Rightarrow> char" where
  "hex_digit d = ''0123456789ABCDEF'' ! d"

fun show_nat :: "nat \<Rightarrow> string" where
  "show_nat n = (if n < 10 then [digit_char n] else show_nat (n div 10) @ [digit_char (n mod 10)])"

declare show_nat.simps [simp del]

text \<open>\<^verbatim>\<open>%d\<close>\<close>

definition show_int :: "int \<Rightarrow> string" where
  "show_int i = (if i < 0 then CHR ''-'' # show_nat (nat (- i)) else show_nat (nat i))"

section \<open>Reading numbers\<close>

text \<open>The value of a digit in any base up to 36; 36 for no digit.\<close>

definition digit_val :: "char \<Rightarrow> nat" where
  "digit_val c = (let n = of_char c in
    if 48 \<le> n \<and> n \<le> 57 then n - 48
    else if 97 \<le> n \<and> n \<le> 122 then n - 87
    else if 65 \<le> n \<and> n \<le> 90 then n - 55 else 36)"

definition read_digits :: "nat \<Rightarrow> string \<Rightarrow> nat" where
  "read_digits b s = foldl (\<lambda>n c. n * b + digit_val c) 0 (takeWhile (\<lambda>c. digit_val c < b) s)"

text \<open>
  What \<open>strtol\<close> and \<open>strtoul\<close> share: leading white space, a sign, for base 0 the prefixes of
  hexadecimal and octal, then digits. Gives the sign and the magnitude.
\<close>

definition read_sign :: "string \<Rightarrow> bool \<times> string" where
  "read_sign s = (case s of [] \<Rightarrow> (False, [])
    | c # r \<Rightarrow> if c = CHR ''-'' then (True, r) else if c = CHR ''+'' then (False, r) else (False, s))"

definition read_base :: "nat \<Rightarrow> string \<Rightarrow> nat \<times> string" where
  "read_base b s =
    (if b \<noteq> 0 then (b, s)
     else if 3 \<le> length s \<and> s ! 0 = CHR ''0'' \<and> (s ! 1 = CHR ''x'' \<or> s ! 1 = CHR ''X'') \<and> digit_val (s ! 2) < 16
     then (16, drop 2 s)
     else if s \<noteq> [] \<and> hd s = CHR ''0'' then (8, s) else (10, s))"

definition read_number :: "nat \<Rightarrow> string \<Rightarrow> bool \<times> nat" where
  "read_number b s = (let (neg, t) = read_sign (dropWhile isspace s); (b', u) = read_base b t in (neg, read_digits b' u))"

text \<open>\<open>strtol\<close> clamps to the range of \<open>long\<close>.\<close>

definition strtol :: "nat \<Rightarrow> string \<Rightarrow> int" where
  "strtol b s = (let (neg, n) = read_number b s; v = (if neg then - int n else int n)
    in max (- (2 ^ 63)) (min (2 ^ 63 - 1) v))"

text \<open>\<open>strtoul\<close> clamps the magnitude to the range of \<open>unsigned long\<close> and then negates it there.\<close>

definition strtoul :: "nat \<Rightarrow> string \<Rightarrow> u64" where
  "strtoul b s = (let (neg, n) = read_number b s
    in if 2 ^ 64 \<le> n then - 1 else if neg then - of_nat n else of_nat n)"

text \<open>\<open>atoi(s)\<close> is \<open>(int) strtol(s, NULL, 10)\<close>.\<close>

definition atoi :: "string \<Rightarrow> int" where
  "atoi s = sint (word_of_int (strtol 10 s) :: u32)"

section \<open>Printing and reading back\<close>

lemma digit_val_digit_char [simp]: "d < 10 \<Longrightarrow> digit_val (digit_char d) = d"
proof -
  assume "d < 10"
  then have "d = 0 \<or> d = 1 \<or> d = 2 \<or> d = 3 \<or> d = 4 \<or> d = 5 \<or> d = 6 \<or> d = 7 \<or> d = 8 \<or> d = 9" by presburger
  then show ?thesis by (auto simp: digit_char_def digit_val_def)
qed

definition isdigit :: "char \<Rightarrow> bool" where
  "isdigit c \<longleftrightarrow> digit_val c < 10"

lemma isdigit_digit_char [simp]: "d < 10 \<Longrightarrow> isdigit (digit_char d)"
  by (simp add: isdigit_def)

lemma isdigit_of_char: "isdigit c \<longleftrightarrow> 48 \<le> (of_char c :: nat) \<and> (of_char c :: nat) \<le> 57"
  by (simp add: isdigit_def digit_val_def Let_def) linarith

lemma show_nat_digits: "c \<in> set (show_nat n) \<Longrightarrow> isdigit c"
proof (induction n arbitrary: c rule: show_nat.induct)
  case (1 n)
  then show ?case by (cases "n < 10") (simp_all add: show_nat.simps[of n], auto)
qed

lemma show_nat_not_Nil [simp]: "show_nat n \<noteq> []"
  by (simp add: show_nat.simps[of n])

lemma read_digits_snoc:
  "(\<And>c. c \<in> set s \<Longrightarrow> digit_val c < b) \<Longrightarrow> digit_val d < b \<Longrightarrow>
   read_digits b (s @ [d]) = read_digits b s * b + digit_val d"
  by (simp add: read_digits_def takeWhile_append2 takeWhile_eq_all_conv[THEN iffD2])

lemma read_digits_show_nat [simp]: "read_digits 10 (show_nat n) = n"
proof (induction n rule: show_nat.induct)
  case (1 n)
  show ?case
  proof (cases "n < 10")
    case True
    then show ?thesis by (simp add: show_nat.simps[of n] read_digits_def)
  next
    case False
    have "\<And>c. c \<in> set (show_nat (n div 10)) \<Longrightarrow> digit_val c < 10"
      using show_nat_digits by (simp add: isdigit_def)
    with 1[OF False] False show ?thesis
      by (simp add: show_nat.simps[of n] read_digits_snoc)
  qed
qed

lemma isdigit_not_special: "isdigit c \<Longrightarrow> \<not> isspace c \<and> c \<noteq> CHR ''-'' \<and> c \<noteq> CHR ''+'' \<and> c \<noteq> NUL \<and> c \<noteq> CHR ''#''
    \<and> c \<noteq> CHR '';'' \<and> c \<noteq> CHR ''['' \<and> c \<noteq> CHR ''='' \<and> c \<noteq> CHR '':'' \<and> c \<noteq> CHR ''/'' \<and> c \<noteq> CHR ''.''"
  unfolding isdigit_of_char by (intro conjI notI) (auto simp: isspace_def)

lemma show_nat_hd: "isdigit (hd (show_nat n))"
  using show_nat_digits[of "hd (show_nat n)" n] by simp

lemma read_number_show_nat: "read_number 10 (show_nat n) = (False, n)"
proof -
  obtain c r where s: "show_nat n = c # r" by (cases "show_nat n") auto
  then have "isdigit c" using show_nat_hd[of n] by simp
  then have "dropWhile isspace (show_nat n) = show_nat n" "read_sign (show_nat n) = (False, show_nat n)"
    using isdigit_not_special by (auto simp: s read_sign_def)
  then show ?thesis by (simp add: read_number_def read_base_def)
qed

lemma read_number_show_int: "read_number 10 (show_int i) = (i < 0, nat \<bar>i\<bar>)"
proof (cases "i < 0")
  case True
  then have "dropWhile isspace (show_int i) = show_int i"
    by (simp add: show_int_def isspace_def)
  with True show ?thesis
    by (simp add: read_number_def read_base_def show_int_def read_sign_def)
qed (simp add: show_int_def read_number_show_nat)

lemma sint_word_of_int_u32: "- (2 ^ 31) \<le> i \<Longrightarrow> i < 2 ^ 31 \<Longrightarrow> sint (word_of_int i :: u32) = i"
  by (simp add: sint_word_ariths signed_take_bit_int_eq_self signed_of_int)

lemma atoi_show_int: "- (2 ^ 31) \<le> i \<Longrightarrow> i < 2 ^ 31 \<Longrightarrow> atoi (show_int i) = i"
  by (auto simp: atoi_def strtol_def read_number_show_int sint_word_of_int_u32)

lemma atoi_show_nat: "n < 2 ^ 31 \<Longrightarrow> atoi (show_nat n) = int n"
  using atoi_show_int[of "int n"] by (simp add: show_int_def)

lemma atoi_range: "- (2 ^ 31) \<le> atoi s" "atoi s < 2 ^ 31"
  unfolding atoi_def using sint_greater_eq[of "word_of_int (strtol 10 s) :: u32"] sint_less[of "word_of_int (strtol 10 s) :: u32"]
  by simp_all

section \<open>Searching an array\<close>

text \<open>The loop that returns the first element with a property: its index, counted from \<open>i\<close>.\<close>

fun first_index :: "('a \<Rightarrow> bool) \<Rightarrow> nat \<Rightarrow> 'a list \<Rightarrow> nat option" where
  "first_index P i [] = None"
| "first_index P i (x # xs) = (if P x then Some i else first_index P (Suc i) xs)"

lemma first_index_Some:
  "first_index P k xs = Some i \<Longrightarrow> \<exists>m. i = k + m \<and> m < length xs \<and> P (xs ! m) \<and> (\<forall>j < m. \<not> P (xs ! j))"
proof (induction xs arbitrary: k)
  case (Cons x xs)
  show ?case
  proof (cases "P x")
    case True
    with Cons.prems show ?thesis by (intro exI[of _ 0]) simp
  next
    case False
    with Cons.prems Cons.IH[of "Suc k"] obtain m where
      "i = Suc k + m" "m < length xs" "P (xs ! m)" "\<forall>j < m. \<not> P (xs ! j)" by auto
    with False show ?thesis by (intro exI[of _ "Suc m"]) (auto simp: less_Suc_eq_0_disj)
  qed
qed simp

lemma first_index_None: "first_index P k xs = None \<longleftrightarrow> (\<forall>x \<in> set xs. \<not> P x)"
  by (induction P k xs rule: first_index.induct) auto

end
