(* ===== verification/Config.thy ===== *)
theory Config
  imports C_Lib
begin

text \<open>
  The configuration: the structures of \<^verbatim>\<open>config.h\<close> and the INI parser and writer of
  \<^verbatim>\<open>config.c\<close>. The file system is a parameter: what opening a path gives. Fixed \<open>char\<close>
  arrays are strings, the array of whitelist entries is the list of the entries in use.
\<close>

section \<open>The structures\<close>

definition MAX_INSTANCES :: nat where "MAX_INSTANCES = 32"
definition MAX_SERIAL_LEN :: nat where [simp]: "MAX_SERIAL_LEN = 64"
definition MAX_ALIAS_LEN :: nat where [simp]: "MAX_ALIAS_LEN = 64"
definition MAX_WHITELIST_ENTRIES :: nat where "MAX_WHITELIST_ENTRIES = 64"
definition MAX_IP_LEN :: nat where [simp]: "MAX_IP_LEN = 46"
definition DEFAULT_BASE_PORT :: int where "DEFAULT_BASE_PORT = 2542"
definition DEFAULT_FREQUENCY :: u32 where "DEFAULT_FREQUENCY = 30000000"
definition DEFAULT_LATENCY :: int where "DEFAULT_LATENCY = 2"
definition DEFAULT_XVC_BUFFER_SIZE :: int where "DEFAULT_XVC_BUFFER_SIZE = 2048"
definition MIN_XVC_BUFFER_SIZE :: int where "MIN_XVC_BUFFER_SIZE = 64"
definition MAX_XVC_BUFFER_SIZE :: int where "MAX_XVC_BUFFER_SIZE = 536870912"
definition DEFAULT_CLIENT_LOCK_TIMEOUT :: int where "DEFAULT_CLIENT_LOCK_TIMEOUT = 10"

datatype device_id_type_t = DEVICE_ID_NONE | DEVICE_ID_SERIAL | DEVICE_ID_BUS | DEVICE_ID_CUSTOM | DEVICE_ID_AUTO

datatype whitelist_mode_t = WHITELIST_OFF | WHITELIST_PERMISSIVE | WHITELIST_STRICT

datatype jtag_mode_t = JTAG_MODE_MPSSE

record device_id_t =
  id_type :: device_id_type_t
  id_value :: string

record whitelist_entry_t =
  entry_ip :: string
  entry_prefix_len :: int
  is_block :: bool

record xvc_instance_config_t =
  instance_id :: int
  port :: int
  device_id :: device_id_t
  inst_alias :: string
  frequency :: u32
  latency_timer :: int
  async_mode :: bool
  jtag_mode :: jtag_mode_t
  xvc_buffer_size :: int
  whitelist_mode :: whitelist_mode_t
  whitelist :: "whitelist_entry_t list"
  client_lock_timeout :: int
  enabled :: bool
  pid :: int

record xvc_global_config_t =
  instance_mgmt_enabled :: bool
  base_port :: int
  max_instances :: int
  instances :: "xvc_instance_config_t list"
  instance_count :: int
  log_file :: string
  log_level :: int
  daemonize :: bool

definition no_device_id :: device_id_t where
  "no_device_id = \<lparr>id_type = DEVICE_ID_NONE, id_value = []\<rparr>"

section \<open>Trimming and sections\<close>

fun trim_end :: "string \<Rightarrow> string" where
  "trim_end s = (if 1 < length s \<and> isspace (last s) then trim_end (butlast s) else s)"

declare trim_end.simps [simp del]

definition trim :: "string \<Rightarrow> string" where
  "trim s = (let t = dropWhile isspace s in if t = [] then t else trim_end t)"

datatype section_t = SECTION_NONE | SECTION_INSTANCE_MANAGEMENT | SECTION_INSTANCE_MAPPINGS
  | SECTION_INSTANCE_SETTINGS | SECTION_INSTANCE_ALIASES | SECTION_IP_WHITELIST

definition parse_section :: "string \<Rightarrow> section_t" where
  "parse_section name =
    (if name = ''instance_management'' then SECTION_INSTANCE_MANAGEMENT
     else if name = ''instance_mappings'' then SECTION_INSTANCE_MAPPINGS
     else if name = ''instance_settings'' then SECTION_INSTANCE_SETTINGS
     else if name = ''instance_aliases'' then SECTION_INSTANCE_ALIASES
     else if name = ''ip_whitelist_per_instance'' then SECTION_IP_WHITELIST
     else SECTION_NONE)"

section \<open>Defaults\<close>

definition default_instance :: "nat \<Rightarrow> xvc_instance_config_t" where
  "default_instance i =
    \<lparr>instance_id = int i + 1, port = DEFAULT_BASE_PORT + int i, device_id = no_device_id, inst_alias = [],
     frequency = DEFAULT_FREQUENCY, latency_timer = DEFAULT_LATENCY, async_mode = False,
     jtag_mode = JTAG_MODE_MPSSE, xvc_buffer_size = DEFAULT_XVC_BUFFER_SIZE,
     whitelist_mode = WHITELIST_OFF, whitelist = [], client_lock_timeout = DEFAULT_CLIENT_LOCK_TIMEOUT,
     enabled = False, pid = 0\<rparr>"

text \<open>\<open>XVC_LOG_INFO\<close> is 2.\<close>

definition config_init :: xvc_global_config_t where
  "config_init =
    \<lparr>instance_mgmt_enabled = True, base_port = DEFAULT_BASE_PORT, max_instances = int MAX_INSTANCES,
     instances = map default_instance [0..<MAX_INSTANCES], instance_count = 0, log_file = [],
     log_level = 2, daemonize = False\<rparr>"

section \<open>Device identifiers\<close>

text \<open>The return value and what the structure holds afterwards.\<close>

definition config_parse_device_id :: "string \<Rightarrow> int \<times> device_id_t" where
  "config_parse_device_id str =
    (if has_prefix str ''SN:''
     then (0, \<lparr>id_type = DEVICE_ID_SERIAL, id_value = strncpy (MAX_SERIAL_LEN - 1) (drop 3 str)\<rparr>)
     else if has_prefix str ''BUS:''
     then (0, \<lparr>id_type = DEVICE_ID_BUS, id_value = strncpy (MAX_SERIAL_LEN - 1) (drop 4 str)\<rparr>)
     else if has_prefix str ''CUSTOM:''
     then (0, \<lparr>id_type = DEVICE_ID_CUSTOM, id_value = strncpy (MAX_SERIAL_LEN - 1) (drop 7 str)\<rparr>)
     else if str = ''auto'' then (0, \<lparr>id_type = DEVICE_ID_AUTO, id_value = []\<rparr>)
     else (-1, no_device_id))"

definition device_id_text :: "device_id_t \<Rightarrow> string" where
  "device_id_text iid = (case id_type iid of
     DEVICE_ID_SERIAL \<Rightarrow> ''SN:'' @ id_value iid
   | DEVICE_ID_BUS \<Rightarrow> ''BUS:'' @ id_value iid
   | DEVICE_ID_CUSTOM \<Rightarrow> ''CUSTOM:'' @ id_value iid
   | DEVICE_ID_AUTO \<Rightarrow> ''auto''
   | DEVICE_ID_NONE \<Rightarrow> ''none'')"

definition config_format_device_id :: "device_id_t \<Rightarrow> nat \<Rightarrow> int \<times> string" where
  "config_format_device_id iid len = (if len = 0 then (-1, []) else snprintf len (device_id_text iid))"

section \<open>Reading a file\<close>

text \<open>What one line is: nothing, a section header, or a key and its value.\<close>

datatype config_item = Blank | Header section_t | Entry string string

definition cut_at :: "char \<Rightarrow> string \<Rightarrow> string" where
  "cut_at c s = takeWhile (\<lambda>x. x \<noteq> c) s"

definition config_item_of :: "string \<Rightarrow> config_item" where
  "config_item_of line =
    (let ptr = trim line in
     if ptr = [] \<or> hd ptr = CHR ''#'' \<or> hd ptr = CHR '';'' then Blank
     else
     let ptr = trim (cut_at CHR '';'' (cut_at CHR ''#'' ptr)) in
     if ptr = [] then Blank
     else if hd ptr = CHR ''['' then
       (case strchr_split CHR '']'' ptr of None \<Rightarrow> Blank | Some (h, _) \<Rightarrow> Header (parse_section (tl h)))
     else
       (case strchr_split CHR ''='' ptr of None \<Rightarrow> Blank | Some (k, v) \<Rightarrow> Entry (trim k) (trim v)))"

definition is_true :: "string \<Rightarrow> bool" where
  "is_true v \<longleftrightarrow> v = ''true'' \<or> v = ''1''"

definition management_entry :: "string \<Rightarrow> string \<Rightarrow> xvc_global_config_t \<Rightarrow> xvc_global_config_t" where
  "management_entry key v c =
    (if key = ''enabled'' then c\<lparr>instance_mgmt_enabled := is_true v\<rparr>
     else if key = ''base_port'' then c\<lparr>base_port := atoi v\<rparr>
     else if key = ''max_instances'' then c\<lparr>max_instances := atoi v\<rparr>
     else c)"

definition valid_id :: "int \<Rightarrow> bool" where
  "valid_id iid \<longleftrightarrow> 1 \<le> iid \<and> iid \<le> int MAX_INSTANCES"

text \<open>Updating \<open>config->instances[id - 1]\<close>.\<close>

definition on_instance :: "int \<Rightarrow> (xvc_instance_config_t \<Rightarrow> xvc_instance_config_t) \<Rightarrow> xvc_global_config_t \<Rightarrow> xvc_global_config_t" where
  "on_instance iid f c = c\<lparr>instances := (instances c)[nat (iid - 1) := f (instances c ! nat (iid - 1))]\<rparr>"

text \<open>\<open>base_port + id\<close> may overflow an \<open>int\<close>.\<close>

definition mapping_entry :: "string \<Rightarrow> string \<Rightarrow> xvc_global_config_t \<Rightarrow> xvc_global_config_t outcome" where
  "mapping_entry key v c =
    (let iid = atoi key in
     if valid_id iid then
       if base_port c + iid > 2147483647 then Undefined
       else
         let c1 = on_instance iid (\<lambda>inst. inst\<lparr>enabled := True, port := base_port c + iid - 1,
                                           device_id := snd (config_parse_device_id v)\<rparr>) c
         in Ret (if iid > instance_count c then c1\<lparr>instance_count := iid\<rparr> else c1)
     else Ret c)"

definition clamp_buffer_size :: "int \<Rightarrow> int" where
  "clamp_buffer_size sz =
    (if sz < MIN_XVC_BUFFER_SIZE then MIN_XVC_BUFFER_SIZE
     else if sz > MAX_XVC_BUFFER_SIZE then MAX_XVC_BUFFER_SIZE else sz)"

definition apply_setting :: "string \<Rightarrow> string \<Rightarrow> xvc_instance_config_t \<Rightarrow> xvc_instance_config_t" where
  "apply_setting setting v inst =
    (if setting = ''frequency'' then inst\<lparr>frequency := ucast (strtoul 0 v)\<rparr>
     else if setting = ''latency_timer'' then inst\<lparr>latency_timer := atoi v\<rparr>
     else if setting = ''async'' then inst\<lparr>async_mode := is_true v\<rparr>
     else if setting = ''jtag_mode'' then inst\<lparr>jtag_mode := JTAG_MODE_MPSSE\<rparr>
     else if setting = ''xvc_buffer_size'' then inst\<lparr>xvc_buffer_size := clamp_buffer_size (strtol 0 v)\<rparr>
     else if setting = ''client_lock_timeout'' then inst\<lparr>client_lock_timeout := max 0 (atoi v)\<rparr>
     else inst)"

text \<open>The \<open>id:setting\<close> keys.\<close>

definition keyed_entry :: "string \<Rightarrow> (string \<Rightarrow> xvc_instance_config_t \<Rightarrow> xvc_instance_config_t) \<Rightarrow> xvc_global_config_t \<Rightarrow> xvc_global_config_t" where
  "keyed_entry key f c =
    (case strchr_split CHR '':'' key of None \<Rightarrow> c
     | Some (i, setting) \<Rightarrow> let iid = atoi i in if valid_id iid then on_instance iid (f setting) c else c)"

definition settings_entry :: "string \<Rightarrow> string \<Rightarrow> xvc_global_config_t \<Rightarrow> xvc_global_config_t" where
  "settings_entry key v = keyed_entry key (\<lambda>setting. apply_setting setting v)"

definition alias_entry :: "string \<Rightarrow> string \<Rightarrow> xvc_global_config_t \<Rightarrow> xvc_global_config_t" where
  "alias_entry key v c =
    (let iid = atoi key in
     if valid_id iid then on_instance iid (\<lambda>inst. inst\<lparr>inst_alias := strncpy (MAX_ALIAS_LEN - 1) v\<rparr>) c else c)"

definition whitelist_setting :: "string \<Rightarrow> string \<Rightarrow> xvc_instance_config_t \<Rightarrow> xvc_instance_config_t" where
  "whitelist_setting setting v inst =
    (if setting = ''mode'' then
       inst\<lparr>whitelist_mode := (if v = ''strict'' then WHITELIST_STRICT
                              else if v = ''permissive'' then WHITELIST_PERMISSIVE else WHITELIST_OFF)\<rparr>
     else if has_prefix setting ''allow_'' \<or> has_prefix setting ''block_'' then
       if length (whitelist inst) < MAX_WHITELIST_ENTRIES
       then inst\<lparr>whitelist := whitelist inst @
                  [\<lparr>entry_ip = strncpy (MAX_IP_LEN - 1) v, entry_prefix_len = 0, is_block = (hd setting = CHR ''b'')\<rparr>]\<rparr>
       else inst
     else inst)"

definition whitelist_entry :: "string \<Rightarrow> string \<Rightarrow> xvc_global_config_t \<Rightarrow> xvc_global_config_t" where
  "whitelist_entry key v = keyed_entry key (\<lambda>setting. whitelist_setting setting v)"

fun config_apply :: "config_item \<Rightarrow> section_t \<times> xvc_global_config_t \<Rightarrow> (section_t \<times> xvc_global_config_t) outcome" where
  "config_apply Blank st = Ret st"
| "config_apply (Header sec) (_, c) = Ret (sec, c)"
| "config_apply (Entry key v) (sec, c) =
    (case sec of
       SECTION_INSTANCE_MANAGEMENT \<Rightarrow> Ret (sec, management_entry key v c)
     | SECTION_INSTANCE_MAPPINGS \<Rightarrow> bind_out (mapping_entry key v c) (\<lambda>c. Ret (sec, c))
     | SECTION_INSTANCE_SETTINGS \<Rightarrow> Ret (sec, settings_entry key v c)
     | SECTION_INSTANCE_ALIASES \<Rightarrow> Ret (sec, alias_entry key v c)
     | SECTION_IP_WHITELIST \<Rightarrow> Ret (sec, whitelist_entry key v c)
     | SECTION_NONE \<Rightarrow> Ret (sec, c))"

definition LINE_SIZE :: nat where "LINE_SIZE = 512"

function config_lines :: "string \<Rightarrow> section_t \<times> xvc_global_config_t \<Rightarrow> (section_t \<times> xvc_global_config_t) outcome" where
  "config_lines text st =
    (case fgets LINE_SIZE text of None \<Rightarrow> Ret st
     | Some (line, rest) \<Rightarrow> bind_out (config_apply (config_item_of (c_str line)) st) (config_lines rest))"
  by auto
termination
  by (relation "measure (\<lambda>(text, _). length text)") (auto simp: LINE_SIZE_def dest: fgets_rest)

declare config_lines.simps [simp del]

definition config_load :: "(string \<Rightarrow> string option) \<Rightarrow> string \<Rightarrow> xvc_global_config_t \<Rightarrow> (int \<times> xvc_global_config_t) outcome" where
  "config_load fopen path config =
    (case fopen path of None \<Rightarrow> Ret (-1, config)
     | Some text \<Rightarrow> bind_out (config_lines text (SECTION_NONE, config_init)) (\<lambda>(_, c). Ret (0, c)))"

section \<open>Writing a file\<close>

definition nl :: "string \<Rightarrow> string" where
  "nl s = s @ [NL]"

definition management_text :: "xvc_global_config_t \<Rightarrow> string" where
  "management_text c =
    nl ''[instance_management]'' @
    nl (''enabled = '' @ (if instance_mgmt_enabled c then ''true'' else ''false'')) @
    nl (''base_port = '' @ show_int (base_port c)) @
    nl (''max_instances = '' @ show_int (max_instances c)) @ [NL]"

text \<open>The loops \<open>for (i = 0; i < instance_count; i++) if (enabled)\<close>.\<close>

definition each_enabled :: "(xvc_instance_config_t \<Rightarrow> string) \<Rightarrow> xvc_global_config_t \<Rightarrow> string" where
  "each_enabled f c = concat (map (\<lambda>inst. if enabled inst then f inst else []) (take (nat (instance_count c)) (instances c)))"

definition mapping_text :: "xvc_instance_config_t \<Rightarrow> string" where
  "mapping_text inst = nl (show_int (instance_id inst) @ '' = '' @ snd (config_format_device_id (device_id inst) 128))"

definition settings_text :: "xvc_instance_config_t \<Rightarrow> string" where
  "settings_text inst =
    nl (show_int (instance_id inst) @ '':frequency = '' @ show_nat (unat (frequency inst))) @
    (if latency_timer inst \<noteq> DEFAULT_LATENCY
     then nl (show_int (instance_id inst) @ '':latency_timer = '' @ show_int (latency_timer inst)) else []) @
    (if xvc_buffer_size inst \<noteq> DEFAULT_XVC_BUFFER_SIZE
     then nl (show_int (instance_id inst) @ '':xvc_buffer_size = '' @ show_int (xvc_buffer_size inst)) else [])"

definition alias_text :: "xvc_instance_config_t \<Rightarrow> string" where
  "alias_text inst = (if inst_alias inst \<noteq> [] then nl (show_int (instance_id inst) @ '' = '' @ inst_alias inst) else [])"

definition config_text :: "xvc_global_config_t \<Rightarrow> string" where
  "config_text c =
    nl ''# XVC Server Configuration'' @ nl ''# Generated automatically'' @ [NL] @
    management_text c @
    nl ''[instance_mappings]'' @
    nl ''# Format: instance_id = device_id'' @
    nl ''# device_id: SN:serial, BUS:bus-dev, CUSTOM:name, or auto'' @
    each_enabled mapping_text c @ [NL] @
    nl ''[instance_settings]'' @
    nl ''# Format: instance_id:setting = value'' @
    each_enabled settings_text c @ [NL] @
    nl ''[instance_aliases]'' @
    each_enabled alias_text c @ [NL]"

text \<open>The return value and, when the file could be created, its content.\<close>

definition config_save :: "bool \<Rightarrow> xvc_global_config_t \<Rightarrow> int \<times> string option" where
  "config_save created c = (if created then (0, Some (config_text c)) else (-1, None))"

definition config_free :: "xvc_global_config_t \<Rightarrow> xvc_global_config_t" where
  "config_free c = c"

text \<open>The index into \<open>instances\<close>, \<open>None\<close> for NULL.\<close>

definition config_get_instance :: "int \<Rightarrow> nat option" where
  "config_get_instance iid = (if iid < 1 \<or> iid > int MAX_INSTANCES then None else Some (nat (iid - 1)))"

end
