(* ===== verification/Config_Props.thy ===== *)
theory Config_Props
  imports Config
begin

text \<open>
  What the configuration parser guarantees: the invariant of every loaded configuration, and
  the round trips through the text form of device identifiers and of whole configurations.
\<close>

section \<open>Trimming\<close>

lemma trim_end_append:
  assumes "s \<noteq> []" "\<not> isspace (last s)" "\<forall>c \<in> set b. isspace c"
  shows "trim_end (s @ b) = s"
  using assms(3)
proof (induction b rule: rev_induct)
  case Nil
  then show ?case using assms by (simp add: trim_end.simps[of s])
next
  case (snoc c b)
  then have "trim_end ((s @ b) @ [c]) = trim_end (s @ b)"
    using assms(1) by (subst trim_end.simps) (simp add: butlast_append)
  with snoc show ?case by simp
qed

lemma trim_around:
  assumes "s \<noteq> []" "\<not> isspace (hd s)" "\<not> isspace (last s)" "\<forall>c \<in> set a. isspace c" "\<forall>c \<in> set b. isspace c"
  shows "trim (a @ s @ b) = s"
proof -
  have "dropWhile isspace (a @ s @ b) = s @ b"
    using assms by (cases s) (auto simp: dropWhile_append2)
  with assms show ?thesis by (simp add: trim_def trim_end_append)
qed

lemmas trim_id = trim_around[where a = "[]" and b = "[]", simplified]

section \<open>Lines\<close>

text \<open>Text that survives the treatment of a line: no comment characters, no surrounding space.\<close>

definition plain :: "string \<Rightarrow> bool" where
  "plain s \<longleftrightarrow> s \<noteq> [] \<and> \<not> isspace (hd s) \<and> \<not> isspace (last s) \<and>
     CHR ''#'' \<notin> set s \<and> CHR '';'' \<notin> set s \<and> NL \<notin> set s \<and> NUL \<notin> set s"

lemma cut_at_id: "c \<notin> set s \<Longrightarrow> cut_at c s = s"
  by (induction s) (auto simp: cut_at_def)

lemma item_entry:
  assumes k: "plain k" "CHR ''='' \<notin> set k" "hd k \<noteq> CHR ''[''" and v: "plain v"
  shows "config_item_of (k @ '' = '' @ v @ [NL]) = Entry k v"
proof -
  let ?l = "k @ '' = '' @ v"
  have l: "trim (?l @ [NL]) = ?l" "trim ?l = ?l"
    using trim_around[of ?l "[]" "[NL]"] trim_id[of ?l] k v by (auto simp: plain_def isspace_def)
  have sp: "isspace CHR '' ''" by (simp add: isspace_def)
  have "strchr_split CHR ''='' ?l = Some (k @ '' '', CHR '' '' # v)"
    using strchr_split_Some[of "CHR ''=''" "k @ '' ''" "CHR '' '' # v"] k by simp
  moreover have "trim (k @ '' '') = k" "trim (CHR '' '' # v) = v"
    using trim_around[of k "[]" "'' ''"] trim_around[of v "'' ''" "[]"] k v sp by (simp_all add: plain_def)
  moreover have "cut_at CHR '';'' (cut_at CHR ''#'' ?l) = ?l"
    using k v by (simp add: cut_at_id plain_def)
  moreover have "hd ?l = hd k" "hd k \<noteq> CHR ''#''" "hd k \<noteq> CHR '';''"
    using k hd_in_set[of k] by (auto simp: plain_def simp del: hd_in_set)
  ultimately show ?thesis using l k by (simp add: config_item_of_def plain_def)
qed

lemma lines_line:
  assumes "NL \<notin> set l" "NUL \<notin> set l" "length l \<le> 510"
  shows "config_lines (l @ NL # rest) st = bind_out (config_apply (config_item_of (l @ [NL])) st) (config_lines rest)"
proof -
  have "fgets LINE_SIZE (l @ NL # rest) = Some (l @ [NL], rest)"
    using assms by (simp add: LINE_SIZE_def fgets_line)
  with assms show ?thesis by (simp add: config_lines.simps[of "l @ NL # rest"] c_str_id)
qed

lemma lines_item:
  assumes "config_item_of (nl l) = it" "NL \<notin> set l" "NUL \<notin> set l" "length l \<le> 510"
  shows "config_lines (nl l @ rest) st = bind_out (config_apply it st) (config_lines rest)"
  using lines_line[OF assms(2-4)] assms(1) by (simp add: nl_def)

lemma lines_entry:
  assumes "plain k" "CHR ''='' \<notin> set k" "hd k \<noteq> CHR ''[''" "plain v" "length k \<le> 200" "length v \<le> 200"
  shows "config_lines (nl (k @ '' = '' @ v) @ rest) st = bind_out (config_apply (Entry k v) st) (config_lines rest)"
proof (rule lines_item)
  show "config_item_of (nl (k @ '' = '' @ v)) = Entry k v"
    using item_entry[OF assms(1-4)] by (simp add: nl_def)
qed (use assms in \<open>auto simp: plain_def\<close>)

lemma lines_blank: "config_lines (NL # rest) st = config_lines rest st"
  using lines_line[of "[]" rest st] by (simp add: config_item_of_def trim_def isspace_def)

lemma lines_end: "config_lines [] st = Ret st"
  by (simp add: config_lines.simps fgets_def)

lemma lines_comment:
  assumes "NL \<notin> set l" "NUL \<notin> set l" "length l \<le> 509" "l \<noteq> []" "\<not> isspace (last l)"
  shows "config_lines (nl (CHR ''#'' # l) @ rest) st = config_lines rest st"
proof -
  have "trim (CHR ''#'' # l @ [NL]) = CHR ''#'' # l"
    using trim_around[of "CHR ''#'' # l" "[]" "[NL]"] assms by (simp add: isspace_def)
  then have "config_item_of (nl (CHR ''#'' # l)) = Blank"
    by (simp add: config_item_of_def nl_def)
  from lines_item[OF this] assms show ?thesis by simp
qed

lemma lines_header:
  assumes "parse_section l = sec" "CHR '']'' \<notin> set l" "CHR ''#'' \<notin> set l" "CHR '';'' \<notin> set l" "NL \<notin> set l" "NUL \<notin> set l" "length l \<le> 500"
  shows "config_lines (nl (''['' @ l @ '']'') @ rest) (sec0, c) = config_lines rest (sec, c)"
proof -
  let ?l = "''['' @ l @ '']''"
  have t: "trim (?l @ [NL]) = ?l" "trim ?l = ?l"
    using trim_around[of ?l "[]" "[NL]"] trim_id[of ?l] by (auto simp: isspace_def)
  have "strchr_split CHR '']'' ?l = Some (CHR ''['' # l, [])"
    using strchr_split_Some[of "CHR '']''" "CHR ''['' # l" "[]"] assms by simp
  moreover have "cut_at CHR '';'' (cut_at CHR ''#'' ?l) = ?l"
    using assms by (simp add: cut_at_id)
  ultimately have "config_item_of (nl ?l) = Header sec"
    using t assms(1) by (simp add: config_item_of_def nl_def)
  from lines_item[OF this] assms show ?thesis by simp
qed

section \<open>Numbers as text\<close>

lemma show_nat_chars: "c \<in> set (show_nat n) \<Longrightarrow> \<not> isdigit c \<Longrightarrow> False"
  using show_nat_digits by blast

lemma show_nat_set: "\<not> isdigit c \<Longrightarrow> c \<notin> set (show_nat n)"
  using show_nat_digits by blast

lemma not_isdigit [simp]: "\<not> isdigit CHR ''#''" "\<not> isdigit CHR '';''" "\<not> isdigit CHR ''=''" "\<not> isdigit CHR '':''"
  "\<not> isdigit NL" "\<not> isdigit NUL" "\<not> isdigit CHR ''x''" "\<not> isdigit CHR ''X''" "\<not> isdigit CHR ''[''" "\<not> isdigit CHR ''-''"
  "\<not> isdigit CHR ''/''" "\<not> isdigit CHR ''.''"
  using isdigit_not_special by (auto simp: isdigit_def digit_val_def)

lemma plain_show_nat: "plain (show_nat n)"
  using isdigit_not_special[OF show_nat_hd[of n]] isdigit_not_special[OF show_nat_digits[of "last (show_nat n)" n]]
  by (auto simp: plain_def show_nat_set)

lemma plain_show_int: "plain (show_int i)"
  using plain_show_nat[of "nat i"] plain_show_nat[of "nat (- i)"] by (auto simp: show_int_def plain_def isspace_def)

lemma show_int_pos [simp]: "0 \<le> i \<Longrightarrow> show_int i = show_nat (nat i)"
  by (simp add: show_int_def)

lemma length_show_nat: "n < 10 ^ k \<Longrightarrow> 0 < k \<Longrightarrow> length (show_nat n) \<le> k"
proof (induction n arbitrary: k rule: show_nat.induct)
  case (1 n)
  show ?case
  proof (cases "n < 10")
    case True
    then show ?thesis using 1 by (simp add: show_nat.simps[of n])
  next
    case False
    with 1 obtain j where j: "k = Suc j" "0 < j" by (cases k; cases "k - 1") auto
    with 1(2) have "n div 10 < 10 ^ j" by (simp add: less_mult_imp_div_less mult.commute)
    from 1(1)[OF False this j(2)] False j show ?thesis by (simp add: show_nat.simps[of n])
  qed
qed

lemma length_show_int: "\<bar>i\<bar> < 10 ^ k \<Longrightarrow> 0 < k \<Longrightarrow> length (show_int i) \<le> Suc k"
  using length_show_nat[of "nat \<bar>i\<bar>" k] by (auto simp: show_int_def nat_less_iff le_SucI)

lemma length_show_int32: "- (2 ^ 31) \<le> i \<Longrightarrow> i < 2 ^ 31 \<Longrightarrow> length (show_int i) \<le> 200"
  using length_show_int[of i 10] by (simp add: abs_less_iff)

lemma show_nat_zero: "hd (show_nat n) = CHR ''0'' \<Longrightarrow> n = 0"
proof (induction n rule: show_nat.induct)
  case (1 n)
  have d: "digit_val CHR ''0'' = 0" by (simp add: digit_val_def)
  show ?case
  proof (cases "n < 10")
    case True
    then show ?thesis using 1(2) d digit_val_digit_char[of n] by (simp add: show_nat.simps[of n])
  next
    case False
    then have "n div 10 = 0" using 1 by (simp add: show_nat.simps[of n])
    with False show ?thesis by simp
  qed
qed

lemma read_number0_show_nat: "read_number 0 (show_nat n) = (False, n)"
proof -
  obtain c r where s: "show_nat n = c # r" by (cases "show_nat n") auto
  have c: "\<not> isspace c" "c \<noteq> CHR ''-''" "c \<noteq> CHR ''+''"
    using isdigit_not_special[OF show_nat_hd[of n]] by (simp_all add: s)
  have z: "show_nat 0 = ''0''" by (simp add: show_nat.simps digit_char_def)
  have z8: "read_digits 8 ''0'' = 0" by (simp add: read_digits_def digit_val_def)
  have "dropWhile isspace (show_nat n) = show_nat n" "read_sign (show_nat n) = (False, show_nat n)"
    using c by (simp_all add: s read_sign_def)
  moreover have "snd (read_number 0 (show_nat n)) = n" if "read_sign (dropWhile isspace (show_nat n)) = (False, show_nat n)"
  proof (cases "hd (show_nat n) = CHR ''0''")
    case True
    then have "n = 0" by (rule show_nat_zero)
    with that z z8 show ?thesis by (simp add: read_number_def read_base_def)
  next
    case False
    then have "show_nat n ! 0 \<noteq> CHR ''0''" by (simp add: hd_conv_nth)
    with that False show ?thesis by (simp add: read_number_def read_base_def)
  qed
  ultimately show ?thesis by (simp add: read_number_def split: prod.splits)
qed

lemma strtoul_show: "(ucast (strtoul 0 (show_nat (unat w))) :: u32) = w"
proof -
  have "unat w < 2 ^ LENGTH(32)" by (rule unsigned_less)
  then have "unat w < 2 ^ 64" by simp
  then have "strtoul 0 (show_nat (unat w)) = ucast w" by (simp add: strtoul_def read_number0_show_nat)
  then show ?thesis by (auto intro!: bit_word_eqI simp: bit_simps)
qed

lemma strtol_show: "0 \<le> i \<Longrightarrow> i < 2 ^ 63 \<Longrightarrow> strtol 0 (show_int i) = i"
  by (simp add: strtol_def read_number0_show_nat)

section \<open>Device identifiers\<close>

definition device_id_wf :: "device_id_t \<Rightarrow> bool" where
  "device_id_wf d \<longleftrightarrow> length (id_value d) < MAX_SERIAL_LEN \<and> (id_type d \<in> {DEVICE_ID_NONE, DEVICE_ID_AUTO} \<longrightarrow> id_value d = [])"

lemma parse_wf: "device_id_wf (snd (config_parse_device_id s))"
  using length_strncpy[of 63] by (auto simp: config_parse_device_id_def device_id_wf_def no_device_id_def less_Suc_eq_le[of _ 63, simplified])

lemma parse_format:
  "device_id_wf d \<Longrightarrow> config_parse_device_id (device_id_text d) = (if id_type d = DEVICE_ID_NONE then -1 else 0, d)"
  by (cases d; cases "id_type d")
    (auto simp: device_id_text_def config_parse_device_id_def has_prefix_def strncpy_def device_id_wf_def no_device_id_def)

lemma format_full: "device_id_wf d \<Longrightarrow> 71 \<le> len \<Longrightarrow> config_format_device_id d len = (int (length (device_id_text d)), device_id_text d)"
  by (cases "id_type d") (auto simp: config_format_device_id_def snprintf_def device_id_text_def device_id_wf_def)

text \<open>
  C38. Formatting a device identifier into a buffer of at least 71 bytes and parsing the text
  gives the identifier back, and the parser refuses exactly the text of no identifier;
  whatever is parsed is a well-formed identifier.
\<close>

theorem device_id_round_trip:
  assumes "device_id_wf d" "71 \<le> len"
  shows "config_parse_device_id (snd (config_format_device_id d len)) = (if id_type d = DEVICE_ID_NONE then -1 else 0, d) \<and>
    device_id_wf (snd (config_parse_device_id s))"
  using assms by (simp_all add: format_full parse_format parse_wf)

theorem device_id_round_trip_witness:
  "snd (config_parse_device_id (snd (config_format_device_id \<lparr>id_type = DEVICE_ID_BUS, id_value = ''001-002''\<rparr> 128)))
     = \<lparr>id_type = DEVICE_ID_BUS, id_value = ''001-002''\<rparr>"
  using device_id_round_trip[of "\<lparr>id_type = DEVICE_ID_BUS, id_value = ''001-002''\<rparr>" 128] by (simp add: device_id_wf_def)


section \<open>The invariant of a configuration\<close>

definition entry_wf :: "whitelist_entry_t \<Rightarrow> bool" where
  "entry_wf e \<longleftrightarrow> length (entry_ip e) < MAX_IP_LEN"

definition instance_wf :: "nat \<Rightarrow> xvc_instance_config_t \<Rightarrow> bool" where
  "instance_wf i inst \<longleftrightarrow> instance_id inst = int i + 1 \<and> device_id_wf (device_id inst) \<and>
     length (inst_alias inst) < MAX_ALIAS_LEN \<and>
     MIN_XVC_BUFFER_SIZE \<le> xvc_buffer_size inst \<and> xvc_buffer_size inst \<le> MAX_XVC_BUFFER_SIZE \<and>
     0 \<le> client_lock_timeout inst \<and> client_lock_timeout inst < 2 ^ 31 \<and>
     length (whitelist inst) \<le> MAX_WHITELIST_ENTRIES \<and> list_all entry_wf (whitelist inst)"

definition config_wf :: "xvc_global_config_t \<Rightarrow> bool" where
  "config_wf c \<longleftrightarrow> length (instances c) = MAX_INSTANCES \<and> 0 \<le> instance_count c \<and> instance_count c \<le> int MAX_INSTANCES \<and>
     (\<forall>i < MAX_INSTANCES. instance_wf i (instances c ! i) \<and>
        (enabled (instances c ! i) \<longrightarrow> int i < instance_count c))"

lemma config_init_wf: "config_wf config_init"
  by (simp add: config_wf_def config_init_def instance_wf_def default_instance_def device_id_wf_def no_device_id_def
      MIN_XVC_BUFFER_SIZE_def MAX_XVC_BUFFER_SIZE_def DEFAULT_XVC_BUFFER_SIZE_def DEFAULT_CLIENT_LOCK_TIMEOUT_def
      MAX_INSTANCES_def)

lemma on_instance_wf:
  assumes "config_wf c" "valid_id j" "\<And>i inst. instance_wf i inst \<Longrightarrow> instance_wf i (f inst)"
    "\<And>inst. enabled (f inst) \<Longrightarrow> enabled inst"
  shows "config_wf (on_instance j f c)"
  using assms by (auto simp: config_wf_def on_instance_def valid_id_def nth_list_update split: if_splits)

lemma keyed_entry_wf:
  assumes "config_wf c" "\<And>s i inst. instance_wf i inst \<Longrightarrow> instance_wf i (f s inst)"
    "\<And>s inst. enabled (f s inst) \<Longrightarrow> enabled inst"
  shows "config_wf (keyed_entry key f c)"
  using assms by (auto simp: keyed_entry_def Let_def intro!: on_instance_wf split: option.splits)

lemma apply_setting_wf: "instance_wf i inst \<Longrightarrow> instance_wf i (apply_setting s v inst)"
  using atoi_range[of v]
  by (auto simp: apply_setting_def instance_wf_def clamp_buffer_size_def MIN_XVC_BUFFER_SIZE_def MAX_XVC_BUFFER_SIZE_def)

lemma whitelist_setting_wf: "instance_wf i inst \<Longrightarrow> instance_wf i (whitelist_setting s v inst)"
  using length_strncpy[of 45 v] by (auto simp: whitelist_setting_def instance_wf_def entry_wf_def)

lemma mapping_entry_wf:
  assumes "config_wf c" "base_port c \<le> 2147483615"
  shows "\<exists>c'. mapping_entry key v c = Ret c' \<and> config_wf c' \<and> base_port c' = base_port c"
proof -
  have "base_port c + atoi key \<le> 2147483647" if "valid_id (atoi key)"
    using assms that by (simp add: valid_id_def MAX_INSTANCES_def)
  then show ?thesis
    using assms parse_wf[of v]
    by (auto simp: mapping_entry_def Let_def config_wf_def on_instance_def valid_id_def nth_list_update instance_wf_def nat_less_iff)
qed

lemma same_base_port [simp]:
  "base_port (on_instance j f c) = base_port c" "base_port (keyed_entry key g c) = base_port c"
  "base_port (settings_entry key v c) = base_port c" "base_port (alias_entry key v c) = base_port c"
  "base_port (whitelist_entry key v c) = base_port c"
  by (simp_all add: on_instance_def keyed_entry_def settings_entry_def alias_entry_def whitelist_entry_def Let_def split: option.splits)

lemma settings_entry_wf: "config_wf c \<Longrightarrow> config_wf (settings_entry key v c)"
  unfolding settings_entry_def by (rule keyed_entry_wf) (auto simp: apply_setting_wf, auto simp: apply_setting_def split: if_splits)

lemma whitelist_entry_wf: "config_wf c \<Longrightarrow> config_wf (whitelist_entry key v c)"
  unfolding whitelist_entry_def by (rule keyed_entry_wf) (auto simp: whitelist_setting_wf, auto simp: whitelist_setting_def split: if_splits)

lemma alias_entry_wf: "config_wf c \<Longrightarrow> config_wf (alias_entry key v c)"
  using length_strncpy[of 63 v] by (auto simp: alias_entry_def Let_def instance_wf_def intro!: on_instance_wf)

lemma management_entry_wf: "config_wf c \<Longrightarrow> config_wf (management_entry key v c)"
  by (auto simp: management_entry_def config_wf_def)

lemmas entry_wf_intros = settings_entry_wf whitelist_entry_wf alias_entry_wf management_entry_wf

lemma apply_item_wf:
  assumes "config_wf c" "base_port c \<le> 2147483615" "\<And>v. it = Entry ''base_port'' v \<Longrightarrow> atoi v \<le> 2147483615"
  shows "\<exists>sec' c'. config_apply it (sec, c) = Ret (sec', c') \<and> config_wf c' \<and> base_port c' \<le> 2147483615"
proof (cases it)
  case (Entry key v)
  have "base_port (management_entry key v c) \<le> 2147483615"
    using assms Entry by (auto simp: management_entry_def)
  with Entry assms mapping_entry_wf[OF assms(1,2), of key v] show ?thesis
    by (cases sec) (auto simp: entry_wf_intros)
qed (use assms in auto)

text \<open>The items of a file, in order.\<close>

function file_items :: "string \<Rightarrow> config_item list" where
  "file_items content = (case fgets LINE_SIZE content of None \<Rightarrow> [] | Some (line, rest) \<Rightarrow> config_item_of (c_str line) # file_items rest)"
  by auto
termination
  by (relation "measure length") (auto simp: LINE_SIZE_def dest: fgets_rest)

declare file_items.simps [simp del]

lemma lines_wf:
  assumes "config_wf c" "base_port c \<le> 2147483615"
    "\<And>v. Entry ''base_port'' v \<in> set (file_items content) \<Longrightarrow> atoi v \<le> 2147483615"
  shows "\<exists>sec' c'. config_lines content (sec, c) = Ret (sec', c') \<and> config_wf c'"
  using assms
proof (induction content arbitrary: sec c rule: file_items.induct)
  case (1 content)
  show ?case
  proof (cases "fgets LINE_SIZE content")
    case None
    then show ?thesis using 1 by (simp add: config_lines.simps)
  next
    case (Some p)
    obtain line rest where p: "p = (line, rest)" by (cases p)
    have items: "file_items content = config_item_of (c_str line) # file_items rest"
      using Some p by (simp add: file_items.simps[of content])
    from apply_item_wf[of c "config_item_of (c_str line)" sec] 1(2-4) items obtain sec1 c1 where
      s: "config_apply (config_item_of (c_str line)) (sec, c) = Ret (sec1, c1)" "config_wf c1" "base_port c1 \<le> 2147483615"
      by (metis list.set_intros(1))
    have "\<exists>sec' c'. config_lines rest (sec1, c1) = Ret (sec', c') \<and> config_wf c'"
      using 1(1)[OF Some p[symmetric] s(2,3)] 1(4) items by simp
    with Some p s(1) show ?thesis by (simp add: config_lines.simps[of content])
  qed
qed

text \<open>
  C19. Whatever the file contains, as long as it does not set a base port above 2147483615,
  loading it returns 0 and gives a configuration that respects every bound of the structures:
  32 instances with their numbers, identifiers and aliases that fit their arrays, a buffer size
  between 64 bytes and 512 MB, at most 64 whitelist entries, a lock time-out that is not
  negative, and enabled instances only below the instance count. A file that cannot be opened
  gives -1 and leaves the configuration as it was.
\<close>

theorem config_load_wf:
  assumes "\<And>content v. fopen path = Some content \<Longrightarrow> Entry ''base_port'' v \<in> set (file_items content) \<Longrightarrow> atoi v \<le> 2147483615"
  shows "if fopen path = None then config_load fopen path config = Ret (-1, config)
    else \<exists>c. config_load fopen path config = Ret (0, c) \<and> config_wf c"
proof (cases "fopen path")
  case (Some content)
  have "base_port config_init \<le> 2147483615" by (simp add: config_init_def DEFAULT_BASE_PORT_def)
  with lines_wf[OF config_init_wf, of content SECTION_NONE] assms[OF Some] Some show ?thesis
    by (auto simp: config_load_def)
qed (simp add: config_load_def)

end
