(* ===== verification/Config_Round_Trip.thy ===== *)
theory Config_Round_Trip
  imports Config_Props
begin

text \<open>
  Saving a configuration and loading the file again.
\<close>

definition int32 :: "int \<Rightarrow> bool" where
  "int32 i \<longleftrightarrow> - (2 ^ 31) \<le> i \<and> i < 2 ^ 31"

text \<open>What an enabled instance must be like for the file to represent it.\<close>

definition savable_instance :: "xvc_instance_config_t \<Rightarrow> bool" where
  "savable_instance inst \<longleftrightarrow> plain (device_id_text (device_id inst)) \<and>
     (inst_alias inst = [] \<or> plain (inst_alias inst)) \<and> int32 (latency_timer inst)"

definition savable :: "xvc_global_config_t \<Rightarrow> bool" where
  "savable c \<longleftrightarrow> config_wf c \<and> int32 (base_port c) \<and> base_port c \<le> 2147483615 \<and> int32 (max_instances c) \<and>
     (instance_count c = 0 \<or> enabled (instances c ! nat (instance_count c - 1))) \<and>
     (\<forall>i < MAX_INSTANCES. enabled (instances c ! i) \<longrightarrow> savable_instance (instances c ! i))"

text \<open>What the file keeps of a configuration.\<close>

definition same_instance :: "int \<Rightarrow> nat \<Rightarrow> xvc_instance_config_t \<Rightarrow> xvc_instance_config_t \<Rightarrow> bool" where
  "same_instance bp i a b \<longleftrightarrow> enabled b = enabled a \<and>
     (enabled a \<longrightarrow> port b = bp + int i \<and> device_id b = device_id a \<and> inst_alias b = inst_alias a \<and>
        frequency b = frequency a \<and> latency_timer b = latency_timer a \<and> xvc_buffer_size b = xvc_buffer_size a)"

definition same_saved :: "xvc_global_config_t \<Rightarrow> xvc_global_config_t \<Rightarrow> bool" where
  "same_saved a b \<longleftrightarrow> instance_mgmt_enabled b = instance_mgmt_enabled a \<and> base_port b = base_port a \<and>
     max_instances b = max_instances a \<and> instance_count b = instance_count a \<and> config_wf b \<and>
     (\<forall>i < MAX_INSTANCES. same_instance (base_port a) i (instances a ! i) (instances b ! i))"

section \<open>The lines of one instance\<close>

definition mapped :: "int \<Rightarrow> xvc_instance_config_t \<Rightarrow> xvc_instance_config_t \<Rightarrow> xvc_instance_config_t" where
  "mapped bp src inst = inst\<lparr>enabled := True, port := bp + instance_id src - 1, device_id := device_id src\<rparr>"

definition with_settings :: "xvc_instance_config_t \<Rightarrow> xvc_instance_config_t \<Rightarrow> xvc_instance_config_t" where
  "with_settings src inst =
     (let inst = inst\<lparr>frequency := frequency src\<rparr>;
          inst = (if latency_timer src \<noteq> DEFAULT_LATENCY then inst\<lparr>latency_timer := latency_timer src\<rparr> else inst)
      in if xvc_buffer_size src \<noteq> DEFAULT_XVC_BUFFER_SIZE then inst\<lparr>xvc_buffer_size := xvc_buffer_size src\<rparr> else inst)"

definition with_alias :: "xvc_instance_config_t \<Rightarrow> xvc_instance_config_t \<Rightarrow> xvc_instance_config_t" where
  "with_alias src inst = (if inst_alias src \<noteq> [] then inst\<lparr>inst_alias := inst_alias src\<rparr> else inst)"

definition raise_count :: "int \<Rightarrow> xvc_global_config_t \<Rightarrow> xvc_global_config_t" where
  "raise_count n c = c\<lparr>instance_count := max (instance_count c) n\<rparr>"

lemma instance_id_text:
  assumes "instance_wf i inst" "i < MAX_INSTANCES"
  shows "show_int (instance_id inst) = show_nat (Suc i)" "atoi (show_nat (Suc i)) = int i + 1"
    "valid_id (int i + 1)" "length (show_nat (Suc i)) \<le> 2"
  using assms atoi_show_nat[of "Suc i"] length_show_nat[of "Suc i" 2]
  by (simp_all add: instance_wf_def valid_id_def MAX_INSTANCES_def nat_add_distrib)

lemma plain_id: "plain (show_nat n)" "CHR ''='' \<notin> set (show_nat n)" "CHR '':'' \<notin> set (show_nat n)" "hd (show_nat n) \<noteq> CHR ''[''"
  using plain_show_nat[of n] show_nat_hd[of n] not_isdigit(9) by (auto simp: show_nat_set)

lemma on_instance_nested: "valid_id j \<Longrightarrow> length (instances c) = MAX_INSTANCES \<Longrightarrow> on_instance j f (on_instance j g c) = on_instance j (\<lambda>x. f (g x)) c"
  by (simp add: on_instance_def valid_id_def nat_less_iff)

lemma length_on_instance [simp]: "length (instances (on_instance j f c)) = length (instances c)"
  by (simp add: on_instance_def)

lemma mapping_line:
  assumes "instance_wf i src" "i < MAX_INSTANCES" "savable_instance src" "base_port c = bp" "bp \<le> 2147483615"
  shows "config_lines (mapping_text src @ rest) (SECTION_INSTANCE_MAPPINGS, c) =
    config_lines rest (SECTION_INSTANCE_MAPPINGS, raise_count (int i + 1) (on_instance (int i + 1) (mapped bp src) c))"
proof -
  note id = instance_id_text[OF assms(1,2)]
  have d: "device_id_wf (device_id src)" using assms(1) by (simp add: instance_wf_def)
  have "length (device_id_text (device_id src)) \<le> 200"
    using d by (cases "id_type (device_id src)") (auto simp: device_id_text_def device_id_wf_def)
  moreover have "plain (device_id_text (device_id src))" using assms(3) by (simp add: savable_instance_def)
  ultimately have "config_lines (mapping_text src @ rest) (SECTION_INSTANCE_MAPPINGS, c) =
      bind_out (config_apply (Entry (show_nat (Suc i)) (device_id_text (device_id src))) (SECTION_INSTANCE_MAPPINGS, c)) (config_lines rest)"
    unfolding mapping_text_def id(1) using lines_entry[OF plain_id(1,2,4)] id(4) d by (simp add: format_full)
  moreover have "bp + (int i + 1) \<le> 2147483647" using assms by (simp add: MAX_INSTANCES_def)
  moreover have "mapped bp src = (\<lambda>inst. inst\<lparr>enabled := True, port := bp + (int i + 1) - 1, device_id := device_id src\<rparr>)"
    using assms(1) by (auto simp: mapped_def instance_wf_def)
  ultimately show ?thesis
    using id assms(4) parse_format[OF d] by (simp add: mapping_entry_def Let_def raise_count_def on_instance_def)
qed

lemma setting_line:
  assumes "instance_wf i src" "i < MAX_INSTANCES" "plain s" "CHR ''='' \<notin> set s" "length s \<le> 100" "plain v" "length v \<le> 200"
  shows "config_lines (nl (show_int (instance_id src) @ '':'' @ s @ '' = '' @ v) @ rest) (SECTION_INSTANCE_SETTINGS, c) =
    config_lines rest (SECTION_INSTANCE_SETTINGS, on_instance (int i + 1) (apply_setting s v) c)"
proof -
  note id = instance_id_text[OF assms(1,2)]
  let ?k = "show_nat (Suc i) @ '':'' @ s"
  have "plain ?k" "CHR ''='' \<notin> set ?k" "hd ?k \<noteq> CHR ''[''"
    using plain_id[of "Suc i"] assms(3,4) by (auto simp: plain_def)
  from lines_entry[OF this assms(6)] id(4) assms have "config_lines (nl (?k @ '' = '' @ v) @ rest) (SECTION_INSTANCE_SETTINGS, c) =
     bind_out (config_apply (Entry ?k v) (SECTION_INSTANCE_SETTINGS, c)) (config_lines rest)" by simp
  moreover have "strchr_split CHR '':'' ?k = Some (show_nat (Suc i), s)"
    using strchr_split_Some[OF plain_id(3)] by simp
  ultimately show ?thesis using id by (simp add: settings_entry_def keyed_entry_def)
qed

lemma settings_lines:
  assumes "instance_wf i src" "i < MAX_INSTANCES" "savable_instance src" "length (instances c) = MAX_INSTANCES"
  shows "config_lines (settings_text src @ rest) (SECTION_INSTANCE_SETTINGS, c) =
    config_lines rest (SECTION_INSTANCE_SETTINGS, on_instance (int i + 1) (with_settings src) c)"
proof -
  have p: "plain ''frequency''" "plain ''latency_timer''" "plain ''xvc_buffer_size''" by (simp_all add: plain_def isspace_def)
  have lat: "int32 (latency_timer src)" using assms by (simp add: savable_instance_def)
  have size: "64 \<le> xvc_buffer_size src" "xvc_buffer_size src \<le> 536870912"
    using assms by (simp_all add: instance_wf_def MIN_XVC_BUFFER_SIZE_def MAX_XVC_BUFFER_SIZE_def)
  have "unat (frequency src) < 2 ^ LENGTH(32)" by (rule unsigned_less)
  then have f: "length (show_nat (unat (frequency src))) \<le> 200" using length_show_nat[of "unat (frequency src)" 10] by simp
  have a: "apply_setting ''frequency'' (show_nat (unat (frequency src))) = (\<lambda>inst. inst\<lparr>frequency := frequency src\<rparr>)"
    "apply_setting ''latency_timer'' (show_int (latency_timer src)) = (\<lambda>inst. inst\<lparr>latency_timer := latency_timer src\<rparr>)"
    "apply_setting ''xvc_buffer_size'' (show_int (xvc_buffer_size src)) = (\<lambda>inst. inst\<lparr>xvc_buffer_size := xvc_buffer_size src\<rparr>)"
    using lat size strtol_show[of "xvc_buffer_size src"]
    by (simp_all add: apply_setting_def strtoul_show atoi_show_int int32_def clamp_buffer_size_def MIN_XVC_BUFFER_SIZE_def MAX_XVC_BUFFER_SIZE_def fun_eq_iff)
  have l1: "config_lines (nl (show_int (instance_id src) @ '':frequency = '' @ show_nat (unat (frequency src))) @ r) (SECTION_INSTANCE_SETTINGS, c) =
      config_lines r (SECTION_INSTANCE_SETTINGS, on_instance (int i + 1) (\<lambda>inst. inst\<lparr>frequency := frequency src\<rparr>) c)" for r c
    using setting_line[OF assms(1,2) p(1) _ _ plain_show_nat f] by (simp add: a)
  have l2: "config_lines (nl (show_int (instance_id src) @ '':latency_timer = '' @ show_int (latency_timer src)) @ r) (SECTION_INSTANCE_SETTINGS, c) =
      config_lines r (SECTION_INSTANCE_SETTINGS, on_instance (int i + 1) (\<lambda>inst. inst\<lparr>latency_timer := latency_timer src\<rparr>) c)" for r c
    using setting_line[OF assms(1,2) p(2) _ _ plain_show_int length_show_int32[of "latency_timer src"]] lat by (simp add: a int32_def del: show_int_pos)
  have l3: "config_lines (nl (show_int (instance_id src) @ '':xvc_buffer_size = '' @ show_int (xvc_buffer_size src)) @ r) (SECTION_INSTANCE_SETTINGS, c) =
      config_lines r (SECTION_INSTANCE_SETTINGS, on_instance (int i + 1) (\<lambda>inst. inst\<lparr>xvc_buffer_size := xvc_buffer_size src\<rparr>) c)" for r c
    using setting_line[OF assms(1,2) p(3) _ _ plain_show_int length_show_int32[of "xvc_buffer_size src"]] size by (simp add: a del: show_int_pos)
  let ?on = "on_instance (int i + 1)"
  have w: "?on (with_settings src) c =
      (if xvc_buffer_size src \<noteq> DEFAULT_XVC_BUFFER_SIZE then ?on (\<lambda>inst. inst\<lparr>xvc_buffer_size := xvc_buffer_size src\<rparr>) else (\<lambda>c. c))
        ((if latency_timer src \<noteq> DEFAULT_LATENCY then ?on (\<lambda>inst. inst\<lparr>latency_timer := latency_timer src\<rparr>) else (\<lambda>c. c))
          (?on (\<lambda>inst. inst\<lparr>frequency := frequency src\<rparr>) c))"
    using assms(2,4) by (simp add: on_instance_def with_settings_def Let_def)
  show ?thesis unfolding w settings_text_def append_assoc l1
    by (cases "latency_timer src = DEFAULT_LATENCY"; cases "xvc_buffer_size src = DEFAULT_XVC_BUFFER_SIZE")
      (simp_all only: simp_thms if_True if_False append_Nil append_assoc l2 l3)
qed

lemma alias_line:
  assumes "instance_wf i src" "i < MAX_INSTANCES" "savable_instance src" "length (instances c) = MAX_INSTANCES"
  shows "config_lines (alias_text src @ rest) (SECTION_INSTANCE_ALIASES, c) =
    config_lines rest (SECTION_INSTANCE_ALIASES, on_instance (int i + 1) (with_alias src) c)"
proof (cases "inst_alias src = []")
  case True
  then show ?thesis by (simp add: alias_text_def with_alias_def on_instance_def)
next
  case False
  note id = instance_id_text[OF assms(1,2)]
  have l: "length (inst_alias src) \<le> 63" using assms(1) by (simp add: instance_wf_def)
  have "plain (inst_alias src)" using False assms(3) by (simp add: savable_instance_def)
  from lines_entry[OF plain_id(1,2,4) this] id(4) l False have "config_lines (alias_text src @ rest) (SECTION_INSTANCE_ALIASES, c) =
     bind_out (config_apply (Entry (show_nat (Suc i)) (inst_alias src)) (SECTION_INSTANCE_ALIASES, c)) (config_lines rest)"
    by (simp add: alias_text_def id(1))
  moreover have "with_alias src = (\<lambda>inst. inst\<lparr>inst_alias := inst_alias src\<rparr>)" using False by (simp add: with_alias_def fun_eq_iff)
  ultimately show ?thesis using id l by (simp add: alias_entry_def strncpy_id)
qed


section \<open>The loops over the instances\<close>

lemma index_lines:
  assumes "\<And>i rest c. i < n \<Longrightarrow> P i \<Longrightarrow> Q c \<Longrightarrow>
      config_lines (f i @ rest) (sec, c) = config_lines rest (sec, g i c) \<and> Q (g i c)"
    and "Q c"
  shows "config_lines (concat (map (\<lambda>i. if P i then f i else []) [0..<n]) @ rest) (sec, c) =
      config_lines rest (sec, fold (\<lambda>i c. if P i then g i c else c) [0..<n] c)
    \<and> Q (fold (\<lambda>i c. if P i then g i c else c) [0..<n] c)"
  using assms(1)
proof (induction n arbitrary: rest)
  case 0
  then show ?case using assms(2) by simp
next
  case (Suc n)
  let ?c = "fold (\<lambda>i c. if P i then g i c else c) [0..<n] c"
  have IH: "config_lines (concat (map (\<lambda>i. if P i then f i else []) [0..<n]) @ r) (sec, c) = config_lines r (sec, ?c) \<and> Q ?c" for r
    by (rule Suc.IH) (use Suc.prems in simp)
  show ?case using IH[of "(if P n then f n else []) @ rest"] Suc.prems[of n ?c rest] by auto
qed

lemma fold_on_instances:
  assumes "n \<le> length (instances c)" "\<And>i d. i < n \<Longrightarrow> instances (g i d) = (instances d)[i := h i (instances d ! i)]"
  shows "instances (fold (\<lambda>i c. if P i then g i c else c) [0..<n] c) =
    map (\<lambda>i. if i < n \<and> P i then h i (instances c ! i) else instances c ! i) [0..<length (instances c)]"
  using assms
proof (induction n)
  case 0
  then show ?case by (simp add: map_nth)
next
  case (Suc n)
  then have "instances (fold (\<lambda>i c. if P i then g i c else c) [0..<n] c) =
    map (\<lambda>i. if i < n \<and> P i then h i (instances c ! i) else instances c ! i) [0..<length (instances c)]" by simp
  with Suc.prems show ?case by (auto intro!: nth_equalityI simp: nth_list_update less_Suc_eq)
qed

lemma fold_same:
  "(\<And>i d. i < n \<Longrightarrow> F (g i d) = F d) \<Longrightarrow> F (fold (\<lambda>i c. if P i then g i c else c) [0..<n] c) = F c"
  by (induction n) auto

lemma fold_count:
  assumes "\<And>i d. i < n \<Longrightarrow> instance_count (g i d) = max (instance_count d) (int i + 1)" "instance_count c = 0" "n = 0 \<or> P (n - 1)"
  shows "instance_count (fold (\<lambda>i c. if P i then g i c else c) [0..<n] c) = int n"
proof -
  have le: "m \<le> n \<Longrightarrow> instance_count (fold (\<lambda>i c. if P i then g i c else c) [0..<m] c) \<le> int m" for m
    using assms(1,2) by (induction m) fastforce+
  show ?thesis
  proof (cases n)
    case (Suc m)
    with le[of m] assms(1)[of m] assms(3) show ?thesis by simp
  qed (simp add: assms(2))
qed

section \<open>The whole file\<close>

text \<open>What loading makes of the defaults, section by section.\<close>

definition after_management :: "xvc_global_config_t \<Rightarrow> xvc_global_config_t" where
  "after_management c = config_init\<lparr>instance_mgmt_enabled := instance_mgmt_enabled c, base_port := base_port c, max_instances := max_instances c\<rparr>"

lemma management_lines:
  assumes "int32 (base_port c)" "int32 (max_instances c)"
  shows "config_lines (management_text c @ rest) (sec, config_init) = config_lines rest (SECTION_INSTANCE_MANAGEMENT, after_management c)"
proof -
  have h: "config_lines (nl ''[instance_management]'' @ r) (sec, d) = config_lines r (SECTION_INSTANCE_MANAGEMENT, d)" for r d
    using lines_header[of "''instance_management''"] by (simp add: parse_section_def)
  have p: "plain ''enabled''" "plain ''base_port''" "plain ''max_instances''" "plain (if b then ''true'' else ''false'')" for b
    by (simp_all add: plain_def isspace_def)
  have e: "config_lines (nl (''enabled = '' @ (if b then ''true'' else ''false'')) @ r) (SECTION_INSTANCE_MANAGEMENT, d) =
      config_lines r (SECTION_INSTANCE_MANAGEMENT, d\<lparr>instance_mgmt_enabled := b\<rparr>)" for b r d
    using lines_entry[OF p(1) _ _ p(4)[of b]] by (simp add: management_entry_def is_true_def)
  have b: "config_lines (nl (''base_port = '' @ show_int i) @ r) (SECTION_INSTANCE_MANAGEMENT, d) =
      config_lines r (SECTION_INSTANCE_MANAGEMENT, d\<lparr>base_port := i\<rparr>)" if "int32 i" for i r d
    using lines_entry[OF p(2) _ _ plain_show_int[of i]] that length_show_int32[of i]
    by (simp add: management_entry_def int32_def atoi_show_int del: show_int_pos)
  have m: "config_lines (nl (''max_instances = '' @ show_int i) @ r) (SECTION_INSTANCE_MANAGEMENT, d) =
      config_lines r (SECTION_INSTANCE_MANAGEMENT, d\<lparr>max_instances := i\<rparr>)" if "int32 i" for i r d
    using lines_entry[OF p(3) _ _ plain_show_int[of i]] that length_show_int32[of i]
    by (simp add: management_entry_def int32_def atoi_show_int del: show_int_pos)
  show ?thesis
    unfolding management_text_def append_assoc h e b[OF assms(1)] m[OF assms(2)]
    by (simp add: lines_blank after_management_def)
qed


definition over_instances :: "xvc_global_config_t \<Rightarrow> (nat \<Rightarrow> xvc_global_config_t \<Rightarrow> xvc_global_config_t) \<Rightarrow> xvc_global_config_t \<Rightarrow> xvc_global_config_t" where
  "over_instances c g d = fold (\<lambda>i d. if enabled (instances c ! i) then g i d else d) [0..<nat (instance_count c)] d"

definition mapped_all :: "xvc_global_config_t \<Rightarrow> xvc_global_config_t \<Rightarrow> xvc_global_config_t" where
  "mapped_all c = over_instances c (\<lambda>i d. raise_count (int i + 1) (on_instance (int i + 1) (mapped (base_port c) (instances c ! i)) d))"

definition settings_all :: "xvc_global_config_t \<Rightarrow> xvc_global_config_t \<Rightarrow> xvc_global_config_t" where
  "settings_all c = over_instances c (\<lambda>i. on_instance (int i + 1) (with_settings (instances c ! i)))"

definition alias_all :: "xvc_global_config_t \<Rightarrow> xvc_global_config_t \<Rightarrow> xvc_global_config_t" where
  "alias_all c = over_instances c (\<lambda>i. on_instance (int i + 1) (with_alias (instances c ! i)))"

definition reloaded :: "xvc_global_config_t \<Rightarrow> xvc_global_config_t" where
  "reloaded c = alias_all c (settings_all c (mapped_all c (after_management c)))"

lemmas all_defs = mapped_all_def settings_all_def alias_all_def

lemma over_lines:
  assumes "savable c" "Q d"
    "\<And>i rest d. instance_wf i (instances c ! i) \<Longrightarrow> i < MAX_INSTANCES \<Longrightarrow> savable_instance (instances c ! i) \<Longrightarrow> Q d \<Longrightarrow>
      config_lines (f i @ rest) (sec, d) = config_lines rest (sec, g i d) \<and> Q (g i d)"
  shows "config_lines (concat (map (\<lambda>i. if enabled (instances c ! i) then f i else []) [0..<nat (instance_count c)]) @ rest) (sec, d) =
      config_lines rest (sec, over_instances c g d)" "Q (over_instances c g d)"
proof -
  have "config_lines (f i @ r) (sec, e) = config_lines r (sec, g i e) \<and> Q (g i e)"
    if "i < nat (instance_count c)" "enabled (instances c ! i)" "Q e" for i r e
    using assms(1) assms(3)[of i e r] that by (auto simp: savable_def config_wf_def)
  from index_lines[where n = "nat (instance_count c)" and f = f and g = g and P = "\<lambda>i. enabled (instances c ! i)" and Q = Q, OF this assms(2)]
  show "config_lines (concat (map (\<lambda>i. if enabled (instances c ! i) then f i else []) [0..<nat (instance_count c)]) @ rest) (sec, d) =
      config_lines rest (sec, over_instances c g d)" "Q (over_instances c g d)"
    unfolding over_instances_def by blast+
qed

lemma each_enabled_index:
  assumes "config_wf c"
  shows "each_enabled f c = concat (map (\<lambda>i. if enabled (instances c ! i) then f (instances c ! i) else []) [0..<nat (instance_count c)])"
proof -
  have "take (nat (instance_count c)) (instances c) = map (\<lambda>i. instances c ! i) [0..<nat (instance_count c)]"
    using assms by (intro nth_equalityI) (auto simp: config_wf_def)
  then show ?thesis by (simp add: each_enabled_def comp_def)
qed

lemma each_enabled_over:
  assumes "savable c" "Q d"
    "\<And>i rest d. instance_wf i (instances c ! i) \<Longrightarrow> i < MAX_INSTANCES \<Longrightarrow> savable_instance (instances c ! i) \<Longrightarrow> Q d \<Longrightarrow>
      config_lines (f (instances c ! i) @ rest) (sec, d) = config_lines rest (sec, g i d) \<and> Q (g i d)"
  shows "config_lines (each_enabled f c @ rest) (sec, d) = config_lines rest (sec, over_instances c g d)" "Q (over_instances c g d)"
  using over_lines[where Q = Q and f = "\<lambda>i. f (instances c ! i)", OF assms] each_enabled_index[of c f] assms(1) by (auto simp: savable_def)

text \<open>Each section, on a configuration under construction.\<close>

definition building :: "xvc_global_config_t \<Rightarrow> xvc_global_config_t \<Rightarrow> bool" where
  "building c d \<longleftrightarrow> base_port d = base_port c \<and> length (instances d) = MAX_INSTANCES"

lemma building_start: "building c (after_management c)"
  by (simp add: building_def after_management_def config_init_def)

lemma mapping_section:
  assumes "savable c" "building c d"
    "\<And>i rest d. i < nat (instance_count c) \<Longrightarrow> base_port d = base_port c \<Longrightarrow>
      config_lines (f i @ rest) (SECTION_INSTANCE_MAPPINGS, d) = config_lines (mapping_text (instances c ! i) @ rest) (SECTION_INSTANCE_MAPPINGS, d)"
  shows "config_lines (concat (map (\<lambda>i. if enabled (instances c ! i) then f i else []) [0..<nat (instance_count c)]) @ rest) (SECTION_INSTANCE_MAPPINGS, d) =
      config_lines rest (SECTION_INSTANCE_MAPPINGS, mapped_all c d)" "building c (mapped_all c d)"
proof -
  have bp: "base_port c \<le> 2147483615" using assms(1) by (simp add: savable_def)
  have step: "config_lines (f i @ r) (SECTION_INSTANCE_MAPPINGS, e) =
      config_lines r (SECTION_INSTANCE_MAPPINGS, raise_count (int i + 1) (on_instance (int i + 1) (mapped (base_port c) (instances c ! i)) e)) \<and>
      building c (raise_count (int i + 1) (on_instance (int i + 1) (mapped (base_port c) (instances c ! i)) e))"
    if "i < nat (instance_count c)" "enabled (instances c ! i)" "building c e" for i r e
  proof -
    have "i < MAX_INSTANCES" using assms(1) that(1) by (auto simp: savable_def config_wf_def)
    then have "instance_wf i (instances c ! i)" "savable_instance (instances c ! i)"
      using assms(1) that by (simp_all add: savable_def config_wf_def)
    with mapping_line[of i "instances c ! i" e "base_port c" r] assms(3)[OF that(1), of e r] that(3) bp \<open>i < MAX_INSTANCES\<close>
    show ?thesis by (simp add: building_def raise_count_def)
  qed
  from index_lines[where P = "\<lambda>i. enabled (instances c ! i)" and f = f and Q = "building c" and n = "nat (instance_count c)", OF step assms(2)]
  show "config_lines (concat (map (\<lambda>i. if enabled (instances c ! i) then f i else []) [0..<nat (instance_count c)]) @ rest) (SECTION_INSTANCE_MAPPINGS, d) =
      config_lines rest (SECTION_INSTANCE_MAPPINGS, mapped_all c d)" "building c (mapped_all c d)"
    unfolding mapped_all_def over_instances_def by blast+
qed

lemma mapping_section_saved:
  assumes "savable c" "building c d"
  shows "config_lines (each_enabled mapping_text c @ rest) (SECTION_INSTANCE_MAPPINGS, d) = config_lines rest (SECTION_INSTANCE_MAPPINGS, mapped_all c d)"
  using mapping_section(1)[OF assms, where f = "\<lambda>i. mapping_text (instances c ! i)" and rest = rest] each_enabled_index[of c mapping_text] assms(1) by (simp add: savable_def)

lemma settings_section:
  assumes "savable c" "building c d"
  shows "config_lines (each_enabled settings_text c @ rest) (SECTION_INSTANCE_SETTINGS, d) = config_lines rest (SECTION_INSTANCE_SETTINGS, settings_all c d)"
    "building c (settings_all c d)"
  using each_enabled_over[where Q = "building c" and f = settings_text and sec = SECTION_INSTANCE_SETTINGS and
      g = "\<lambda>i. on_instance (int i + 1) (with_settings (instances c ! i))", OF assms]
  by (simp_all add: settings_lines building_def settings_all_def)

lemma alias_section:
  assumes "savable c" "building c d"
  shows "config_lines (each_enabled alias_text c @ rest) (SECTION_INSTANCE_ALIASES, d) = config_lines rest (SECTION_INSTANCE_ALIASES, alias_all c d)"
  unfolding alias_all_def
  by (rule each_enabled_over[where Q = "building c", OF assms]; simp add: alias_line building_def)

lemma section_headers:
  "config_lines (nl ''[instance_mappings]'' @ r) (sec, d) = config_lines r (SECTION_INSTANCE_MAPPINGS, d)"
  "config_lines (nl ''[instance_settings]'' @ r) (sec, d) = config_lines r (SECTION_INSTANCE_SETTINGS, d)"
  "config_lines (nl ''[instance_aliases]'' @ r) (sec, d) = config_lines r (SECTION_INSTANCE_ALIASES, d)"
  using lines_header[of "''instance_mappings''"] lines_header[of "''instance_settings''"] lines_header[of "''instance_aliases''"]
  by (simp_all add: parse_section_def)

lemma blank_line: "config_lines ([NL] @ r) st = config_lines r st"
  by (simp add: lines_blank)

lemma load_text:
  assumes "savable c"
  shows "\<exists>sec. config_lines (config_text c) (SECTION_NONE, config_init) = Ret (sec, reloaded c)"
proof -
  have i32: "int32 (base_port c)" "int32 (max_instances c)" using assms by (simp_all add: savable_def)
  have k: "config_lines (nl ''# XVC Server Configuration'' @ r) st = config_lines r st"
    "config_lines (nl ''# Generated automatically'' @ r) st = config_lines r st"
    "config_lines (nl ''# Format: instance_id = device_id'' @ r) st = config_lines r st"
    "config_lines (nl ''# device_id: SN:serial, BUS:bus-dev, CUSTOM:name, or auto'' @ r) st = config_lines r st"
    "config_lines (nl ''# Format: instance_id:setting = value'' @ r) st = config_lines r st" for r st
    by (rule lines_comment; simp add: isspace_def)+
  note b = building_start[of c]
  note m = mapping_section(2)[OF assms b, OF refl]
  note s = settings_section(2)[OF assms m]
  show ?thesis
    unfolding config_text_def k blank_line management_lines[OF i32] section_headers
      mapping_section_saved[OF assms b] settings_section(1)[OF assms m] alias_section[OF assms s] reloaded_def
    using lines_blank[of "[]"] by (simp add: lines_end)
qed

lemma over_same: "(\<And>i d. F (g i d) = F d) \<Longrightarrow> F (over_instances c g d) = F d"
  unfolding over_instances_def by (rule fold_same)

lemma instances_over:
  assumes "config_wf c" "length (instances d) = MAX_INSTANCES"
    "\<And>i d. instances (g i d) = instances (on_instance (int i + 1) (h i) d)"
  shows "instances (over_instances c g d) =
    map (\<lambda>i. if enabled (instances c ! i) then h i (instances d ! i) else instances d ! i) [0..<MAX_INSTANCES]"
proof -
  have "nat (instance_count c) \<le> length (instances d)" using assms(1,2) by (auto simp: config_wf_def)
  then have "instances (over_instances c g d) =
    map (\<lambda>i. if i < nat (instance_count c) \<and> enabled (instances c ! i) then h i (instances d ! i) else instances d ! i) [0..<length (instances d)]"
    unfolding over_instances_def by (rule fold_on_instances) (simp add: assms(3) on_instance_def)
  also have "\<dots> = map (\<lambda>i. if enabled (instances c ! i) then h i (instances d ! i) else instances d ! i) [0..<MAX_INSTANCES]"
    using assms(1,2) by (auto simp: config_wf_def)
  finally show ?thesis .
qed

lemma instances_reloaded:
  assumes "config_wf c"
  shows "instances (reloaded c) = map (\<lambda>i. if enabled (instances c ! i)
      then with_alias (instances c ! i) (with_settings (instances c ! i) (mapped (base_port c) (instances c ! i) (default_instance i)))
      else default_instance i) [0..<MAX_INSTANCES]"
  unfolding reloaded_def all_defs
  by (simp add: instances_over[OF assms, where h = "\<lambda>i. with_alias (instances c ! i)"]
      instances_over[OF assms, where h = "\<lambda>i. with_settings (instances c ! i)"]
      instances_over[OF assms, where h = "\<lambda>i. mapped (base_port c) (instances c ! i)"]
      raise_count_def after_management_def config_init_def cong: if_cong)

lemma others_reloaded:
  assumes "savable c"
  shows "instance_mgmt_enabled (reloaded c) = instance_mgmt_enabled c" "base_port (reloaded c) = base_port c"
    "max_instances (reloaded c) = max_instances c" "instance_count (reloaded c) = instance_count c"
proof -
  have keep: "F (reloaded c) = F (after_management c)" if "\<And>j f d. F (on_instance j f d) = F d" "\<And>j d. F (raise_count j d) = F d" for F :: "xvc_global_config_t \<Rightarrow> 'a"
    unfolding reloaded_def all_defs by (simp add: over_same[where F = F] that)
  show "instance_mgmt_enabled (reloaded c) = instance_mgmt_enabled c" "base_port (reloaded c) = base_port c"
    "max_instances (reloaded c) = max_instances c"
    by (simp_all add: keep[of instance_mgmt_enabled] keep[of base_port] keep[of max_instances] on_instance_def raise_count_def after_management_def)
  have "nat (instance_count c - 1) = nat (instance_count c) - 1" by linarith
  then have "nat (instance_count c) = 0 \<or> enabled (instances c ! (nat (instance_count c) - 1))"
    using assms by (auto simp: savable_def)
  then have "instance_count (over_instances c (\<lambda>i d. raise_count (int i + 1) (on_instance (int i + 1) (mapped (base_port c) (instances c ! i)) d)) (after_management c)) = int (nat (instance_count c))"
    unfolding over_instances_def
    by (intro fold_count) (auto simp: raise_count_def on_instance_def after_management_def config_init_def)
  then show "instance_count (reloaded c) = instance_count c"
    using assms unfolding reloaded_def all_defs by (simp add: over_same[where F = instance_count] on_instance_def savable_def config_wf_def)
qed

lemma reloaded_instance:
  assumes "instance_wf i src" "i < MAX_INSTANCES"
    and "new = with_alias src (with_settings src (mapped bp src (default_instance i)))"
  shows "instance_wf i new" "enabled new" "port new = bp + int i" "device_id new = device_id src" "inst_alias new = inst_alias src"
    "frequency new = frequency src" "latency_timer new = latency_timer src" "xvc_buffer_size new = xvc_buffer_size src"
  using assms
  by (auto simp: with_alias_def with_settings_def mapped_def default_instance_def Let_def instance_wf_def
      DEFAULT_CLIENT_LOCK_TIMEOUT_def)

lemma default_instance_wf: "instance_wf i (default_instance i)" "\<not> enabled (default_instance i)"
  by (simp_all add: instance_wf_def default_instance_def device_id_wf_def no_device_id_def
      MIN_XVC_BUFFER_SIZE_def MAX_XVC_BUFFER_SIZE_def DEFAULT_XVC_BUFFER_SIZE_def DEFAULT_CLIENT_LOCK_TIMEOUT_def)

lemma same_reloaded:
  assumes "savable c"
  shows "same_saved c (reloaded c)"
proof -
  have wf: "config_wf c" using assms by (simp add: savable_def)
  then have i: "instance_wf i (instances c ! i)" "enabled (instances c ! i) \<Longrightarrow> int i < instance_count c" if "i < MAX_INSTANCES" for i
    using that by (simp_all add: config_wf_def)
  show ?thesis
    using wf by (simp add: same_saved_def same_instance_def others_reloaded[OF assms] config_wf_def instances_reloaded[OF wf]
        reloaded_instance[OF i(1) _ refl] default_instance_wf i(2))
qed

text \<open>
  C4. Saving a configuration and loading the file succeeds and gives the same configuration
  back, in all the file keeps: the management settings, the number of instances, which of them
  are enabled, and each enabled instance's device, alias, frequency, latency timer and buffer
  size. Ports are not written to the file: after loading, an enabled instance listens on the
  base port plus its index, so that its port is the saved one exactly if that was the base port
  plus its index. The saved configuration is within the bounds of its arrays, with its last
  instance enabled and a base port that leaves room for 32 instances; the aliases and device
  identifiers of the enabled instances are text that can stand in the file: without comment
  characters or line ends and without space around them.
\<close>

theorem config_round_trip:
  assumes "savable c" "snd (config_save True c) = Some content" "fopen path = Some content"
  shows "\<exists>c'. config_load fopen path c0 = Ret (0, c') \<and> same_saved c c' \<and>
    (\<forall>i < MAX_INSTANCES. enabled (instances c ! i) \<longrightarrow>
       (port (instances c' ! i) = port (instances c ! i) \<longleftrightarrow> port (instances c ! i) = base_port c + int i))"
proof -
  obtain sec where "config_lines (config_text c) (SECTION_NONE, config_init) = Ret (sec, reloaded c)"
    using load_text[OF assms(1)] by blast
  then have "config_load fopen path c0 = Ret (0, reloaded c)"
    using assms(2,3) by (auto simp: config_load_def config_save_def)
  moreover have "same_saved c (reloaded c)" by (rule same_reloaded[OF assms(1)])
  ultimately show ?thesis by (auto simp: same_saved_def same_instance_def)
qed

text \<open>A configuration with two instances, one of them enabled.\<close>

definition ex_config :: xvc_global_config_t where
  "ex_config = config_init\<lparr>base_port := 3000, instances := (instances config_init)
     [1 := (default_instance 1)\<lparr>enabled := True, port := 3001, device_id := \<lparr>id_type = DEVICE_ID_SERIAL, id_value = ''210249''\<rparr>,
        inst_alias := ''bench'', xvc_buffer_size := 4096\<rparr>], instance_count := 2\<rparr>"

lemma ex_config_savable: "savable ex_config"
proof -
  have nth: "instances ex_config ! i = (if i = 1 then (default_instance 1)\<lparr>enabled := True, port := 3001, device_id := \<lparr>id_type = DEVICE_ID_SERIAL, id_value = ''210249''\<rparr>,
        inst_alias := ''bench'', xvc_buffer_size := 4096\<rparr> else default_instance i)" if "i < MAX_INSTANCES" for i
    using that by (simp add: ex_config_def config_init_def nth_list_update)
  have "instance_wf i (instances ex_config ! i)" if "i < MAX_INSTANCES" for i
    using default_instance_wf(1)[of i] by (auto simp: nth[OF that] instance_wf_def device_id_wf_def MIN_XVC_BUFFER_SIZE_def MAX_XVC_BUFFER_SIZE_def)
  moreover have "plain ''SN:210249''" "plain ''bench''" by (simp_all add: plain_def isspace_def)
  ultimately show ?thesis
    using nth by (auto simp: savable_def savable_instance_def config_wf_def int32_def default_instance_wf(2) device_id_text_def)
      (simp_all add: ex_config_def config_init_def MAX_INSTANCES_def DEFAULT_LATENCY_def default_instance_def)
qed

theorem config_round_trip_witness:
  "\<exists>c'. config_load (\<lambda>_. Some (config_text ex_config)) ''xvc.conf'' config_init = Ret (0, c') \<and> same_saved ex_config c' \<and>
     port (instances c' ! 1) = 3001 \<and> device_id (instances c' ! 1) = \<lparr>id_type = DEVICE_ID_SERIAL, id_value = ''210249''\<rparr>"
proof -
  have at: "instances ex_config ! 1 = (default_instance 1)\<lparr>enabled := True, port := 3001, device_id := \<lparr>id_type = DEVICE_ID_SERIAL, id_value = ''210249''\<rparr>,
        inst_alias := ''bench'', xvc_buffer_size := 4096\<rparr>" "base_port ex_config = 3000"
    by (simp_all add: ex_config_def config_init_def MAX_INSTANCES_def)
  obtain c' where "config_load (\<lambda>_. Some (config_text ex_config)) ''xvc.conf'' config_init = Ret (0, c')" "same_saved ex_config c'"
    "\<forall>i < MAX_INSTANCES. enabled (instances ex_config ! i) \<longrightarrow>
       (port (instances c' ! i) = port (instances ex_config ! i) \<longleftrightarrow> port (instances ex_config ! i) = base_port ex_config + int i)"
    using config_round_trip[OF ex_config_savable, of "config_text ex_config" "\<lambda>_. Some (config_text ex_config)" "''xvc.conf''" config_init]
    by (auto simp: config_save_def)
  moreover from this(3)[rule_format, of 1] have "port (instances c' ! 1) = 3001" by (simp add: at [simplified] MAX_INSTANCES_def)
  moreover from calculation(2) have "same_instance 3000 1 (instances ex_config ! 1) (instances c' ! 1)"
    by (auto simp: same_saved_def at(2) MAX_INSTANCES_def)
  ultimately show ?thesis by (simp add: same_instance_def at [simplified])
qed

theorem config_load_wf_witness:
  "\<exists>c. config_load (\<lambda>_. Some (nl ''[instance_mappings]'' @ nl ''3 = auto'')) ''xvc.conf'' config_init = Ret (0, c) \<and> config_wf c"
proof -
  define t where "t = nl ''[instance_mappings]'' @ nl ''3 = auto''"
  have "file_items t = [Header SECTION_INSTANCE_MAPPINGS, Entry ''3'' ''auto'']" unfolding t_def by code_simp
  then have "atoi v \<le> 2147483615" if "Some t = Some content" "Entry ''base_port'' v \<in> set (file_items content)" for content v
    using that by auto
  from config_load_wf[where fopen = "\<lambda>_. Some t" and path = "''xvc.conf''" and config = config_init, OF this]
  have "\<exists>c. config_load (\<lambda>_. Some t) ''xvc.conf'' config_init = Ret (0, c) \<and> config_wf c" by simp
  then show ?thesis by (simp only: t_def)
qed

end
