(* ===== verification/Device_Manager.thy ===== *)
theory Device_Manager
  imports Config_Round_Trip
begin

text \<open>
  \<^verbatim>\<open>src/device_manager.c\<close>: scanning for devices through the D2XX driver, looking them up,
  assigning them to instances, and generating a configuration. What the driver's discovery
  calls return is an argument. The array of devices is the list of the \<open>device_count\<close> in use; a
  device is referred to by its index.
\<close>

section \<open>The structures\<close>

definition MAX_DEVICES :: nat where "MAX_DEVICES = 32"

datatype device_state_t = DEVICE_STATE_UNKNOWN | DEVICE_STATE_AVAILABLE | DEVICE_STATE_IN_USE | DEVICE_STATE_ERROR

record hs2_device_t =
  vendor_id :: u16
  product_id :: u16
  bus_number :: u8
  device_address :: u8
  serial :: string
  manufacturer :: string
  product :: string
  bus_location :: string
  dev_state :: device_state_t
  assigned_instance :: int

record device_manager_t =
  devices :: "hs2_device_t list"
  mgr_initialized :: bool

text \<open>\<open>FT_DEVICE_LIST_INFO_NODE\<close>, and what the three discovery calls return.\<close>

record ft_node =
  node_id :: u32
  node_serial :: string
  node_description :: string

record ft_discovery =
  set_vid_pid :: nat
  create_list :: "nat \<times> u32"
  get_list :: "nat \<times> ft_node list"

definition device_manager_init :: "ft_discovery \<Rightarrow> int \<times> device_manager_t" where
  "device_manager_init disc =
    (if set_vid_pid disc \<noteq> 0 then (-1, \<lparr>devices = [], mgr_initialized = False\<rparr>)
     else (0, \<lparr>devices = [], mgr_initialized = True\<rparr>))"

definition device_manager_shutdown :: "device_manager_t \<Rightarrow> device_manager_t" where
  "device_manager_shutdown mgr = mgr\<lparr>mgr_initialized := False, devices := []\<rparr>"

section \<open>Scanning\<close>

definition supported :: "ft_node \<Rightarrow> bool" where
  "supported n \<longleftrightarrow> drop_bit 16 (node_id n) AND 0xFFFF = 0x0403 \<and>
     (node_id n AND 0xFFFF = 0x6010 \<or> node_id n AND 0xFFFF = 0x6014)"

definition device_of :: "nat \<Rightarrow> ft_node \<Rightarrow> hs2_device_t" where
  "device_of i n =
    \<lparr>vendor_id = ucast (drop_bit 16 (node_id n) AND 0xFFFF), product_id = ucast (node_id n AND 0xFFFF),
     bus_number = 0, device_address = 0, serial = strncpy (MAX_SERIAL_LEN - 1) (node_serial n),
     manufacturer = strncpy 63 ''FTDI'', product = strncpy 63 (node_description n),
     bus_location = snd (snprintf 16 (''FTDI-'' @ show_nat i)), dev_state = DEVICE_STATE_AVAILABLE, assigned_instance = 0\<rparr>"

text \<open>The loop from index \<open>i\<close> on, with the devices found so far.\<close>

fun scan_nodes :: "nat \<Rightarrow> ft_node list \<Rightarrow> hs2_device_t list \<Rightarrow> hs2_device_t list" where
  "scan_nodes i [] devs = devs"
| "scan_nodes i (n # ns) devs =
    (if length devs < MAX_DEVICES then scan_nodes (Suc i) ns (if supported n then devs @ [device_of i n] else devs)
     else devs)"

text \<open>
  The array is allocated for the number of devices the first call reports; more nodes than
  that would overrun it. With no devices the old list stays.
\<close>

definition device_manager_scan :: "ft_discovery \<Rightarrow> bool \<Rightarrow> device_manager_t \<Rightarrow> (int \<times> device_manager_t) outcome" where
  "device_manager_scan disc calloc_ok mgr =
    (if \<not> mgr_initialized mgr then Ret (-1, mgr)
     else case create_list disc of (status, num_devices) \<Rightarrow>
       if status \<noteq> 0 then Ret (-1, mgr)
       else if num_devices = 0 then Ret (0, mgr)
       else if \<not> calloc_ok then Ret (-1, mgr)
       else case get_list disc of (status, nodes) \<Rightarrow>
         if length nodes > unat num_devices then Undefined
         else if status \<noteq> 0 then Ret (-1, mgr)
         else let devs = scan_nodes 0 nodes [] in Ret (int (length devs), mgr\<lparr>devices := devs\<rparr>))"

section \<open>Lookup\<close>

definition id_matches :: "device_id_t \<Rightarrow> hs2_device_t \<Rightarrow> bool" where
  "id_matches d dev = (case id_type d of
     DEVICE_ID_SERIAL \<Rightarrow> serial dev = id_value d
   | DEVICE_ID_BUS \<Rightarrow> bus_location dev = id_value d
   | DEVICE_ID_AUTO \<Rightarrow> dev_state dev = DEVICE_STATE_AVAILABLE
   | _ \<Rightarrow> False)"

definition device_manager_find :: "device_manager_t \<Rightarrow> device_id_t \<Rightarrow> nat option" where
  "device_manager_find mgr d = first_index (id_matches d) 0 (devices mgr)"

definition device_manager_find_available :: "device_manager_t \<Rightarrow> nat option" where
  "device_manager_find_available mgr = first_index (\<lambda>dev. dev_state dev = DEVICE_STATE_AVAILABLE) 0 (devices mgr)"

definition device_manager_get :: "device_manager_t \<Rightarrow> int \<Rightarrow> nat option" where
  "device_manager_get mgr index = (if index < 0 \<or> index \<ge> int (length (devices mgr)) then None else Some (nat index))"

section \<open>Assignment\<close>

definition on_device :: "nat \<Rightarrow> (hs2_device_t \<Rightarrow> hs2_device_t) \<Rightarrow> device_manager_t \<Rightarrow> device_manager_t" where
  "on_device i f mgr = mgr\<lparr>devices := (devices mgr)[i := f (devices mgr ! i)]\<rparr>"

text \<open>\<open>None\<close> is a NULL device.\<close>

definition device_manager_assign :: "device_manager_t \<Rightarrow> nat option \<Rightarrow> int \<Rightarrow> int \<times> device_manager_t" where
  "device_manager_assign mgr device inst = (case device of None \<Rightarrow> (-1, mgr)
    | Some i \<Rightarrow>
        if dev_state (devices mgr ! i) \<noteq> DEVICE_STATE_AVAILABLE then (-1, mgr)
        else (0, on_device i (\<lambda>dev. dev\<lparr>dev_state := DEVICE_STATE_IN_USE, assigned_instance := inst\<rparr>) mgr))"

definition device_manager_release :: "device_manager_t \<Rightarrow> nat option \<Rightarrow> device_manager_t" where
  "device_manager_release mgr device = (case device of None \<Rightarrow> mgr
    | Some i \<Rightarrow> on_device i (\<lambda>dev. dev\<lparr>dev_state := DEVICE_STATE_AVAILABLE, assigned_instance := 0\<rparr>) mgr)"

section \<open>Printing\<close>

text \<open>\<^verbatim>\<open>%04X\<close> of a 16-bit value.\<close>

definition show_hex4 :: "u16 \<Rightarrow> string" where
  "show_hex4 w = map (\<lambda>k. hex_digit (unat (drop_bit (4 * k) w AND 0xF))) [3, 2, 1, 0]"

definition or_text :: "string \<Rightarrow> string \<Rightarrow> string" where
  "or_text s other = (if s \<noteq> [] then s else other)"

definition device_text :: "bool \<Rightarrow> nat \<Rightarrow> hs2_device_t \<Rightarrow> string" where
  "device_text verbose i dev =
     nl (''Device #'' @ show_nat (i + 1) @ '':'') @
     nl (''  Manufacturer: '' @ or_text (manufacturer dev) ''Unknown'') @
     nl (''  Product: '' @ or_text (product dev) ''Unknown'') @
     nl (''  Serial Number: '' @ or_text (serial dev) ''N/A'') @
     nl (''  Suggested Instance ID: '' @ show_nat (i + 1)) @
     nl (''  Suggested Port: '' @ show_int (DEFAULT_BASE_PORT + int i)) @
     (if verbose then
        nl (''  Vendor ID: 0x'' @ show_hex4 (vendor_id dev)) @
        nl (''  Product ID: 0x'' @ show_hex4 (product_id dev)) @
        nl (''  State: '' @ (if dev_state dev = DEVICE_STATE_AVAILABLE then ''Available''
                            else if dev_state dev = DEVICE_STATE_IN_USE then ''In Use'' else ''Unknown''))
      else []) @ [NL]"

definition device_manager_print :: "device_manager_t \<Rightarrow> bool \<Rightarrow> string" where
  "device_manager_print mgr verbose =
     nl (''Detected '' @ show_nat (length (devices mgr)) @ '' Digilent HS2 device(s):'') @ [NL] @
     concat (map (\<lambda>i. device_text verbose i (devices mgr ! i)) [0..<length (devices mgr)])"

section \<open>Generating a configuration\<close>

definition generated_instance :: "int \<Rightarrow> nat \<Rightarrow> hs2_device_t \<Rightarrow> xvc_instance_config_t \<Rightarrow> xvc_instance_config_t" where
  "generated_instance bp i dev inst =
     inst\<lparr>instance_id := int i + 1, port := bp + int i, enabled := True, frequency := DEFAULT_FREQUENCY,
          latency_timer := DEFAULT_LATENCY,
          device_id := (if serial dev \<noteq> [] then \<lparr>id_type = DEVICE_ID_SERIAL, id_value = strncpy (MAX_SERIAL_LEN - 1) (serial dev)\<rparr>
                        else \<lparr>id_type = DEVICE_ID_BUS, id_value = strncpy (MAX_SERIAL_LEN - 1) (bus_location dev)\<rparr>),
          inst_alias := snd (snprintf MAX_ALIAS_LEN (''HS2-'' @ (if serial dev \<noteq> [] then serial dev else bus_location dev)))\<rparr>"

fun generate_instances :: "int \<Rightarrow> nat \<Rightarrow> hs2_device_t list \<Rightarrow> xvc_global_config_t \<Rightarrow> xvc_global_config_t outcome" where
  "generate_instances bp i [] c = Ret c"
| "generate_instances bp i (dev # devs) c =
    (if i < MAX_INSTANCES then
       if bp + int i > 2147483647 then Undefined
       else generate_instances bp (Suc i) devs
         (c\<lparr>instances := (instances c)[i := generated_instance bp i dev (instances c ! i)], instance_count := instance_count c + 1\<rparr>)
     else Ret c)"

definition device_manager_generate_config :: "device_manager_t \<Rightarrow> int \<Rightarrow> (int \<times> xvc_global_config_t) outcome" where
  "device_manager_generate_config mgr bp =
     bind_out (generate_instances bp 0 (devices mgr) (config_init\<lparr>base_port := bp\<rparr>)) (\<lambda>c. Ret (0, c))"

section \<open>What a scan finds\<close>

lemma scan_nodes_eq:
  "length devs \<le> MAX_DEVICES \<Longrightarrow>
   scan_nodes i ns devs = take MAX_DEVICES (devs @ map (\<lambda>(j, n). device_of j n) (filter (\<lambda>(j, n). supported n) (enumerate i ns)))"
  by (induction i ns devs rule: scan_nodes.induct) (auto simp: take_Cons')

text \<open>The identifiers of the FT2232H and the FT232H, vendor in the upper half.\<close>

lemma halves:
  fixes x :: u32
  shows "unat (drop_bit 16 x AND 0xFFFF) = unat x div 65536" "unat (x AND 0xFFFF) = unat x mod 65536"
proof -
  have m: "(0xFFFF :: u32) = mask 16" by (simp add: mask_eq_exp_minus_1)
  have "unat x < 2 ^ LENGTH(32)" by (rule unsigned_less)
  then have "unat x div 65536 < 65536" by (simp add: div_less_iff_less_mult)
  then show "unat (drop_bit 16 x AND 0xFFFF) = unat x div 65536"
    unfolding m take_bit_eq_mask [symmetric] unsigned_take_bit_eq
    by (simp add: unat_drop_bit_eq drop_bit_eq_div take_bit_eq_mod unat_div_distrib)
  show "unat (x AND 0xFFFF) = unat x mod 65536"
    unfolding m take_bit_eq_mask [symmetric] unsigned_take_bit_eq by (simp add: take_bit_eq_mod)
qed

lemma supported_iff: "supported n \<longleftrightarrow> node_id n \<in> {0x04036010, 0x04036014}"
proof -
  have "x = y \<longleftrightarrow> unat x div 65536 = unat y div 65536 \<and> unat x mod 65536 = unat y mod 65536" for x y :: u32
    by (metis div_mult_mod_eq unsigned_word_eqI)
  note eq = this[of "node_id n"]
  have "drop_bit 16 (node_id n) AND 0xFFFF = 0x0403 \<longleftrightarrow> unat (node_id n) div 65536 = 0x0403"
    unfolding word_unat_eq_iff halves(1) by simp
  moreover have "node_id n AND 0xFFFF = 0x6010 \<longleftrightarrow> unat (node_id n) mod 65536 = 0x6010"
    "node_id n AND 0xFFFF = 0x6014 \<longleftrightarrow> unat (node_id n) mod 65536 = 0x6014"
    unfolding word_unat_eq_iff halves(2) by simp_all
  ultimately show ?thesis by (auto simp: supported_def eq)
qed


definition ex_disc :: ft_discovery where
  "ex_disc = \<lparr>set_vid_pid = 0, create_list = (0, 2),
     get_list = (0, [\<lparr>node_id = 0x04036001, node_serial = ''A1'', node_description = ''UART''\<rparr>,
                    \<lparr>node_id = 0x04036014, node_serial = ''210249'', node_description = ''Digilent USB Device''\<rparr>])\<rparr>"

definition ex_mgr :: device_manager_t where
  "ex_mgr = \<lparr>devices = [], mgr_initialized = True\<rparr>"


section \<open>Ownership\<close>

text \<open>The specification of assignment: which instance owns which device.\<close>

definition owner :: "device_manager_t \<Rightarrow> nat \<Rightarrow> int option" where
  "owner mgr i = (if i < length (devices mgr) \<and> dev_state (devices mgr ! i) = DEVICE_STATE_IN_USE
     then Some (assigned_instance (devices mgr ! i)) else None)"

definition managed :: "device_manager_t \<Rightarrow> bool" where
  "managed mgr \<longleftrightarrow> length (devices mgr) \<le> MAX_DEVICES \<and>
     (\<forall>dev \<in> set (devices mgr). dev_state dev = DEVICE_STATE_AVAILABLE \<and> assigned_instance dev = 0 \<or> dev_state dev = DEVICE_STATE_IN_USE)"

datatype mgr_op = Assign nat int | Release nat

fun op_device :: "mgr_op \<Rightarrow> nat" where
  "op_device (Assign i _) = i"
| "op_device (Release i) = i"

fun mgr_run :: "mgr_op \<Rightarrow> device_manager_t \<Rightarrow> int \<times> device_manager_t" where
  "mgr_run (Assign i inst) mgr = device_manager_assign mgr (Some i) inst"
| "mgr_run (Release i) mgr = (0, device_manager_release mgr (Some i))"

fun own_run :: "mgr_op \<Rightarrow> (nat \<Rightarrow> int option) \<Rightarrow> int \<times> (nat \<Rightarrow> int option)" where
  "own_run (Assign i inst) own = (if own i = None then (0, own(i := Some inst)) else (-1, own))"
| "own_run (Release i) own = (0, own(i := None))"

text \<open>Runs of the manager with the codes it returned.\<close>

inductive mgr_runs :: "device_manager_t \<Rightarrow> (mgr_op \<times> int) list \<Rightarrow> device_manager_t \<Rightarrow> bool" where
  runs_nil: "mgr_runs mgr [] mgr"
| runs_step: "mgr_runs mgr es mgr1 \<Longrightarrow> op_device p < length (devices mgr1) \<Longrightarrow> mgr_run p mgr1 = (code, mgr2) \<Longrightarrow>
    mgr_runs mgr (es @ [(p, code)]) mgr2"

inductive_cases mgr_runs_snocE: "mgr_runs mgr (es @ [e]) mgr'"

inductive own_runs :: "(nat \<Rightarrow> int option) \<Rightarrow> (mgr_op \<times> int) list \<Rightarrow> (nat \<Rightarrow> int option) \<Rightarrow> bool" where
  own_nil: "own_runs own [] own"
| own_step: "own_runs own es own1 \<Longrightarrow> own_run p own1 = (code, own2) \<Longrightarrow> own_runs own (es @ [(p, code)]) own2"

lemma managed_step:
  assumes "managed mgr" "op_device p < length (devices mgr)" "mgr_run p mgr = (code, mgr')"
  shows "managed mgr'" "length (devices mgr') = length (devices mgr)" "own_run p (owner mgr) = (code, owner mgr')"
proof -
  have st: "dev_state (devices mgr ! i) = DEVICE_STATE_AVAILABLE \<or> dev_state (devices mgr ! i) = DEVICE_STATE_IN_USE"
    if "i < length (devices mgr)" for i using assms(1) that by (auto simp: managed_def dest: nth_mem)
  show "managed mgr'" "length (devices mgr') = length (devices mgr)"
    using assms by (cases p; auto simp: managed_def device_manager_assign_def device_manager_release_def on_device_def
        split: if_splits dest!: set_update_subset_insert[THEN subsetD])+
  show "own_run p (owner mgr) = (code, owner mgr')"
    using assms(2,3) st
    by (cases p) (auto simp: owner_def device_manager_assign_def device_manager_release_def on_device_def fun_eq_iff nth_list_update split: if_splits)
qed

text \<open>
  C34. The manager implements the ownership map: any sequence of assignments and releases on a
  scanned manager returns the codes and leaves the owners that the map does, where an
  assignment succeeds exactly when the device has no owner; and every device stays either
  available and unassigned or in use.
\<close>

theorem assign_refines_ownership:
  assumes "mgr_runs mgr es mgr'" "managed mgr"
  shows "managed mgr' \<and> own_runs (owner mgr) es (owner mgr')"
  using assms
proof (induction rule: mgr_runs.induct)
  case (runs_step mgr es mgr1 p code mgr2)
  then show ?case using managed_step[of mgr1 p code mgr2] by (auto intro: own_step)
qed (auto intro: own_nil)

definition ex_managed :: device_manager_t where
  "ex_managed = \<lparr>devices = [device_of 0 \<lparr>node_id = 0x04036010, node_serial = ''A'', node_description = ''B''\<rparr>], mgr_initialized = True\<rparr>"

theorem assign_refines_ownership_witness:
  "\<exists>mgr'. mgr_runs ex_managed [(Assign 0 1, 0), (Assign 0 2, -1)] mgr' \<and> own_runs (owner ex_managed) [(Assign 0 1, 0), (Assign 0 2, -1)] (owner mgr')"
proof -
  let ?m1 = "snd (mgr_run (Assign 0 1) ex_managed)"
  have 1: "mgr_run (Assign 0 1) ex_managed = (0, ?m1)" "mgr_run (Assign 0 2) ?m1 = (-1, ?m1)"
    by (simp_all add: ex_managed_def device_of_def device_manager_assign_def on_device_def)
  have "mgr_runs ex_managed ([] @ [(Assign 0 1, 0)]) ?m1"
    by (rule runs_step[OF runs_nil]) (use 1 in \<open>simp_all add: ex_managed_def\<close>)
  then have "mgr_runs ex_managed (([] @ [(Assign 0 1, 0)]) @ [(Assign 0 2, -1)]) ?m1"
    by (rule runs_step) (use 1 in \<open>simp_all add: ex_managed_def device_manager_assign_def on_device_def device_of_def\<close>)
  moreover have "managed ex_managed" by (simp add: managed_def ex_managed_def device_of_def MAX_DEVICES_def)
  ultimately show ?thesis using assign_refines_ownership[of ex_managed "([] @ [(Assign 0 1, 0)]) @ [(Assign 0 2, -1)]" ?m1] by auto
qed

end
