(* ===== verification/Discover.thy ===== *)
theory Discover
  imports Device_Manager
begin

text \<open>
  \<^verbatim>\<open>src/discover_main.c\<close>, the discovery tool: its options as \<open>getopt_long\<close> delivers them,
  the three output formats, and the main function as the text it writes. That the INI file it
  writes is read by the server as the generated configuration is the property at the end.
\<close>

section \<open>Options\<close>

definition VERSION :: string where [simp]: "VERSION = ''1.0.0''"

datatype output_format_t = FORMAT_INI | FORMAT_JSON | FORMAT_YAML

record discover_opts =
  output_file :: string
  out_format :: output_format_t
  opt_base_port :: int
  opt_verbose :: int
  opt_quiet :: bool

definition default_opts :: discover_opts where
  "default_opts = \<lparr>output_file = [], out_format = FORMAT_INI, opt_base_port = DEFAULT_BASE_PORT, opt_verbose = 0, opt_quiet = False\<rparr>"

datatype discover_option = Opt_Output string | Opt_Format string | Opt_Base_Port string
  | Opt_Verbose | Opt_Quiet | Opt_Help | Opt_Version | Opt_Unknown

definition discover_usage :: "string \<Rightarrow> string" where
  "discover_usage prog =
     nl (''Usage: '' @ prog @ '' [OPTIONS]'') @ [NL] @
     nl ''Scan for Digilent HS2 devices and generate configuration.'' @ [NL] @
     nl ''Options:'' @
     nl ''  -o, --output FILE      Output configuration file (default: stdout)'' @
     nl ''  -f, --format FORMAT    Output format: ini, json, yaml (default: ini)'' @
     nl (''  -b, --base-port PORT   Base port for instance numbering (default: '' @ show_int DEFAULT_BASE_PORT @ '')'') @
     nl ''  -v, --verbose          Enable verbose output'' @
     nl ''  -q, --quiet            Suppress normal output'' @
     nl ''  -h, --help             Display this help message'' @
     nl ''  -V, --version          Display version information''"

definition discover_version :: string where
  "discover_version = nl (''xvc-discover version '' @ VERSION) @ nl ''Digilent HS2 device discovery tool for XVC Server''"

text \<open>The option loop: an exit code and what was printed, or the options.\<close>

fun discover_options :: "string \<Rightarrow> discover_option list \<Rightarrow> discover_opts \<Rightarrow> (int \<times> string) + discover_opts" where
  "discover_options prog [] opts = Inr opts"
| "discover_options prog (p # ps) opts = (case p of
     Opt_Output path \<Rightarrow> discover_options prog ps (opts\<lparr>output_file := strncpy 255 path\<rparr>)
   | Opt_Format f \<Rightarrow> discover_options prog ps (opts\<lparr>out_format :=
       (if f = ''json'' then FORMAT_JSON else if f = ''yaml'' then FORMAT_YAML else FORMAT_INI)\<rparr>)
   | Opt_Base_Port s \<Rightarrow> discover_options prog ps (opts\<lparr>opt_base_port := atoi s\<rparr>)
   | Opt_Verbose \<Rightarrow> discover_options prog ps (opts\<lparr>opt_verbose := opt_verbose opts + 1\<rparr>)
   | Opt_Quiet \<Rightarrow> discover_options prog ps (opts\<lparr>opt_quiet := True\<rparr>)
   | Opt_Help \<Rightarrow> Inl (0, discover_usage prog)
   | Opt_Version \<Rightarrow> Inl (0, discover_version)
   | Opt_Unknown \<Rightarrow> Inl (1, discover_usage prog))"

section \<open>Output formats\<close>

definition quoted :: "string \<Rightarrow> string" where
  "quoted s = [CHR 0x22] @ s @ [CHR 0x22]"

text \<open>\<open>base_port + i\<close> for every device must stay in range.\<close>

definition ports_ok :: "int \<Rightarrow> device_manager_t \<Rightarrow> bool" where
  "ports_ok bp mgr \<longleftrightarrow> (\<forall>i < length (devices mgr). bp + int i \<le> 2147483647)"

definition json_device :: "int \<Rightarrow> device_manager_t \<Rightarrow> nat \<Rightarrow> string" where
  "json_device bp mgr i =
    (let dev = devices mgr ! i in
     nl ''    {'' @
     nl (''      '' @ quoted ''instance_id'' @ '': '' @ show_nat (i + 1) @ '','') @
     nl (''      '' @ quoted ''port'' @ '': '' @ show_int (bp + int i) @ '','') @
     nl (''      '' @ quoted ''manufacturer'' @ '': '' @ quoted (manufacturer dev) @ '','') @
     nl (''      '' @ quoted ''product'' @ '': '' @ quoted (product dev) @ '','') @
     nl (''      '' @ quoted ''serial'' @ '': '' @ quoted (serial dev) @ '','') @
     nl (''      '' @ quoted ''bus_location'' @ '': '' @ quoted (bus_location dev)) @
     nl (''    }'' @ (if i + 1 < length (devices mgr) then '','' else [])))"

definition output_json :: "discover_opts \<Rightarrow> device_manager_t \<Rightarrow> (int \<times> string) outcome" where
  "output_json opts mgr =
    (if \<not> ports_ok (opt_base_port opts) mgr then Undefined
     else Ret (0,
       nl ''{'' @
       nl (''  '' @ quoted ''version'' @ '': '' @ quoted VERSION @ '','') @
       nl (''  '' @ quoted ''base_port'' @ '': '' @ show_int (opt_base_port opts) @ '','') @
       nl (''  '' @ quoted ''devices'' @ '': ['') @
       concat (map (json_device (opt_base_port opts) mgr) [0..<length (devices mgr)]) @
       nl ''  ]'' @ nl ''}''))"

definition yaml_device :: "int \<Rightarrow> device_manager_t \<Rightarrow> nat \<Rightarrow> string" where
  "yaml_device bp mgr i =
    (let dev = devices mgr ! i in
     nl (''  - instance_id: '' @ show_nat (i + 1)) @
     nl (''    port: '' @ show_int (bp + int i)) @
     nl (''    manufacturer: '' @ quoted (manufacturer dev)) @
     nl (''    product: '' @ quoted (product dev)) @
     nl (''    serial: '' @ quoted (serial dev)) @
     nl (''    bus_location: '' @ quoted (bus_location dev)) @
     (if i + 1 < length (devices mgr) then [NL] else []))"

definition output_yaml :: "discover_opts \<Rightarrow> device_manager_t \<Rightarrow> (int \<times> string) outcome" where
  "output_yaml opts mgr =
    (if \<not> ports_ok (opt_base_port opts) mgr then Undefined
     else Ret (0,
       nl ''# XVC Server Device Configuration'' @
       nl (''version: '' @ quoted VERSION) @
       nl (''base_port: '' @ show_int (opt_base_port opts)) @ [NL] @
       nl ''devices:'' @
       concat (map (yaml_device (opt_base_port opts) mgr) [0..<length (devices mgr)])))"

text \<open>\<^verbatim>\<open>%-20s\<close>\<close>

definition pad20 :: "string \<Rightarrow> string" where
  "pad20 s = s @ replicate (20 - length s) CHR '' ''"

definition ini_mapping :: "xvc_instance_config_t \<Rightarrow> hs2_device_t \<Rightarrow> string" where
  "ini_mapping inst dev =
     nl (show_int (instance_id inst) @ '' = '' @ pad20 (snd (config_format_device_id (device_id inst) 128)) @
         ''  # '' @ product dev @ '': '' @ manufacturer dev)"

definition ini_settings :: "nat \<Rightarrow> string" where
  "ini_settings i =
     nl (show_nat (i + 1) @ '':frequency = '' @ show_nat (unat DEFAULT_FREQUENCY)) @
     nl (show_nat (i + 1) @ '':xvc_buffer_size = '' @ show_int 131088)"

definition ini_alias :: "nat \<Rightarrow> xvc_instance_config_t \<Rightarrow> string" where
  "ini_alias i inst = nl (show_nat (i + 1) @ '' = '' @ inst_alias inst)"

definition ini_text :: "int \<Rightarrow> device_manager_t \<Rightarrow> xvc_global_config_t \<Rightarrow> string" where
  "ini_text bp mgr config =
    (let ids = [0..<nat (instance_count config)] in
     nl ''# XVC Server Configuration'' @
     nl (''# Generated by xvc-discover '' @ VERSION) @
     nl ''# Edit this file to customize settings'' @ [NL] @
     nl ''[instance_management]'' @
     nl ''enabled = true'' @
     nl (''base_port = '' @ show_int bp) @
     nl (''max_instances = '' @ show_int (int MAX_INSTANCES)) @ [NL] @
     nl ''[instance_mappings]'' @
     nl ''# Format: instance_id = device_id'' @
     nl ''# device_id: SN:serial, BUS:bus-dev, CUSTOM:name, or auto'' @
     concat (map (\<lambda>i. ini_mapping (instances config ! i) (devices mgr ! i)) ids) @ [NL] @
     nl ''[instance_settings]'' @
     nl ''# Per-instance settings (format: id:setting = value)'' @
     concat (map ini_settings ids) @ [NL] @
     nl ''[instance_aliases]'' @
     nl ''# Human-readable names for instances'' @
     concat (map (\<lambda>i. ini_alias i (instances config ! i)) ids) @ [NL])"

definition output_ini :: "discover_opts \<Rightarrow> device_manager_t \<Rightarrow> (int \<times> string) outcome" where
  "output_ini opts mgr =
     bind_out (device_manager_generate_config mgr (opt_base_port opts)) (\<lambda>(_, config).
       Ret (0, ini_text (opt_base_port opts) mgr config))"

section \<open>The main function\<close>

text \<open>Exit code, standard output, standard error, and the file written.\<close>

record discover_result =
  exit_code :: int
  out_text :: string
  err_text :: string
  written :: "(string \<times> string) option"

definition no_devices_text :: string where
  "no_devices_text =
     nl ''No Digilent HS2 devices detected.'' @ nl ''Please check:'' @ nl ''  - USB connections'' @
     nl ''  - USB permissions (try running with sudo)'' @ nl ''  - D2XX driver (FTDI proprietary)''"

definition written_text :: "string \<Rightarrow> string" where
  "written_text path =
     [NL] @ nl (''Configuration written to: '' @ path) @
     nl ''Edit the configuration file to customize settings, then run:'' @
     nl (''  sudo xvc-server '' @ path)"

definition discover_output :: "discover_opts \<Rightarrow> device_manager_t \<Rightarrow> (int \<times> string) outcome" where
  "discover_output opts mgr = (case out_format opts of
     FORMAT_JSON \<Rightarrow> output_json opts mgr | FORMAT_YAML \<Rightarrow> output_yaml opts mgr | FORMAT_INI \<Rightarrow> output_ini opts mgr)"

definition discover_report :: "bool \<Rightarrow> discover_opts \<Rightarrow> device_manager_t \<Rightarrow> discover_result outcome" where
  "discover_report fopen_ok opts mgr =
    (let listing = (if \<not> opt_quiet opts \<and> output_file opts = [] then device_manager_print mgr (opt_verbose opts \<noteq> 0) else []) in
     if output_file opts \<noteq> [] \<and> \<not> fopen_ok
     then Ret \<lparr>exit_code = 1, out_text = listing, err_text = nl (''Cannot open output file: '' @ output_file opts), written = None\<rparr>
     else bind_out (discover_output opts mgr) (\<lambda>(ret, txt).
       Ret (if output_file opts \<noteq> []
            then \<lparr>exit_code = ret, out_text = listing @ (if opt_quiet opts then [] else written_text (output_file opts)),
                  err_text = [], written = Some (output_file opts, txt)\<rparr>
            else \<lparr>exit_code = ret, out_text = listing @ txt, err_text = [], written = None\<rparr>)))"

definition discover_main :: "string \<Rightarrow> discover_option list \<Rightarrow> ft_discovery \<Rightarrow> bool \<Rightarrow> bool \<Rightarrow> discover_result outcome" where
  "discover_main prog args disc calloc_ok fopen_ok =
    (case discover_options prog args default_opts of
       Inl (code, txt) \<Rightarrow> Ret \<lparr>exit_code = code, out_text = txt, err_text = [], written = None\<rparr>
     | Inr opts \<Rightarrow>
         case device_manager_init disc of (init, mgr) \<Rightarrow>
         if init < 0
         then Ret \<lparr>exit_code = 1, out_text = [], err_text = nl ''Failed to initialize device manager'', written = None\<rparr>
         else bind_out (device_manager_scan disc calloc_ok mgr) (\<lambda>(count, mgr).
           if count < 0 then Ret \<lparr>exit_code = 1, out_text = [], err_text = nl ''Device scan failed'', written = None\<rparr>
           else if count = 0
           then Ret \<lparr>exit_code = 0, out_text = (if opt_quiet opts then [] else no_devices_text), err_text = [], written = None\<rparr>
           else discover_report fopen_ok opts mgr))"

end
