(* ===== verification/Discover_Round_Trip.thy ===== *)
theory Discover_Round_Trip
  imports Discover
begin

text \<open>
  The discovery tool and the server agree: the server reads the INI output as the configuration
  the tool generated for the devices it found.
\<close>

section \<open>The generated configuration\<close>

definition generated :: "int \<Rightarrow> hs2_device_t list \<Rightarrow> xvc_global_config_t" where
  "generated bp devs = config_init\<lparr>base_port := bp,
     instances := map (\<lambda>i. if i < length devs then generated_instance bp i (devs ! i) (default_instance i) else default_instance i) [0..<MAX_INSTANCES],
     instance_count := int (length devs)\<rparr>"

lemma generate_instances_eq:
  assumes "i + length devs \<le> MAX_INSTANCES" "bp + int (i + length devs) \<le> 2147483648" "length (instances c) = MAX_INSTANCES"
  shows "generate_instances bp i devs c = Ret (c\<lparr>instances := map (\<lambda>j. if i \<le> j \<and> j < i + length devs
      then generated_instance bp j (devs ! (j - i)) (instances c ! j) else instances c ! j) [0..<MAX_INSTANCES],
      instance_count := instance_count c + int (length devs)\<rparr>)"
  using assms
proof (induction devs arbitrary: i c)
  case Nil
  have "map (\<lambda>j. if i \<le> j \<and> j < i + length [] then generated_instance bp j ([] ! (j - i)) (instances c ! j) else instances c ! j) [0..<MAX_INSTANCES] = instances c"
    using Nil.prems(3) by (intro nth_equalityI) auto
  then show ?case by simp
next
  case (Cons d devs)
  let ?c = "c\<lparr>instances := (instances c)[i := generated_instance bp i d (instances c ! i)], instance_count := instance_count c + 1\<rparr>"
  have "map (\<lambda>j. if Suc i \<le> j \<and> j < Suc i + length devs then generated_instance bp j (devs ! (j - Suc i)) (instances ?c ! j) else instances ?c ! j) [0..<MAX_INSTANCES]
    = map (\<lambda>j. if i \<le> j \<and> j < i + length (d # devs) then generated_instance bp j ((d # devs) ! (j - i)) (instances c ! j) else instances c ! j) [0..<MAX_INSTANCES]"
    using Cons.prems by (auto simp: nth_Cons' Suc_le_eq)
  with Cons.IH[of "Suc i" ?c] Cons.prems show ?case by simp
qed

lemma generate_config_eq:
  assumes "length (devices mgr) \<le> MAX_INSTANCES" "bp \<le> 2147483615"
  shows "device_manager_generate_config mgr bp = Ret (0, generated bp (devices mgr))"
proof -
  have "map (\<lambda>j. if 0 \<le> j \<and> j < 0 + length (devices mgr) then generated_instance bp j (devices mgr ! (j - 0)) (instances config_init ! j) else instances config_init ! j) [0..<MAX_INSTANCES]
    = map (\<lambda>i. if i < length (devices mgr) then generated_instance bp i (devices mgr ! i) (default_instance i) else default_instance i) [0..<MAX_INSTANCES]"
    by (rule map_cong) (simp_all add: config_init_def)
  with generate_instances_eq[of 0 "devices mgr" bp "config_init\<lparr>base_port := bp\<rparr>"] assms show ?thesis
    by (simp add: device_manager_generate_config_def generated_def config_init_def MAX_INSTANCES_def)
qed

text \<open>What the server is to read: the generated configuration with the buffer size the tool writes.\<close>

definition discovered :: "int \<Rightarrow> hs2_device_t list \<Rightarrow> xvc_global_config_t" where
  "discovered bp devs = (generated bp devs)\<lparr>instances := map (\<lambda>i. if i < length devs
     then (instances (generated bp devs) ! i)\<lparr>xvc_buffer_size := 131088\<rparr> else default_instance i) [0..<MAX_INSTANCES]\<rparr>"

definition listable :: "hs2_device_t \<Rightarrow> bool" where
  "listable dev \<longleftrightarrow> length (serial dev) \<le> 59 \<and> (serial dev = [] \<or> plain (serial dev)) \<and>
     length (bus_location dev) < 16 \<and> plain (bus_location dev) \<and>
     length (product dev) < 64 \<and> NL \<notin> set (product dev) \<and> NUL \<notin> set (product dev) \<and>
     length (manufacturer dev) < 64 \<and> NL \<notin> set (manufacturer dev) \<and> NUL \<notin> set (manufacturer dev) \<and>
     manufacturer dev \<noteq> [] \<and> \<not> isspace (last (manufacturer dev))"

definition device_key :: "hs2_device_t \<Rightarrow> string" where
  "device_key dev = (if serial dev \<noteq> [] then serial dev else bus_location dev)"

lemma discovered_nth:
  assumes "i < MAX_INSTANCES"
  shows "instances (discovered bp devs) ! i =
    (if i < length devs then (generated_instance bp i (devs ! i) (default_instance i))\<lparr>xvc_buffer_size := 131088\<rparr> else default_instance i)"
  using assms by (simp add: discovered_def generated_def)

lemma plain_append: "s \<noteq> [] \<Longrightarrow> \<not> isspace (hd s) \<Longrightarrow> CHR ''#'' \<notin> set s \<Longrightarrow> CHR '';'' \<notin> set s \<Longrightarrow> NL \<notin> set s \<Longrightarrow> NUL \<notin> set s \<Longrightarrow> plain t \<Longrightarrow> plain (s @ t)"
  by (simp add: plain_def)

lemma device_key_plain: "listable dev \<Longrightarrow> plain (device_key dev) \<and> length (device_key dev) \<le> 59"
  by (auto simp: listable_def device_key_def)

lemma generated_fields:
  fixes bp :: int and i :: nat
  assumes "listable dev"
  defines "inst \<equiv> (generated_instance bp i dev (default_instance i))\<lparr>xvc_buffer_size := 131088\<rparr>"
  shows "instance_wf i inst" "savable_instance inst" "enabled inst" "inst_alias inst = ''HS2-'' @ device_key dev"
    "latency_timer inst = DEFAULT_LATENCY" "frequency inst = DEFAULT_FREQUENCY" "xvc_buffer_size inst = 131088"
proof -
  note k = device_key_plain[OF assms(1)]
  show a: "inst_alias inst = ''HS2-'' @ device_key dev"
    using k by (auto simp: inst_def generated_instance_def snprintf_def device_key_def)
  have d: "device_id inst = \<lparr>id_type = (if serial dev \<noteq> [] then DEVICE_ID_SERIAL else DEVICE_ID_BUS), id_value = device_key dev\<rparr>"
    using k by (auto simp: inst_def generated_instance_def device_key_def strncpy_id)
  show "instance_wf i inst"
    using k by (simp add: instance_wf_def a d) (simp add: inst_def generated_instance_def default_instance_def device_id_wf_def
      MIN_XVC_BUFFER_SIZE_def MAX_XVC_BUFFER_SIZE_def DEFAULT_CLIENT_LOCK_TIMEOUT_def)
  have "plain (''SN:'' @ device_key dev)" "plain (''BUS:'' @ device_key dev)" "plain (''HS2-'' @ device_key dev)"
    by (rule plain_append; use k in \<open>simp add: isspace_def\<close>)+
  then show "savable_instance inst"
    by (simp add: savable_instance_def a d device_id_text_def) (simp add: inst_def generated_instance_def int32_def DEFAULT_LATENCY_def)
qed (simp_all add: inst_def generated_instance_def)

lemma discovered_savable:
  assumes "list_all listable devs" "length devs \<le> MAX_INSTANCES" "int32 bp" "bp \<le> 2147483615"
  shows "savable (discovered bp devs)"
proof -
  have l: "listable (devs ! i)" if "i < length devs" for i using assms(1) that by (simp add: list_all_length)
  have i: "instance_wf i (instances (discovered bp devs) ! i)" "enabled (instances (discovered bp devs) ! i) \<longleftrightarrow> i < length devs"
    "i < length devs \<Longrightarrow> savable_instance (instances (discovered bp devs) ! i)" if "i < MAX_INSTANCES" for i
    using generated_fields(1-3)[OF l] default_instance_wf that by (simp_all add: discovered_nth)
  have o: "length (instances (discovered bp devs)) = MAX_INSTANCES" "instance_count (discovered bp devs) = int (length devs)"
    "base_port (discovered bp devs) = bp" "max_instances (discovered bp devs) = int MAX_INSTANCES"
    by (simp_all add: discovered_def generated_def config_init_def)
  have "nat (int (length devs) - 1) < length devs" if "devs \<noteq> []" using that by (cases devs) auto
  then have "devs = [] \<or> enabled (instances (discovered bp devs) ! nat (int (length devs) - 1))"
    using i(2)[of "nat (int (length devs) - 1)"] assms(2) by fastforce
  with assms i o show ?thesis by (simp add: savable_def config_wf_def int32_def MAX_INSTANCES_def)
qed

section \<open>Reading the file\<close>

lemma item_entry_comment:
  assumes k: "plain k" "CHR ''='' \<notin> set k" "hd k \<noteq> CHR ''[''" and v: "plain v"
    and c: "c \<noteq> []" "\<not> isspace (last c)"
  shows "config_item_of (k @ '' = '' @ v @ replicate n CHR '' '' @ CHR ''#'' # c @ [NL]) = Entry k v"
proof -
  let ?l = "k @ '' = '' @ v @ replicate n CHR '' '' @ CHR ''#'' # c"
  let ?e = "k @ '' = '' @ v"
  have sp: "isspace CHR '' ''" by (simp add: isspace_def)
  have l: "trim (?l @ [NL]) = ?l"
    using trim_around[of ?l "[]" "[NL]"] k c by (auto simp: plain_def isspace_def)
  have "cut_at CHR ''#'' ?l = ?e @ replicate n CHR '' ''"
    using k v by (simp add: cut_at_def takeWhile_append plain_def)
  moreover have "cut_at CHR '';'' (?e @ replicate n CHR '' '') = ?e @ replicate n CHR '' ''"
    using k v by (simp add: cut_at_id plain_def)
  moreover have "trim (?e @ replicate n CHR '' '') = ?e"
    using trim_around[of ?e "[]" "replicate n CHR '' ''"] k v sp by (auto simp: plain_def)
  moreover have "config_item_of (?e @ [NL]) = Entry k v" using item_entry[OF k v] by simp
  moreover have "trim (?e @ [NL]) = ?e" "trim ?e = ?e"
    using trim_around[of ?e "[]" "[NL]"] trim_id[of ?e] k v by (auto simp: plain_def isspace_def)
  moreover have "cut_at CHR '';'' (cut_at CHR ''#'' ?e) = ?e" using k v by (simp add: cut_at_id plain_def)
  moreover have "hd ?l = hd k" "hd ?e = hd k" "hd k \<noteq> CHR ''#''" "hd k \<noteq> CHR '';''" "?l \<noteq> []" "?e \<noteq> []"
    using k hd_in_set[of k] by (auto simp: plain_def simp del: hd_in_set)
  ultimately show ?thesis using l by (simp add: config_item_of_def Let_def)
qed

lemma ini_mapping_line:
  assumes "instance_wf i src" "i < MAX_INSTANCES" "savable_instance src" "base_port c = bp" "bp \<le> 2147483615" "listable dev"
  shows "config_lines (ini_mapping src dev @ rest) (SECTION_INSTANCE_MAPPINGS, c) = config_lines (mapping_text src @ rest) (SECTION_INSTANCE_MAPPINGS, c)"
proof -
  note id = instance_id_text[OF assms(1,2)]
  have d: "device_id_wf (device_id src)" using assms(1) by (simp add: instance_wf_def)
  let ?v = "device_id_text (device_id src)"
  have v: "plain ?v" using assms(3) by (simp add: savable_instance_def)
  have len: "length ?v \<le> 70" using d by (cases "id_type (device_id src)") (auto simp: device_id_text_def device_id_wf_def)
  let ?n = "(20 - length ?v) + 2"
  let ?c = "'' '' @ product dev @ '': '' @ manufacturer dev"
  let ?l = "show_nat (Suc i) @ '' = '' @ ?v @ replicate ?n CHR '' '' @ CHR ''#'' # ?c"
  have "replicate (20 - length ?v) CHR '' '' @ ''  '' = replicate ?n CHR '' ''"
    by (simp only: replicate_add) (simp add: numeral_2_eq_2)
  then have t: "ini_mapping src dev = nl ?l"
    unfolding ini_mapping_def id(1) using d by (simp add: format_full pad20_def) (metis append_Cons append_Nil append_assoc)
  have c: "?c \<noteq> []" "\<not> isspace (last ?c)" "NL \<notin> set ?c" "NUL \<notin> set ?c" "length ?c \<le> 200"
    using assms(6) by (auto simp: listable_def)
  have "config_item_of (nl ?l) = Entry (show_nat (Suc i)) ?v"
    using item_entry_comment[OF plain_id(1,2,4) v c(1,2), of "Suc i" ?n] by (simp add: nl_def)
  moreover have "NL \<notin> set ?l" "NUL \<notin> set ?l" "length ?l \<le> 510"
    using v c len id(4) plain_id(1)[of "Suc i"] by (auto simp: plain_def)
  ultimately have "config_lines (nl ?l @ rest) (SECTION_INSTANCE_MAPPINGS, c) =
      bind_out (config_apply (Entry (show_nat (Suc i)) ?v) (SECTION_INSTANCE_MAPPINGS, c)) (config_lines rest)"
    by (rule lines_item)
  also have "\<dots> = config_lines (nl (show_nat (Suc i) @ '' = '' @ ?v) @ rest) (SECTION_INSTANCE_MAPPINGS, c)"
    using lines_entry[OF plain_id(1,2,4) v] id(4) len by simp
  also have "nl (show_nat (Suc i) @ '' = '' @ ?v) = mapping_text src"
    using d by (simp add: mapping_text_def id(1) format_full)
  finally show ?thesis by (simp only: t)
qed

text \<open>The sections after the mappings are written as \<open>config_save\<close> writes them.\<close>

lemma ini_sections:
  assumes "list_all listable devs" "length devs \<le> MAX_INSTANCES"
  shows "concat (map ini_settings [0..<length devs]) = each_enabled settings_text (discovered bp devs)"
    "concat (map (\<lambda>i. ini_alias i (instances (generated bp devs) ! i)) [0..<length devs]) = each_enabled alias_text (discovered bp devs)"
    "nl ''[instance_management]'' @ nl ''enabled = true'' @ nl (''base_port = '' @ show_int bp) @
       nl (''max_instances = '' @ show_int (int MAX_INSTANCES)) @ [NL] @ rest = management_text (discovered bp devs) @ rest"
proof -
  have tk: "take (nat (instance_count (discovered bp devs))) (instances (discovered bp devs)) =
      map (\<lambda>i. (generated_instance bp i (devs ! i) (default_instance i))\<lparr>xvc_buffer_size := 131088\<rparr>) [0..<length devs]"
    using assms(2) by (intro nth_equalityI) (auto simp: discovered_def generated_def)
  have l: "listable (devs ! i)" if "i < length devs" for i using assms(1) that by (simp add: list_all_length)
  have s: "settings_text ((generated_instance bp i (devs ! i) (default_instance i))\<lparr>xvc_buffer_size := 131088\<rparr>) = ini_settings i"
    "alias_text ((generated_instance bp i (devs ! i) (default_instance i))\<lparr>xvc_buffer_size := 131088\<rparr>) = ini_alias i (instances (generated bp devs) ! i)"
    if "i < length devs" for i
  proof -
    note f = generated_fields[OF l[OF that], where bp = bp and i = i]
    have n: "instances (generated bp devs) ! i = generated_instance bp i (devs ! i) (default_instance i)"
      using that assms(2) by (simp add: generated_def)
    have id: "show_int (int i + 1) = show_nat (Suc i)" by (simp add: nat_add_distrib)
    show "settings_text ((generated_instance bp i (devs ! i) (default_instance i))\<lparr>xvc_buffer_size := 131088\<rparr>) = ini_settings i"
      using f(1) unfolding settings_text_def f(5-7) ini_settings_def instance_wf_def
      by (simp add: DEFAULT_XVC_BUFFER_SIZE_def id del: show_int_pos)
    show "alias_text ((generated_instance bp i (devs ! i) (default_instance i))\<lparr>xvc_buffer_size := 131088\<rparr>) = ini_alias i (instances (generated bp devs) ! i)"
      using f(1,4) unfolding alias_text_def ini_alias_def n instance_wf_def by (simp add: id del: show_int_pos)
  qed
  have en: "enabled ((generated_instance bp i d (default_instance i))\<lparr>xvc_buffer_size := 131088\<rparr>)" for i d
    by (simp add: generated_instance_def)
  show "concat (map ini_settings [0..<length devs]) = each_enabled settings_text (discovered bp devs)"
    "concat (map (\<lambda>i. ini_alias i (instances (generated bp devs) ! i)) [0..<length devs]) = each_enabled alias_text (discovered bp devs)"
    unfolding each_enabled_def tk by (auto simp: en s intro!: arg_cong[where f = concat])
  show "nl ''[instance_management]'' @ nl ''enabled = true'' @ nl (''base_port = '' @ show_int bp) @
       nl (''max_instances = '' @ show_int (int MAX_INSTANCES)) @ [NL] @ rest = management_text (discovered bp devs) @ rest"
    by (simp add: management_text_def discovered_def generated_def config_init_def)
qed

lemma ini_comments:
  "config_lines (nl ''# XVC Server Configuration'' @ r) st = config_lines r st"
  "config_lines (nl ''# Generated by xvc-discover 1.0.0'' @ r) st = config_lines r st"
  "config_lines (nl ''# Edit this file to customize settings'' @ r) st = config_lines r st"
  "config_lines (nl ''# Format: instance_id = device_id'' @ r) st = config_lines r st"
  "config_lines (nl ''# device_id: SN:serial, BUS:bus-dev, CUSTOM:name, or auto'' @ r) st = config_lines r st"
  "config_lines (nl ''# Per-instance settings (format: id:setting = value)'' @ r) st = config_lines r st"
  "config_lines (nl ''# Human-readable names for instances'' @ r) st = config_lines r st"
  by (rule lines_comment; simp add: isspace_def)+

lemma ini_loads:
  assumes "list_all listable devs" "length devs \<le> MAX_INSTANCES" "int32 bp" "bp \<le> 2147483615" "devices mgr = devs"
  shows "\<exists>sec. config_lines (ini_text bp mgr (generated bp devs)) (SECTION_NONE, config_init) = Ret (sec, reloaded (discovered bp devs))"
proof -
  note sav = discovered_savable[OF assms(1-4)]
  let ?d = "discovered bp devs"
  have o: "instance_count ?d = int (length devs)" "base_port ?d = bp" "max_instances ?d = int MAX_INSTANCES" "instance_count (generated bp devs) = int (length devs)"
    by (simp_all add: discovered_def generated_def config_init_def)
  have l: "listable (devs ! i)" if "i < length devs" for i using assms(1) that by (simp add: list_all_length)
  have nth: "instances ?d ! i = (instances (generated bp devs) ! i)\<lparr>xvc_buffer_size := 131088\<rparr>" "i < MAX_INSTANCES" if "i < length devs" for i
    using that assms(2) by (simp_all add: discovered_def)
  have en: "enabled (instances ?d ! i)" if "i < length devs" for i
    using that nth(2)[OF that] generated_fields(3)[OF l[OF that]] by (simp add: discovered_nth)
  have map: "ini_mapping (instances (generated bp devs) ! i) (devs ! i) = ini_mapping (instances ?d ! i) (devs ! i)" if "i < length devs" for i
    by (simp add: nth[OF that] ini_mapping_def)
  have c: "config_lines (ini_mapping (instances ?d ! i) (devs ! i) @ r) (SECTION_INSTANCE_MAPPINGS, e) =
      config_lines (mapping_text (instances ?d ! i) @ r) (SECTION_INSTANCE_MAPPINGS, e)"
    if "i < nat (instance_count ?d)" "base_port e = base_port ?d" for i r e
  proof -
    have i: "i < length devs" using that(1) o(1) by simp
    note w = generated_fields(1,2)[OF l[OF i], where bp = bp and i = i]
    have "instances ?d ! i = (generated_instance bp i (devs ! i) (default_instance i))\<lparr>xvc_buffer_size := 131088\<rparr>"
      using i nth(2)[OF i] by (simp add: discovered_nth)
    with ini_mapping_line[OF _ nth(2)[OF i], of "instances ?d ! i" e bp "devs ! i" r] w l[OF i] assms(4) that(2) o(2)
    show ?thesis by simp
  qed
  have cm: "concat (map (\<lambda>i. ini_mapping (instances (generated bp devs) ! i) (devs ! i)) [0..<length devs]) =
      concat (map (\<lambda>i. if enabled (instances ?d ! i) then ini_mapping (instances ?d ! i) (devs ! i) else []) [0..<nat (instance_count ?d)])"
    using map en by (auto simp: o intro!: arg_cong[where f = concat])
  have v: "''# Generated by xvc-discover '' @ VERSION = ''# Generated by xvc-discover 1.0.0''" by simp
  have i32: "int32 (base_port ?d)" "int32 (max_instances ?d)" using assms(3) by (simp_all add: o int32_def MAX_INSTANCES_def)
  note b = building_start[of ?d]
  let ?f = "\<lambda>i. ini_mapping (instances ?d ! i) (devs ! i)"
  have m: "config_lines (concat (map (\<lambda>i. if enabled (instances ?d ! i) then ?f i else []) [0..<nat (instance_count ?d)]) @ r) (SECTION_INSTANCE_MAPPINGS, after_management ?d) =
      config_lines r (SECTION_INSTANCE_MAPPINGS, mapped_all ?d (after_management ?d))" "building ?d (mapped_all ?d (after_management ?d))" for r
    using mapping_section[where f = ?f, OF sav b] c by blast+
  note s = settings_section[OF sav m(2)]
  show ?thesis
    unfolding ini_text_def Let_def o(4) nat_int assms(5) v ini_comments blank_line ini_sections(1,2)[OF assms(1,2), of bp]
      ini_sections(3)[OF assms(1,2), of bp] management_lines[OF i32] section_headers cm m(1) s(1) alias_section[OF sav s(2)] reloaded_def
    using lines_blank[of "[]"] by (simp add: lines_end)
qed

text \<open>
  C13. For at most 32 devices whose strings can stand in the file, and a base port that leaves
  room for them, the discovery tool's INI output is read by the server, without error, as the
  configuration the tool generated: one enabled instance per device, in order, on consecutive
  ports, each naming its device by serial number, or by bus location when it has none, with
  the buffer size 131088 that the tool writes.
\<close>

theorem discover_ini_loads:
  assumes "list_all listable (devices mgr)" "length (devices mgr) \<le> MAX_INSTANCES"
    "int32 (opt_base_port opts)" "opt_base_port opts \<le> 2147483615"
  shows "\<exists>txt c. output_ini opts mgr = Ret (0, txt) \<and> config_load (\<lambda>_. Some txt) path c0 = Ret (0, c) \<and>
    same_saved (discovered (opt_base_port opts) (devices mgr)) c"
proof -
  from ini_loads[OF assms refl] obtain sec where
    "config_lines (ini_text (opt_base_port opts) mgr (generated (opt_base_port opts) (devices mgr))) (SECTION_NONE, config_init)
      = Ret (sec, reloaded (discovered (opt_base_port opts) (devices mgr)))" by blast
  with generate_config_eq[OF assms(2,4)] same_reloaded[OF discovered_savable[OF assms]] show ?thesis
    by (simp add: output_ini_def config_load_def)
qed

theorem discover_ini_loads_witness:
  "\<exists>txt c. output_ini default_opts ex_managed = Ret (0, txt) \<and> config_load (\<lambda>_. Some txt) ''xvc.conf'' config_init = Ret (0, c) \<and>
     same_saved (discovered 2542 (devices ex_managed)) c"
proof -
  have "list_all listable (devices ex_managed)" by code_simp
  then show ?thesis
    using discover_ini_loads[of ex_managed default_opts "''xvc.conf''" config_init]
    by (simp add: default_opts_def DEFAULT_BASE_PORT_def int32_def ex_managed_def MAX_INSTANCES_def)
qed

end
