(* ===== verification/Jtag_Tap.thy ===== *)
theory Jtag_Tap
  imports Xvc_Prelude
begin

text \<open>
  The IEEE 1149.1 TAP controller, which the program has twice: the transition table
  \<open>jtag_next_state\<close> of \<^verbatim>\<open>src/xvc_protocol.c\<close> (states \<open>JTAG_...\<close>) and the \<open>switch\<close> of
  \<open>next_state\<close> in \<^verbatim>\<open>src/mpsse_adapter.c\<close>. The locale \<open>tap_controller\<close> is what a client of
  either relies on; both are interpretations of it. Also here: the byte-wise tracking loop of
  the shift command and its equivalence with the bit-by-bit run.
\<close>

section \<open>The two state machines\<close>

datatype jtag_state_t =
    JTAG_TEST_LOGIC_RESET | JTAG_RUN_TEST_IDLE | JTAG_SELECT_DR_SCAN | JTAG_CAPTURE_DR
  | JTAG_SHIFT_DR | JTAG_EXIT1_DR | JTAG_PAUSE_DR | JTAG_EXIT2_DR | JTAG_UPDATE_DR
  | JTAG_SELECT_IR_SCAN | JTAG_CAPTURE_IR | JTAG_SHIFT_IR | JTAG_EXIT1_IR | JTAG_PAUSE_IR
  | JTAG_EXIT2_IR | JTAG_UPDATE_IR

text \<open>A row of the table holds the successor for TMS low and for TMS high.\<close>

fun jtag_next_state :: "jtag_state_t \<Rightarrow> jtag_state_t \<times> jtag_state_t" where
  "jtag_next_state JTAG_TEST_LOGIC_RESET = (JTAG_RUN_TEST_IDLE, JTAG_TEST_LOGIC_RESET)"
| "jtag_next_state JTAG_RUN_TEST_IDLE = (JTAG_RUN_TEST_IDLE, JTAG_SELECT_DR_SCAN)"
| "jtag_next_state JTAG_SELECT_DR_SCAN = (JTAG_CAPTURE_DR, JTAG_SELECT_IR_SCAN)"
| "jtag_next_state JTAG_CAPTURE_DR = (JTAG_SHIFT_DR, JTAG_EXIT1_DR)"
| "jtag_next_state JTAG_SHIFT_DR = (JTAG_SHIFT_DR, JTAG_EXIT1_DR)"
| "jtag_next_state JTAG_EXIT1_DR = (JTAG_PAUSE_DR, JTAG_UPDATE_DR)"
| "jtag_next_state JTAG_PAUSE_DR = (JTAG_PAUSE_DR, JTAG_EXIT2_DR)"
| "jtag_next_state JTAG_EXIT2_DR = (JTAG_SHIFT_DR, JTAG_UPDATE_DR)"
| "jtag_next_state JTAG_UPDATE_DR = (JTAG_RUN_TEST_IDLE, JTAG_SELECT_DR_SCAN)"
| "jtag_next_state JTAG_SELECT_IR_SCAN = (JTAG_CAPTURE_IR, JTAG_TEST_LOGIC_RESET)"
| "jtag_next_state JTAG_CAPTURE_IR = (JTAG_SHIFT_IR, JTAG_EXIT1_IR)"
| "jtag_next_state JTAG_SHIFT_IR = (JTAG_SHIFT_IR, JTAG_EXIT1_IR)"
| "jtag_next_state JTAG_EXIT1_IR = (JTAG_PAUSE_IR, JTAG_UPDATE_IR)"
| "jtag_next_state JTAG_PAUSE_IR = (JTAG_PAUSE_IR, JTAG_EXIT2_IR)"
| "jtag_next_state JTAG_EXIT2_IR = (JTAG_SHIFT_IR, JTAG_UPDATE_IR)"
| "jtag_next_state JTAG_UPDATE_IR = (JTAG_RUN_TEST_IDLE, JTAG_SELECT_DR_SCAN)"

definition jtag_step :: "jtag_state_t \<Rightarrow> bool \<Rightarrow> jtag_state_t" where
  "jtag_step state tms = (if tms then snd (jtag_next_state state) else fst (jtag_next_state state))"

text \<open>An enumeration parameter can hold any integer; out of range the name is \<open>UNKNOWN\<close>.\<close>

definition JTAG_NUM_STATES :: int where "JTAG_NUM_STATES = 16"

definition jtag_state_names :: "string list" where
  "jtag_state_names =
    [''TEST_LOGIC_RESET'', ''RUN_TEST_IDLE'', ''SELECT_DR_SCAN'', ''CAPTURE_DR'',
     ''SHIFT_DR'', ''EXIT1_DR'', ''PAUSE_DR'', ''EXIT2_DR'',
     ''UPDATE_DR'', ''SELECT_IR_SCAN'', ''CAPTURE_IR'', ''SHIFT_IR'',
     ''EXIT1_IR'', ''PAUSE_IR'', ''EXIT2_IR'', ''UPDATE_IR'']"

definition jtag_state_name :: "int \<Rightarrow> string" where
  "jtag_state_name state = (if 0 \<le> state \<and> state < JTAG_NUM_STATES then jtag_state_names ! nat state else ''UNKNOWN'')"

datatype jtag_state =
    TEST_LOGIC_RESET | RUN_TEST_IDLE | SELECT_DR_SCAN | CAPTURE_DR | SHIFT_DR | EXIT_1_DR
  | PAUSE_DR | EXIT_2_DR | UPDATE_DR | SELECT_IR_SCAN | CAPTURE_IR | SHIFT_IR | EXIT_1_IR
  | PAUSE_IR | EXIT_2_IR | UPDATE_IR

fun next_state :: "jtag_state \<Rightarrow> bool \<Rightarrow> jtag_state" where
  "next_state TEST_LOGIC_RESET tmsHigh = (if tmsHigh then TEST_LOGIC_RESET else RUN_TEST_IDLE)"
| "next_state RUN_TEST_IDLE tmsHigh = (if tmsHigh then SELECT_DR_SCAN else RUN_TEST_IDLE)"
| "next_state SELECT_DR_SCAN tmsHigh = (if tmsHigh then SELECT_IR_SCAN else CAPTURE_DR)"
| "next_state CAPTURE_DR tmsHigh = (if tmsHigh then EXIT_1_DR else SHIFT_DR)"
| "next_state SHIFT_DR tmsHigh = (if tmsHigh then EXIT_1_DR else SHIFT_DR)"
| "next_state EXIT_1_DR tmsHigh = (if tmsHigh then UPDATE_DR else PAUSE_DR)"
| "next_state PAUSE_DR tmsHigh = (if tmsHigh then EXIT_2_DR else PAUSE_DR)"
| "next_state EXIT_2_DR tmsHigh = (if tmsHigh then UPDATE_DR else SHIFT_DR)"
| "next_state UPDATE_DR tmsHigh = (if tmsHigh then SELECT_DR_SCAN else RUN_TEST_IDLE)"
| "next_state SELECT_IR_SCAN tmsHigh = (if tmsHigh then TEST_LOGIC_RESET else CAPTURE_IR)"
| "next_state CAPTURE_IR tmsHigh = (if tmsHigh then EXIT_1_IR else SHIFT_IR)"
| "next_state SHIFT_IR tmsHigh = (if tmsHigh then EXIT_1_IR else SHIFT_IR)"
| "next_state EXIT_1_IR tmsHigh = (if tmsHigh then UPDATE_IR else PAUSE_IR)"
| "next_state PAUSE_IR tmsHigh = (if tmsHigh then EXIT_2_IR else PAUSE_IR)"
| "next_state EXIT_2_IR tmsHigh = (if tmsHigh then UPDATE_IR else SHIFT_IR)"
| "next_state UPDATE_IR tmsHigh = (if tmsHigh then SELECT_DR_SCAN else RUN_TEST_IDLE)"

text \<open>Both enumerations list the states in the same order, so they agree as C integers.\<close>

fun tap_of :: "jtag_state_t \<Rightarrow> jtag_state" where
  "tap_of JTAG_TEST_LOGIC_RESET = TEST_LOGIC_RESET"
| "tap_of JTAG_RUN_TEST_IDLE = RUN_TEST_IDLE"
| "tap_of JTAG_SELECT_DR_SCAN = SELECT_DR_SCAN"
| "tap_of JTAG_CAPTURE_DR = CAPTURE_DR"
| "tap_of JTAG_SHIFT_DR = SHIFT_DR"
| "tap_of JTAG_EXIT1_DR = EXIT_1_DR"
| "tap_of JTAG_PAUSE_DR = PAUSE_DR"
| "tap_of JTAG_EXIT2_DR = EXIT_2_DR"
| "tap_of JTAG_UPDATE_DR = UPDATE_DR"
| "tap_of JTAG_SELECT_IR_SCAN = SELECT_IR_SCAN"
| "tap_of JTAG_CAPTURE_IR = CAPTURE_IR"
| "tap_of JTAG_SHIFT_IR = SHIFT_IR"
| "tap_of JTAG_EXIT1_IR = EXIT_1_IR"
| "tap_of JTAG_PAUSE_IR = PAUSE_IR"
| "tap_of JTAG_EXIT2_IR = EXIT_2_IR"
| "tap_of JTAG_UPDATE_IR = UPDATE_IR"

definition is_shift :: "jtag_state \<Rightarrow> bool" where
  "is_shift s \<longleftrightarrow> s = SHIFT_DR \<or> s = SHIFT_IR"

section \<open>The TAP contract\<close>

text \<open>
  What the code relies on: a reset state that TMS high keeps, and that five clocks with TMS
  high reach from anywhere; the shift states are left exactly by TMS high.
\<close>

locale tap_controller =
  fixes step :: "'s \<Rightarrow> bool \<Rightarrow> 's"
    and reset :: 's
    and shifting :: "'s \<Rightarrow> bool"
  assumes reset_stable: "step reset True = reset"
    and five_high: "step (step (step (step (step s True) True) True) True) True = reset"
    and shift_stays: "shifting s \<Longrightarrow> shifting (step s t) = (\<not> t)"
    and shift_self: "shifting s \<Longrightarrow> step s False = s"
    and shift_enter: "\<not> shifting s \<Longrightarrow> shifting (step s t) \<Longrightarrow> \<not> t"
begin

definition run :: "'s \<Rightarrow> bool list \<Rightarrow> 's" where
  "run s ts = fold (\<lambda>t s. step s t) ts s"

lemma run_Nil [simp]: "run s [] = s"
  and run_Cons [simp]: "run s (t # ts) = run (step s t) ts"
  and run_append [simp]: "run s (ts @ us) = run (run s ts) us"
  by (simp_all add: run_def)

lemma run_reset_high: "run reset (replicate n True) = reset"
  by (induction n) (simp_all add: reset_stable)

lemma run_five_high: "5 \<le> n \<Longrightarrow> run s (replicate n True) = reset"
proof -
  assume "5 \<le> n"
  then have "replicate n True = replicate 5 True @ replicate (n - 5) True"
    by (simp flip: replicate_add)
  moreover have "run s (replicate 5 True) = reset"
    using five_high[of s] by (simp add: eval_nat_numeral)
  ultimately show ?thesis by (simp add: run_reset_high)
qed

lemma run_reset_anywhere: "5 \<le> n \<Longrightarrow> run s (ts @ replicate n True) = reset"
  by (simp add: run_five_high)

lemma run_shift_low: "shifting s \<Longrightarrow> run s (replicate n False) = s"
  by (induction n) (simp_all add: shift_self)

end

interpretation prot: tap_controller jtag_step JTAG_TEST_LOGIC_RESET
  "\<lambda>s. s = JTAG_SHIFT_DR \<or> s = JTAG_SHIFT_IR"
proof unfold_locales
  fix s show "jtag_step (jtag_step (jtag_step (jtag_step (jtag_step s True) True) True) True) True
    = JTAG_TEST_LOGIC_RESET"
    by (cases s) (simp_all add: jtag_step_def)
next
  fix s t assume "\<not> (s = JTAG_SHIFT_DR \<or> s = JTAG_SHIFT_IR)"
    "jtag_step s t = JTAG_SHIFT_DR \<or> jtag_step s t = JTAG_SHIFT_IR"
  then show "\<not> t" by (cases s) (auto simp: jtag_step_def split: if_splits)
qed (auto simp: jtag_step_def)

interpretation mps: tap_controller next_state TEST_LOGIC_RESET is_shift
proof unfold_locales
  fix s show "next_state (next_state (next_state (next_state (next_state s True) True) True) True) True
    = TEST_LOGIC_RESET"
    by (cases s) simp_all
next
  fix s t assume "\<not> is_shift s" "is_shift (next_state s t)"
  then show "\<not> t" by (cases s) (auto simp: is_shift_def split: if_splits)
qed (auto simp: is_shift_def)

lemma tap_of_step: "tap_of (jtag_step s t) = next_state (tap_of s) t"
  by (cases s; cases t) (simp_all add: jtag_step_def)

lemma tap_of_run: "tap_of (prot.run s ts) = mps.run (tap_of s) ts"
  by (induction ts arbitrary: s) (simp_all add: tap_of_step)

section \<open>Tracking the state over a TMS vector\<close>

text \<open>
  The loop of the shift command: whole bytes first, eight steps on a byte that is shifted
  right, then the remaining bits of the next byte.
\<close>

fun track_byte :: "jtag_state_t \<Rightarrow> u8 \<Rightarrow> nat \<Rightarrow> jtag_state_t" where
  "track_byte state tms_byte 0 = state"
| "track_byte state tms_byte (Suc n) =
     track_byte (jtag_step state (tms_byte AND 1 \<noteq> 0)) (drop_bit 1 tms_byte) n"

function track_whole :: "u8 list \<Rightarrow> nat \<Rightarrow> jtag_state_t \<Rightarrow> nat \<Rightarrow> nat \<Rightarrow> jtag_state_t \<times> nat \<times> nat" where
  "track_whole vec len state byte_idx bit_idx =
     (if 8 \<le> len - bit_idx \<and> bit_idx \<le> len
      then track_whole vec len (track_byte state (vec ! byte_idx) 8) (byte_idx + 1) (bit_idx + 8)
      else (state, byte_idx, bit_idx))"
  by pat_completeness auto
termination
  by (relation "measure (\<lambda>(vec, len, state, byte_idx, bit_idx). len - bit_idx)") auto

declare track_whole.simps [simp del]

definition track_tms :: "u8 list \<Rightarrow> nat \<Rightarrow> jtag_state_t \<Rightarrow> jtag_state_t" where
  "track_tms vec len state =
     (case track_whole vec len state 0 0 of
        (state1, byte_idx, bit_idx) \<Rightarrow> track_byte state1 (vec ! byte_idx) (len - bit_idx))"

text \<open>The bits a vector of bytes carries, least significant bit of the first byte first.\<close>

definition vec_bits :: "u8 list \<Rightarrow> nat \<Rightarrow> bool list" where
  "vec_bits vec n = map (\<lambda>i. bit (vec ! (i div 8)) (i mod 8)) [0..<n]"

lemma length_vec_bits [simp]: "length (vec_bits vec n) = n"
  by (simp add: vec_bits_def)

lemma nth_vec_bits [simp]: "i < n \<Longrightarrow> vec_bits vec n ! i = bit (vec ! (i div 8)) (i mod 8)"
  by (simp add: vec_bits_def)

lemma and_one_neq_0: "(b :: u8) AND 1 \<noteq> 0 \<longleftrightarrow> bit b 0"
  by (simp add: and_one_eq odd_iff_mod_2_eq_one bit_0)

lemma track_byte_run: "track_byte s b n = prot.run s (map (bit b) [0..<n])"
proof (induction n arbitrary: s b)
  case (Suc n)
  have "map (bit b) [0..<Suc n] = bit b 0 # map (bit (drop_bit 1 b)) [0..<n]"
    by (simp add: upt_conv_Cons map_Suc_upt [symmetric] bit_drop_bit_eq comp_def del: upt_Suc)
  then show ?case by (simp add: Suc and_one_neq_0 del: upt_Suc)
qed simp

lemma vec_bits_tail:
  assumes "n mod 8 = 0" "k \<le> 8"
  shows "vec_bits vec (n + k) = vec_bits vec n @ map (bit (vec ! (n div 8))) [0..<k]"
proof (rule nth_equalityI)
  fix i assume i: "i < length (vec_bits vec (n + k))"
  obtain q where n: "n = 8 * q" using assms(1) by (auto simp: mod_eq_0_iff_dvd elim: dvdE)
  show "vec_bits vec (n + k) ! i = (vec_bits vec n @ map (bit (vec ! (n div 8))) [0..<k]) ! i"
  proof (cases "i < n")
    case False
    then have "i div 8 = q" "i mod 8 = i - n"
      using assms(2) i n by (auto intro!: div8_eqI simp: mod8_eqI)
    with False i n show ?thesis by (simp add: nth_append)
  qed (use i in \<open>simp add: nth_append\<close>)
qed simp

lemma track_whole_run:
  assumes "bit_idx = 8 * byte_idx" "bit_idx \<le> len"
  shows "track_whole vec len (prot.run s (vec_bits vec bit_idx)) byte_idx bit_idx =
         (prot.run s (vec_bits vec (8 * (len div 8))), len div 8, 8 * (len div 8))"
  using assms
proof (induction "len - bit_idx" arbitrary: byte_idx bit_idx rule: less_induct)
  case less
  show ?case
  proof (cases "8 \<le> len - bit_idx \<and> bit_idx \<le> len")
    case True
    have eq: "track_byte (prot.run s (vec_bits vec bit_idx)) (vec ! byte_idx) 8 =
          prot.run s (vec_bits vec (bit_idx + 8))"
      using vec_bits_tail[of bit_idx 8 vec] less.prems by (simp add: track_byte_run)
    have "track_whole vec len (prot.run s (vec_bits vec (bit_idx + 8))) (byte_idx + 1) (bit_idx + 8) =
      (prot.run s (vec_bits vec (8 * (len div 8))), len div 8, 8 * (len div 8))"
      by (rule less.hyps) (use True less.prems in auto)
    with True show ?thesis by (subst track_whole.simps) (simp only: eq if_True simp_thms)
  next
    case False
    then have "len div 8 = byte_idx" using less.prems by (intro div8_eqI) auto
    with False less.prems show ?thesis by (subst track_whole.simps) simp
  qed
qed

lemma track_tms_ok: "track_tms vec len s = prot.run s (vec_bits vec len)"
proof -
  have "len = 8 * (len div 8) + len mod 8" by simp
  then have "vec_bits vec len = vec_bits vec (8 * (len div 8)) @ map (bit (vec ! (len div 8))) [0..<len mod 8]"
    using vec_bits_tail[of "8 * (len div 8)" "len mod 8" vec] by simp
  moreover have "len - 8 * (len div 8) = len mod 8" by (simp add: minus_mult_div_eq_mod)
  ultimately show ?thesis
    using track_whole_run[of 0 0 len vec s]
    by (simp add: track_tms_def track_byte_run vec_bits_def)
qed

text \<open>
  C28. The byte-wise tracking loop of the shift command reaches the state that stepping through
  the TMS bits one by one reaches.
\<close>

theorem track_tms_run: "track_tms vec len s = prot.run s (vec_bits vec len)"
  by (rule track_tms_ok)

text \<open>
  C30. Five or more clocks with TMS high reset both TAP models from any state, whatever came before.
\<close>

theorem five_high_resets:
  "5 \<le> n \<Longrightarrow> fold (\<lambda>t s. jtag_step s t) (ts @ replicate n True) s = JTAG_TEST_LOGIC_RESET \<and>
   fold (\<lambda>t s. next_state s t) (ts @ replicate n True) s' = TEST_LOGIC_RESET"
  using prot.run_reset_anywhere[of n s ts] mps.run_reset_anywhere[of n s' ts]
  unfolding prot.run_def mps.run_def by blast

theorem five_high_resets_witness:
  "fold (\<lambda>t s. jtag_step s t) ([False] @ replicate 5 True) JTAG_PAUSE_IR = JTAG_TEST_LOGIC_RESET"
  using five_high_resets[of 5 "[False]" JTAG_PAUSE_IR TEST_LOGIC_RESET] by simp

text \<open>
  C29. The protocol layer's transition table and the adapter's \<open>switch\<close> describe the same
  machine: started in the same state they agree after every TMS sequence.
\<close>

theorem tap_models_agree:
  "tap_of (fold (\<lambda>t s. jtag_step s t) ts s) = fold (\<lambda>t s. next_state s t) ts (tap_of s)"
  using tap_of_run[of s ts] unfolding prot.run_def mps.run_def .

end
