(* ===== verification/Bit_Buffer.thy ===== *)
theory Bit_Buffer
  imports Xvc_Prelude
begin

text \<open>
  Bit access to byte buffers: \<open>get_bit\<close>, \<open>set_bit_c\<close> and \<open>copy_bits\<close> of
  \<^verbatim>\<open>src/mpsse_adapter.c\<close> and the copy routines of \<^verbatim>\<open>include/bit_copy.h\<close>. The locale
  \<open>bit_store\<close> states the read-after-write laws once and proves what a bit-copying loop does;
  byte lists with \<open>get_bit\<close> and \<open>set_bit_c\<close> are its interpretation. A C \<open>for\<close> loop over
  \<open>i\<close> is a \<open>fold\<close> over \<open>[0..<n]\<close>; pointer increments are offsets into the list. The indices of \<open>copy_bits\<close> are natural numbers: they are
  \<open>int\<close> in the source, and its callers pass offsets within buffers of less than \<open>2 ^ 28\<close> bytes. Those of
  \<^verbatim>\<open>bit_copy.h\<close> are \<open>unsigned int\<close> and 32-bit words here.
\<close>

section \<open>The routines\<close>

definition get_bit :: "u8 list \<Rightarrow> nat \<Rightarrow> bool" where
  "get_bit p idx = (p ! (idx div 8) AND push_bit (idx mod 8) 1 \<noteq> 0)"

definition set_bit_c :: "u8 list \<Rightarrow> nat \<Rightarrow> bool \<Rightarrow> u8 list" where
  "set_bit_c p idx b =
     (let octet = idx div 8 in
      if b then p[octet := p ! octet OR push_bit (idx mod 8) 1]
      else p[octet := p ! octet AND NOT (push_bit (idx mod 8) 1)])"

definition copy_bits :: "u8 list \<Rightarrow> nat \<Rightarrow> u8 list \<Rightarrow> nat \<Rightarrow> nat \<Rightarrow> bool \<Rightarrow> u8 list" where
  "copy_bits src fromIdx dst toIdx numBits duplicateLastBit =
     (let dst1 = fold (\<lambda>i d. set_bit_c d (toIdx + i) (get_bit src (fromIdx + i))) [0..<numBits] dst
      in if duplicateLastBit then set_bit_c dst1 (toIdx + numBits) (get_bit src (fromIdx + numBits - 1))
         else dst1)"

text \<open>
  The routines of \<^verbatim>\<open>bit_copy.h\<close> take \<open>unsigned int\<close> offsets and counts: their sums and products wrap
  at \<open>2 ^ 32\<close>. \<open>bit_copy\<close> first moves both pointers to whole bytes (\<open>src_base\<close>, \<open>dst_base\<close>) and
  keeps the offsets below eight; the aligned case copies bytes.
\<close>

definition bit_copy :: "u8 list \<Rightarrow> u32 \<Rightarrow> u8 list \<Rightarrow> u32 \<Rightarrow> u32 \<Rightarrow> u8 list" where
  "bit_copy dst dst_offset0 src src_offset0 bit_count =
     (let src_base = unat (src_offset0 div 8); dst_base = unat (dst_offset0 div 8);
          src_offset = src_offset0 mod 8; dst_offset = dst_offset0 mod 8
      in if src_offset = 0 \<and> dst_offset = 0 \<and> bit_count mod 8 = 0
         then fold (\<lambda>i d. d[dst_base + i := src ! (src_base + i)]) [0..<unat (bit_count div 8)] dst
         else fold (\<lambda>i d.
                let si = src_offset + of_nat i; di = dst_offset + of_nat i;
                    b = drop_bit (unat (si mod 8)) (src ! (src_base + unat (si div 8))) AND 1;
                    k = dst_base + unat (di div 8)
                in if b \<noteq> 0 then d[k := d ! k OR push_bit (unat (di mod 8)) 1]
                   else d[k := d ! k AND NOT (push_bit (unat (di mod 8)) 1)])
              [0..<unat bit_count] dst)"

text \<open>
  A response byte of a TMS command holds its \<open>bit_count\<close> bits at the most significant end; for more
  than eight the shift by \<open>8 - bit_count\<close>, an \<open>unsigned int\<close>, is beyond the width of its operand.
\<close>

definition bit_copy_tms :: "u8 list \<Rightarrow> u32 \<Rightarrow> u8 list \<Rightarrow> u32 \<Rightarrow> u8 list outcome" where
  "bit_copy_tms dst dst_offset0 src bit_count =
     (if bit_count > 8 then Undefined
      else let src_byte = drop_bit (unat (8 - bit_count)) (src ! 0);
               dst_base = unat (dst_offset0 div 8); dst_offset = dst_offset0 mod 8
           in Ret (fold (\<lambda>i d.
                let di = dst_offset + of_nat i; b = drop_bit i src_byte AND 1; k = dst_base + unat (di div 8)
                in if b \<noteq> 0 then d[k := d ! k OR push_bit (unat (di mod 8)) 1]
                   else d[k := d ! k AND NOT (push_bit (unat (di mod 8)) 1)])
              [0..<unat bit_count] dst))"

definition byte_copy :: "u8 list \<Rightarrow> u32 \<Rightarrow> u8 list \<Rightarrow> u32 \<Rightarrow> u8 list" where
  "byte_copy dst dst_offset src byte_count =
     (let total_bits = byte_count * 8
      in fold (\<lambda>i d.
            let src_bit = of_nat i :: u32; dst_bit = dst_offset + of_nat i;
                b = drop_bit (unat (src_bit mod 8)) (src ! unat (src_bit div 8)) AND 1; k = unat (dst_bit div 8)
            in if b \<noteq> 0 then d[k := d ! k OR push_bit (unat (dst_bit mod 8)) 1]
               else d[k := d ! k AND NOT (push_bit (unat (dst_bit mod 8)) 1)])
          [0..<unat total_bits] dst)"

section \<open>Bit stores\<close>

locale bit_store =
  fixes get :: "'b \<Rightarrow> nat \<Rightarrow> bool"
    and set :: "'b \<Rightarrow> nat \<Rightarrow> bool \<Rightarrow> 'b"
    and size :: "'b \<Rightarrow> nat"
  assumes size_set: "size (set b i v) = size b"
    and get_set: "i < size b \<Longrightarrow> get (set b i v) j = (if j = i then v else get b j)"
    and ext: "size a = size b \<Longrightarrow> (\<And>j. j < size a \<Longrightarrow> get a j = get b j) \<Longrightarrow> a = b"
begin

lemma size_copy_loop [simp]: "size (fold (\<lambda>i d. set d (to + i) (f i)) is b) = size b"
  by (induction "is" arbitrary: b) (simp_all add: size_set)

lemma get_copy_loop:
  assumes "to + n \<le> size b"
  shows "get (fold (\<lambda>i d. set d (to + i) (f i)) [0..<n] b) j =
         (if to \<le> j \<and> j < to + n then f (j - to) else get b j)"
  using assms by (induction n) (auto simp: get_set)

lemma copy_loop_eqI:
  assumes "to + n \<le> size b" "size d = size b"
    and "\<And>j. j < size b \<Longrightarrow> get d j = (if to \<le> j \<and> j < to + n then f (j - to) else get b j)"
  shows "fold (\<lambda>i d. set d (to + i) (f i)) [0..<n] b = d"
  by (rule ext) (use assms in \<open>auto simp: get_copy_loop\<close>)

end

section \<open>Byte lists as bit stores\<close>

lemma and_push_bit_neq_0: "k < 8 \<Longrightarrow> (b :: u8) AND push_bit k 1 \<noteq> 0 \<longleftrightarrow> bit b k"
  by (auto simp: byte_eq_iff_bits bit_and_iff bit_simps8)

lemma drop_and_1_neq_0: "drop_bit k (b :: u8) AND 1 \<noteq> 0 \<longleftrightarrow> bit b k"
  by (auto simp: byte_eq_iff_bits bit_and_iff bit_1_iff bit_drop_bit_eq)

lemma get_bit_eq: "get_bit p idx = bit (p ! (idx div 8)) (idx mod 8)"
  by (simp add: get_bit_def and_push_bit_neq_0 del: push_bit_of_1)

lemma length_set_bit_c [simp]: "length (set_bit_c p i v) = length p"
  by (simp add: set_bit_c_def Let_def)

lemma get_set_bit:
  assumes "i < 8 * length p"
  shows "get_bit (set_bit_c p i v) j = (if j = i then v else get_bit p j)"
proof (cases "j div 8 = i div 8")
  case True
  have "i div 8 < length p" using assms by (rule div8_less)
  moreover have "j mod 8 = i mod 8 \<longleftrightarrow> j = i" using True by (metis div_mult_mod_eq)
  ultimately show ?thesis using True
    by (auto simp: get_bit_eq set_bit_c_def Let_def bit_or_iff bit_and_iff bit_not_iff
        bit_simps8 possible_bit_word)
qed (auto simp: get_bit_eq set_bit_c_def Let_def)

lemma byte_list_eqI:
  assumes "length a = length b" "\<And>j. j < 8 * length a \<Longrightarrow> get_bit a j = get_bit b j"
  shows "a = b"
proof (rule nth_equalityI)
  fix k assume k: "k < length a"
  have "bit (a ! k) i = bit (b ! k) i" if "i < 8" for i
    using assms(2)[of "8 * k + i"] k that by (simp add: get_bit_eq)
  then show "a ! k = b ! k" by (simp add: byte_eq_iff_bits)
qed (rule assms(1))

interpretation bytes: bit_store get_bit set_bit_c "\<lambda>p. 8 * length p"
  by unfold_locales (auto simp: get_set_bit intro: byte_list_eqI)

lemma set_bit_if:
  "(if b then d[idx div 8 := d ! (idx div 8) OR push_bit (idx mod 8) 1]
    else d[idx div 8 := d ! (idx div 8) AND NOT (push_bit (idx mod 8) 1)]) = set_bit_c d idx b"
  by (simp add: set_bit_c_def Let_def)

lemma div8_split: "(n :: nat) div 8 + (n mod 8 + i) div 8 = (n + i) div 8" "(n mod 8 + i) mod 8 = (n + i) mod 8"
  by (simp_all add: div_add1_eq[of n i] div_add1_eq[of "n mod 8" i] mod_add_left_eq)

section \<open>What the routines copy\<close>

lemma length_copy_bits [simp]: "length (copy_bits src f dst t n False) = length dst"
  using bytes.size_copy_loop[of t "\<lambda>i. get_bit src (f + i)" "[0..<n]" dst]
  by (simp add: copy_bits_def del: bytes.size_copy_loop)

lemma get_copy_bits:
  assumes "t + n \<le> 8 * length dst"
  shows "get_bit (copy_bits src f dst t n False) j =
         (if t \<le> j \<and> j < t + n then get_bit src (f + (j - t)) else get_bit dst j)"
  by (simp add: copy_bits_def bytes.get_copy_loop[OF assms])

text \<open>Sums that do not wrap.\<close>

lemma unat_mod8 [simp]: "unat ((x :: u32) mod 8) = unat x mod 8" "unat ((x :: u32) div 8) = unat x div 8"
  by (simp_all add: unat_mod_distrib unat_div_distrib)

lemma unat_plus_nat: "unat (x :: u32) + i < 2 ^ 32 \<Longrightarrow> unat (x + of_nat i) = unat x + i"
  by (simp add: unat_word_ariths unat_of_nat take_bit_nat_eq_self)

lemma mod8_no_wrap: "unat (x :: u32) mod 8 + i < 2 ^ 32 \<Longrightarrow> unat (x mod 8 + of_nat i) = unat x mod 8 + i"
  using unat_plus_nat[of "x mod 8" i] by simp

lemma bit_copy_slow:
  fixes so d0 :: u32
  assumes "unat so mod 8 + n \<le> 2 ^ 32" "unat d0 mod 8 + n \<le> 2 ^ 32"
  shows "fold (\<lambda>i d.
      let si = so mod 8 + of_nat i; di = d0 mod 8 + of_nat i;
          b = drop_bit (unat (si mod 8)) (src ! (unat (so div 8) + unat (si div 8))) AND 1;
          k = unat (d0 div 8) + unat (di div 8)
      in if b \<noteq> 0 then d[k := d ! k OR push_bit (unat (di mod 8)) 1]
         else d[k := d ! k AND NOT (push_bit (unat (di mod 8)) 1)]) [0..<n] dst
   = fold (\<lambda>i d. set_bit_c d (unat d0 + i) (get_bit src (unat so + i))) [0..<n] dst"
proof (rule fold_cong)
  fix i assume "i \<in> set [0..<n]"
  then have "unat (so mod 8 + of_nat i) = unat so mod 8 + i" "unat (d0 mod 8 + of_nat i) = unat d0 mod 8 + i"
    using assms mod8_no_wrap[of so i] mod8_no_wrap[of d0 i] by auto
  then show "(\<lambda>d. let si = so mod 8 + of_nat i; di = d0 mod 8 + of_nat i;
          b = drop_bit (unat (si mod 8)) (src ! (unat (so div 8) + unat (si div 8))) AND 1;
          k = unat (d0 div 8) + unat (di div 8)
      in if b \<noteq> 0 then d[k := d ! k OR push_bit (unat (di mod 8)) 1]
         else d[k := d ! k AND NOT (push_bit (unat (di mod 8)) 1)]) =
    (\<lambda>d. set_bit_c d (unat d0 + i) (get_bit src (unat so + i)))"
    by (simp only: Let_def unat_mod8 drop_and_1_neq_0 div8_split set_bit_if get_bit_eq)
qed simp_all

lemma bit_copy_fast:
  assumes "8 * (db + n) \<le> 8 * length dst"
  shows "fold (\<lambda>i d. d[db + i := src ! (sb + i)]) [0..<n] dst =
         fold (\<lambda>i d. set_bit_c d (8 * db + i) (get_bit src (8 * sb + i))) [0..<8 * n] dst"
    (is "?fast n = ?slow n")
proof -
  have nth: "length (?fast m) = length dst \<and>
      (\<forall>k < length dst. ?fast m ! k = (if db \<le> k \<and> k < db + m then src ! (sb + (k - db)) else dst ! k))"
    if "m \<le> n" for m
    using that assms by (induction m) (auto simp: nth_list_update)
  show ?thesis
  proof (rule sym, rule bytes.copy_loop_eqI)
    fix j assume j: "j < 8 * length dst"
    have "(8 * sb + (j - 8 * db)) div 8 = sb + (j div 8 - db)" "(8 * sb + (j - 8 * db)) mod 8 = j mod 8"
      if "8 * db \<le> j"
      using that by (auto simp: le_iff_add)
    moreover have "8 * db \<le> j \<longleftrightarrow> db \<le> j div 8" "j < 8 * db + 8 * n \<longleftrightarrow> j div 8 < db + n" by linarith+
    ultimately show "get_bit (?fast n) j =
        (if 8 * db \<le> j \<and> j < 8 * db + 8 * n then get_bit src (8 * sb + (j - 8 * db)) else get_bit dst j)"
      using nth[of n] j by (auto simp: get_bit_eq)
  qed (use assms nth[of n] in auto)
qed

lemma bit_copy_eq_copy_bits:
  assumes "unat dst_offset + unat n \<le> 8 * length dst" "8 * length dst \<le> 2 ^ 32" "unat src_offset mod 8 + unat n \<le> 2 ^ 32"
  shows "bit_copy dst dst_offset src src_offset n = copy_bits src (unat src_offset) dst (unat dst_offset) (unat n) False"
proof -
  have z: "(x :: u32) mod 8 = 0 \<longleftrightarrow> unat x mod 8 = 0" for x by (metis unat_mod8(1) unat_eq_zero)
  show ?thesis
  proof (cases "unat src_offset mod 8 = 0 \<and> unat dst_offset mod 8 = 0 \<and> unat n mod 8 = 0")
    case True
    then obtain so d0 m where eq: "unat src_offset = 8 * so" "unat dst_offset = 8 * d0" "unat n = 8 * m"
      by (auto simp: mod_eq_0_iff_dvd elim!: dvdE)
    show ?thesis
      using assms(1) bit_copy_fast[of d0 m dst src so] by (simp add: eq z bit_copy_def copy_bits_def Let_def)
  next
    case False
    have "unat dst_offset mod 8 \<le> unat dst_offset" by simp
    with assms(1,2) have "unat dst_offset mod 8 + unat n \<le> 2 ^ 32" by linarith
    note bit_copy_slow[OF assms(3) this, of src dst]
    then show ?thesis using False
      by (simp only: bit_copy_def copy_bits_def Let_def z if_False if_True simp_thms)
  qed
qed

lemma bit_copy_tms_eq_copy_bits:
  assumes "n \<le> 8"
  shows "bit_copy_tms dst dst_offset src n = Ret (copy_bits src (8 - unat n) dst (unat dst_offset) (unat n) False)"
proof -
  have n: "unat n \<le> 8" "unat (8 - n) = 8 - unat n" using assms by (simp_all add: word_le_nat_alt unat_sub)
  have "fold (\<lambda>i d.
        let di = dst_offset mod 8 + of_nat i; b = drop_bit i (drop_bit (8 - unat n) (src ! 0)) AND 1; k = unat (dst_offset div 8) + unat (di div 8)
        in if b \<noteq> 0 then d[k := d ! k OR push_bit (unat (di mod 8)) 1]
           else d[k := d ! k AND NOT (push_bit (unat (di mod 8)) 1)]) [0..<unat n] dst =
    fold (\<lambda>i d. set_bit_c d (unat dst_offset + i) (get_bit src (8 - unat n + i))) [0..<unat n] dst"
  proof (rule fold_cong)
    fix i assume i: "i \<in> set [0..<unat n]"
    then have w: "unat (dst_offset mod 8 + of_nat i) = unat dst_offset mod 8 + i" using n(1) by (intro mod8_no_wrap) simp
    have b: "bit (drop_bit (8 - unat n) (src ! 0)) i = get_bit src (8 - unat n + i)" using i n(1) by (simp add: get_bit_eq bit_drop_bit_eq)
    show "(\<lambda>d. let di = dst_offset mod 8 + of_nat i; b = drop_bit i (drop_bit (8 - unat n) (src ! 0)) AND 1; k = unat (dst_offset div 8) + unat (di div 8)
        in if b \<noteq> 0 then d[k := d ! k OR push_bit (unat (di mod 8)) 1]
           else d[k := d ! k AND NOT (push_bit (unat (di mod 8)) 1)]) =
      (\<lambda>d. set_bit_c d (unat dst_offset + i) (get_bit src (8 - unat n + i)))"
      by (simp only: Let_def unat_mod8 drop_and_1_neq_0 w div8_split set_bit_if b)
  qed simp_all
  then show ?thesis using assms
    by (simp only: bit_copy_tms_def copy_bits_def Let_def n(2) if_False not_less [symmetric])
qed

lemma byte_copy_eq_copy_bits:
  assumes "unat dst_offset + 8 * unat n \<le> 8 * length dst" "8 * length dst < 2 ^ 32"
  shows "byte_copy dst dst_offset src n = copy_bits src 0 dst (unat dst_offset) (8 * unat n) False"
proof -
  have t: "unat (n * 8) = 8 * unat n" using assms by (simp add: unat_word_ariths mult.commute)
  have "fold (\<lambda>i d.
        let src_bit = of_nat i :: u32; dst_bit = dst_offset + of_nat i;
            b = drop_bit (unat (src_bit mod 8)) (src ! unat (src_bit div 8)) AND 1; k = unat (dst_bit div 8)
        in if b \<noteq> 0 then d[k := d ! k OR push_bit (unat (dst_bit mod 8)) 1]
           else d[k := d ! k AND NOT (push_bit (unat (dst_bit mod 8)) 1)]) [0..<8 * unat n] dst =
    fold (\<lambda>i d. set_bit_c d (unat dst_offset + i) (get_bit src (0 + i))) [0..<8 * unat n] dst"
  proof (rule fold_cong)
    fix i assume "i \<in> set [0..<8 * unat n]"
    then have "unat (dst_offset + of_nat i) = unat dst_offset + i" "unat (of_nat i :: u32) = i"
      using assms unat_plus_nat[of dst_offset i] unat_plus_nat[of 0 i] by auto
    then show "(\<lambda>d. let src_bit = of_nat i :: u32; dst_bit = dst_offset + of_nat i;
            b = drop_bit (unat (src_bit mod 8)) (src ! unat (src_bit div 8)) AND 1; k = unat (dst_bit div 8)
        in if b \<noteq> 0 then d[k := d ! k OR push_bit (unat (dst_bit mod 8)) 1]
           else d[k := d ! k AND NOT (push_bit (unat (dst_bit mod 8)) 1)]) =
      (\<lambda>d. set_bit_c d (unat dst_offset + i) (get_bit src (0 + i)))"
      by (simp only: Let_def unat_mod8 drop_and_1_neq_0 set_bit_if get_bit_eq add_0)
  qed simp_all
  then show ?thesis by (simp only: byte_copy_def copy_bits_def Let_def t if_False)
qed

text \<open>
  C31. The three copy routines of \<^verbatim>\<open>bit_copy.h\<close>, with their byte-aligned fast path, their pointer
  normalisation and their 32-bit arithmetic, copy the same bits as the plain bit loop \<open>copy_bits\<close>,
  for ranges within a destination of less than \<open>2 ^ 32\<close> bits (512 MiB) and, for \<open>bit_copy\<close>, a bit
  count that does not wrap past the source's bit offset; \<open>bit_copy_tms\<close> for up to eight bits. A
  \<open>byte_copy\<close> of \<open>2 ^ 29\<close> bytes wraps to none.
\<close>

theorem bit_copy_routines:
  assumes "8 * length dst < 2 ^ 32"
  shows "(unat dst_offset + unat n \<le> 8 * length dst \<and> unat src_offset mod 8 + unat n \<le> 2 ^ 32 \<longrightarrow>
      bit_copy dst dst_offset src src_offset n = copy_bits src (unat src_offset) dst (unat dst_offset) (unat n) False) \<and>
    (n \<le> 8 \<longrightarrow> bit_copy_tms dst dst_offset src n = Ret (copy_bits src (8 - unat n) dst (unat dst_offset) (unat n) False)) \<and>
    (unat dst_offset + 8 * unat n \<le> 8 * length dst \<longrightarrow>
      byte_copy dst dst_offset src n = copy_bits src 0 dst (unat dst_offset) (8 * unat n) False) \<and>
    byte_copy dst dst_offset src (2 ^ 29) = dst"
  using assms bit_copy_eq_copy_bits[of dst_offset n dst src_offset src] bit_copy_tms_eq_copy_bits[of n dst dst_offset src]
    byte_copy_eq_copy_bits[of dst_offset n dst src] by (auto simp: byte_copy_def)

theorem bit_copy_routines_witness:
  "bit_copy [0, 0, 0] 8 [1, 2] 0 16 = copy_bits [1, 2] 0 [0, 0, 0] 8 16 False"
  using bit_copy_routines[of "[0, 0, 0]" 8 16 0 "[1, 2]"] by simp

text \<open>
  C32. \<open>copy_bits\<close> writes exactly the addressed range: inside it the source bits appear in
  order, outside it nothing changes.
\<close>

theorem copy_bits_range:
  "t + n \<le> 8 * length dst \<Longrightarrow>
   get_bit (copy_bits src f dst t n False) j = (if t \<le> j \<and> j < t + n then get_bit src (f + (j - t)) else get_bit dst j)"
  by (rule get_copy_bits)

theorem copy_bits_range_witness: "get_bit (copy_bits [0xFF] 0 [0, 0] 3 4 False) 5 = get_bit [0xFF] 2"
  using copy_bits_range[of 3 4 "[0, 0]" "[0xFF]" 0 5] by (simp add: numeral_2_eq_2)

end
