(* ===== verification/Mpsse_Device.thy ===== *)
theory Mpsse_Device
  imports Jtag_Tap Bit_Buffer
begin

text \<open>
  What lies below the adapter and is not part of the sources: the D2XX driver and the MPSSE
  engine of the FTDI chip. The driver is a parameter, a record of the calls the adapter makes.
  \<open>chip_step\<close> writes down the documented command set for the opcodes the adapter emits (each
  opcode constant carries its meaning as a comment in \<^verbatim>\<open>src/mpsse_adapter.c\<close>): it is used in
  hypotheses only (\<open>ideal_driver\<close>), never by the model of the program. The JTAG chain behind
  the chip is a parameter \<open>clk\<close>: from its state, TMS and TDI it gives the next state and TDO.
\<close>

section \<open>Opcodes\<close>

definition OP_SET_DBUS_LOBYTE :: u8 where [simp]: "OP_SET_DBUS_LOBYTE = 0x80"
definition OP_SET_TCK_DIVISOR :: u8 where [simp]: "OP_SET_TCK_DIVISOR = 0x86"
definition OP_DISABLE_CLK_DIVIDE_BY_5 :: u8 where [simp]: "OP_DISABLE_CLK_DIVIDE_BY_5 = 0x8A"
definition OP_LOOPBACK_OFF :: u8 where [simp]: "OP_LOOPBACK_OFF = 0x85"
definition OP_CLK_DATA_BYTES_OUT_NEG_IN_NEG :: u8 where [simp]: "OP_CLK_DATA_BYTES_OUT_NEG_IN_NEG = 0x3D"
definition OP_CLK_DATA_BITS_OUT_NEG_IN_NEG :: u8 where [simp]: "OP_CLK_DATA_BITS_OUT_NEG_IN_NEG = 0x3F"
definition OP_CLK_TMS_NO_READ :: u8 where [simp]: "OP_CLK_TMS_NO_READ = 0x4B"
definition OP_CLK_TMS_READ_NEG :: u8 where [simp]: "OP_CLK_TMS_READ_NEG = 0x6F"

section \<open>The driver\<close>

text \<open>Every call returns a status (\<open>FT_OK\<close> is 0), its outputs and the driver's next state.\<close>

definition FT_OK :: nat where [simp]: "FT_OK = 0"

record 'd ft_driver =
  ft_create_device_info_list :: "'d \<Rightarrow> nat \<times> u32 \<times> 'd"
  ft_open_ex :: "'d \<Rightarrow> string \<Rightarrow> nat \<times> 'd"
  ft_open :: "'d \<Rightarrow> int \<Rightarrow> nat \<times> 'd"
  ft_setup_call :: "'d \<Rightarrow> string \<Rightarrow> nat \<times> 'd" \<comment> \<open>reset, purge, USB parameters, characters, timeouts\<close>
  ft_set_bit_mode :: "'d \<Rightarrow> u8 \<Rightarrow> u8 \<Rightarrow> nat \<times> 'd"
  ft_get_device_info :: "'d \<Rightarrow> nat \<times> 'd"
  ft_close :: "'d \<Rightarrow> 'd"
  ft_write :: "'d \<Rightarrow> u8 list \<Rightarrow> nat \<times> u32 \<times> 'd"
  ft_get_queue_status :: "'d \<Rightarrow> nat \<times> u32 \<times> 'd"
  ft_read :: "'d \<Rightarrow> u32 \<Rightarrow> nat \<times> u8 list \<times> 'd"

section \<open>The MPSSE engine\<close>

type_synonym 't clocked = "'t \<Rightarrow> bool \<Rightarrow> bool \<Rightarrow> 't \<times> bool"

datatype chip_phase = Ready | Operand1 u8 | Operand2 u8 u8 | Data nat | Bad_Command

record 't chip =
  target :: 't          \<comment> \<open>the JTAG chain\<close>
  tms_pin :: bool
  tdo_reg :: u8         \<comment> \<open>TDO bits enter at the most significant end\<close>
  phase :: chip_phase
  divisor :: nat
  outq :: "u8 list"     \<comment> \<open>response bytes not read yet\<close>

definition chip_clock :: "'t clocked \<Rightarrow> bool \<times> bool \<Rightarrow> 't chip \<Rightarrow> 't chip" where
  "chip_clock clk = (\<lambda>(tms, tdi) c.
     case clk (target c) tms tdi of
       (t', tdo) \<Rightarrow> c\<lparr>target := t', tms_pin := tms,
                      tdo_reg := drop_bit 1 (tdo_reg c) OR push_bit 7 (of_bool tdo)\<rparr>)"

definition chip_clocks :: "'t clocked \<Rightarrow> (bool \<times> bool) list \<Rightarrow> 't chip \<Rightarrow> 't chip" where
  "chip_clocks clk cs c = fold (chip_clock clk) cs c"

definition emit :: "'t chip \<Rightarrow> 't chip" where
  "emit c = c\<lparr>outq := outq c @ [tdo_reg c]\<rparr>"

definition tms_cycles :: "u8 \<Rightarrow> nat \<Rightarrow> (bool \<times> bool) list" where
  "tms_cycles b n = map (\<lambda>i. (bit b i, bit b 7)) [0..<n]"

definition data_cycles :: "bool \<Rightarrow> u8 \<Rightarrow> nat \<Rightarrow> (bool \<times> bool) list" where
  "data_cycles tms b n = map (\<lambda>i. (tms, bit b i)) [0..<n]"

definition exec_command :: "'t clocked \<Rightarrow> u8 \<Rightarrow> u8 \<Rightarrow> u8 \<Rightarrow> 't chip \<Rightarrow> 't chip" where
  "exec_command clk op a b c0 =
     (let c = c0\<lparr>phase := Ready\<rparr>; n = Suc (unat a) in
      if op = OP_CLK_TMS_NO_READ then chip_clocks clk (tms_cycles b n) c
      else if op = OP_CLK_TMS_READ_NEG then emit (chip_clocks clk (tms_cycles b n) c)
      else if op = OP_CLK_DATA_BITS_OUT_NEG_IN_NEG then emit (chip_clocks clk (data_cycles (tms_pin c) b n) c)
      else if op = OP_CLK_DATA_BYTES_OUT_NEG_IN_NEG then c\<lparr>phase := Data (unat a + 256 * unat b + 1)\<rparr>
      else if op = OP_SET_TCK_DIVISOR then c\<lparr>divisor := unat a + 256 * unat b\<rparr>
      else c\<lparr>tms_pin := bit a 3\<rparr>)"

definition two_operands :: "u8 \<Rightarrow> bool" where
  "two_operands op \<longleftrightarrow> op = OP_CLK_TMS_NO_READ \<or> op = OP_CLK_TMS_READ_NEG \<or> op = OP_CLK_DATA_BITS_OUT_NEG_IN_NEG
     \<or> op = OP_CLK_DATA_BYTES_OUT_NEG_IN_NEG \<or> op = OP_SET_TCK_DIVISOR \<or> op = OP_SET_DBUS_LOBYTE"

fun chip_step :: "'t clocked \<Rightarrow> u8 \<Rightarrow> 't chip \<Rightarrow> 't chip" where
  "chip_step clk b c =
     (case phase c of
        Ready \<Rightarrow> (if two_operands b then c\<lparr>phase := Operand1 b\<rparr>
                  else if b = OP_LOOPBACK_OFF \<or> b = OP_DISABLE_CLK_DIVIDE_BY_5 then c
                  else c\<lparr>phase := Bad_Command\<rparr>)
      | Operand1 op \<Rightarrow> c\<lparr>phase := Operand2 op b\<rparr>
      | Operand2 op a \<Rightarrow> exec_command clk op a b c
      | Data k \<Rightarrow> (emit (chip_clocks clk (data_cycles (tms_pin c) b 8) c))
                     \<lparr>phase := (if k \<le> 1 then Ready else Data (k - 1))\<rparr>
      | Bad_Command \<Rightarrow> c)"

declare chip_step.simps [simp del]

definition chip_run :: "'t clocked \<Rightarrow> u8 list \<Rightarrow> 't chip \<Rightarrow> 't chip" where
  "chip_run clk bs c = fold (chip_step clk) bs c"

section \<open>A responsive driver\<close>

text \<open>
  \<open>chip_of\<close> reads the chip's state off the driver's. Documented behaviour of a working
  connection: \<open>FT_Write\<close> delivers all bytes to the chip, \<open>FT_GetQueueStatus\<close> reports the
  response bytes, \<open>FT_Read\<close> of at most that many returns them in order.
\<close>

definition ideal_driver :: "'t clocked \<Rightarrow> ('d \<Rightarrow> 't chip) \<Rightarrow> 'd ft_driver \<Rightarrow> bool" where
  "ideal_driver clk chip_of drv \<longleftrightarrow>
     (\<forall>d bs. length bs < 2 ^ 31 \<longrightarrow>
        (\<exists>d'. ft_write drv d bs = (FT_OK, of_nat (length bs), d') \<and> chip_of d' = chip_run clk bs (chip_of d))) \<and>
     (\<forall>d. length (outq (chip_of d)) < 2 ^ 31 \<longrightarrow>
        (\<exists>d'. ft_get_queue_status drv d = (FT_OK, of_nat (length (outq (chip_of d))), d') \<and> chip_of d' = chip_of d)) \<and>
     (\<forall>d n. unat n \<le> length (outq (chip_of d)) \<longrightarrow>
        (\<exists>d'. ft_read drv d n = (FT_OK, take (unat n) (outq (chip_of d)), d') \<and>
              chip_of d' = (chip_of d)\<lparr>outq := drop (unat n) (outq (chip_of d))\<rparr>))"

section \<open>How the chip computes\<close>

lemma chip_run_Nil [simp]: "chip_run clk [] c = c"
  and chip_run_Cons [simp]: "chip_run clk (b # bs) c = chip_run clk bs (chip_step clk b c)"
  and chip_run_append [simp]: "chip_run clk (bs @ cs) c = chip_run clk cs (chip_run clk bs c)"
  by (simp_all add: chip_run_def)

lemma chip_clocks_Nil [simp]: "chip_clocks clk [] c = c"
  and chip_clocks_Cons [simp]: "chip_clocks clk (x # xs) c = chip_clocks clk xs (chip_clock clk x c)"
  and chip_clocks_append [simp]: "chip_clocks clk (xs @ ys) c = chip_clocks clk ys (chip_clocks clk xs c)"
  by (simp_all add: chip_clocks_def)

lemma chip_clock_frame [simp]:
  "phase (chip_clock clk x c) = phase c" "outq (chip_clock clk x c) = outq c"
  "divisor (chip_clock clk x c) = divisor c"
  by (simp_all add: chip_clock_def split: prod.splits)

lemma chip_clocks_frame [simp]:
  "phase (chip_clocks clk xs c) = phase c" "outq (chip_clocks clk xs c) = outq c"
  "divisor (chip_clocks clk xs c) = divisor c"
  by (induction xs arbitrary: c) simp_all

lemma chip_clock_upd:
  "chip_clock clk x (c\<lparr>phase := p\<rparr>) = (chip_clock clk x c)\<lparr>phase := p\<rparr>"
  "chip_clock clk x (c\<lparr>outq := q\<rparr>) = (chip_clock clk x c)\<lparr>outq := q\<rparr>"
  by (simp_all add: chip_clock_def split: prod.splits)

lemma chip_clocks_upd:
  "chip_clocks clk xs (c\<lparr>phase := p\<rparr>) = (chip_clocks clk xs c)\<lparr>phase := p\<rparr>"
  "chip_clocks clk xs (c\<lparr>outq := q\<rparr>) = (chip_clocks clk xs c)\<lparr>outq := q\<rparr>"
  by (induction xs arbitrary: c) (simp_all add: chip_clock_upd)

text \<open>Responses are appended and never looked at: a run from a non-empty queue.\<close>

lemma emit_upd: "emit (c\<lparr>outq := q\<rparr>) = (emit (c\<lparr>outq := []\<rparr>))\<lparr>outq := q @ outq (emit (c\<lparr>outq := []\<rparr>))\<rparr>"
  by (simp add: emit_def)

lemma chip_step_outq:
  "chip_step clk b (c\<lparr>outq := q\<rparr>) =
     (let c' = chip_step clk b (c\<lparr>outq := []\<rparr>) in c'\<lparr>outq := q @ outq c'\<rparr>)"
  by (simp add: chip_step.simps Let_def exec_command_def emit_def chip_clocks_upd split: chip_phase.splits)

lemma chip_run_outq:
  "chip_run clk bs (c\<lparr>outq := q\<rparr>) =
     (let c' = chip_run clk bs (c\<lparr>outq := []\<rparr>) in c'\<lparr>outq := q @ outq c'\<rparr>)"
proof (induction bs arbitrary: c q)
  case (Cons b bs)
  define c1 where "c1 = chip_step clk b (c\<lparr>outq := []\<rparr>)"
  have "chip_run clk bs (c1\<lparr>outq := q @ outq c1\<rparr>) =
     (chip_run clk bs (c1\<lparr>outq := []\<rparr>))\<lparr>outq := q @ outq c1 @ outq (chip_run clk bs (c1\<lparr>outq := []\<rparr>))\<rparr>"
    by (subst Cons.IH) (simp add: Let_def)
  moreover have "chip_run clk bs c1 =
     (chip_run clk bs (c1\<lparr>outq := []\<rparr>))\<lparr>outq := outq c1 @ outq (chip_run clk bs (c1\<lparr>outq := []\<rparr>))\<rparr>"
    using Cons.IH[where c = c1 and q = "outq c1"] by (simp add: Let_def)
  ultimately show ?case
    using chip_step_outq[where c = c and b = b and q = q] by (simp add: Let_def c1_def)
qed simp

end
