(* ===== verification/Mpsse_Buffer.thy ===== *)
theory Mpsse_Buffer
  imports Mpsse_Device C_Lib
begin

text \<open>
  The command buffer of \<^verbatim>\<open>src/mpsse_adapter.c\<close>: the observer pool, the receive observers that
  carry response bits into the caller's TDO vector, \<open>mpsse_buffer_flush\<close> with its polling read
  loop, and the append operations that flush when a buffer is full or near full.
  \<open>tx_buffer\<close> is the filled part of the C array, so \<open>tx_num_bytes\<close> is its length; the observer
  list is the C linked list, each node with the offset of its data in the receive buffer.
  Destination pointers are a block address and an offset into a store of live blocks, so a write
  through a pointer to freed memory or past a block's end is \<open>Undefined\<close>. Log output and the
  timing counters are left out; the command dump file, which nothing in the program opens, is in
  \<open>Mpsse_Dump\<close>.
\<close>

section \<open>State\<close>

type_synonym memory = "nat \<rightharpoonup> u8 list"

datatype rx_observer =
    Bit_Copier nat nat nat nat        \<comment> \<open>\<open>from_bit\<close>, \<open>dst\<close>, \<open>to_bit\<close>, \<open>num_bits\<close>\<close>
  | Byte_Copier nat nat nat           \<comment> \<open>\<open>dst\<close> block and offset, \<open>num_bytes\<close>\<close>
  | Bulk_Byte_Copier nat nat nat nat  \<comment> \<open>\<open>dst\<close> block and offset, \<open>total_bytes\<close>, \<open>bytes_copied\<close>\<close>

text \<open>
  The statistics \<open>total_flushes\<close> and \<open>failed_flushes\<close> are \<open>int\<close> in the source and would overflow
  after \<open>2 ^ 31\<close> flushes; here they are unbounded, and no decision depends on them. The
  \<open>current_bit_offset\<close> is at most the bit count of a scan.
\<close>

record mpsse_context =
  ft_handle :: bool                   \<comment> \<open>whether the handle is not NULL\<close>
  tx_buffer :: "u8 list"
  max_tx_buffer_bytes :: nat
  rx_num_bytes :: nat
  max_rx_buffer_bytes :: nat
  rx_observers :: "(nat \<times> rx_observer) list"
  tap_state :: jtag_state
  last_tdi :: bool
  mpsse_is_open :: bool
  mpsse_verbose :: int
  chip_buffer_size :: nat
  pool_used :: nat
  current_bit_offset :: nat
  total_flushes :: nat
  failed_flushes :: nat
  mpsse_error :: string

record 'd mpsse_io =
  mctx :: mpsse_context
  mdev :: 'd
  mmem :: memory

section \<open>Observer pool\<close>

definition MEMORY_POOL_BYTES :: nat where "MEMORY_POOL_BYTES = 65536 * 256"

text \<open>The \<open>sizeof\<close> values of an LP64 platform.\<close>

definition sizeof_rx_observer_node :: nat where [simp]: "sizeof_rx_observer_node = 32"
definition sizeof_bit_copier_extra :: nat where [simp]: "sizeof_bit_copier_extra = 24"
definition sizeof_byte_copier_extra :: nat where [simp]: "sizeof_byte_copier_extra = 16"
definition sizeof_bulk_byte_copier_extra :: nat where [simp]: "sizeof_bulk_byte_copier_extra = 16"

definition pool_alloc :: "nat \<Rightarrow> mpsse_context \<Rightarrow> mpsse_context option" where
  "pool_alloc sz c =
     (if pool_used c + sz > MEMORY_POOL_BYTES then None
      else Some (c\<lparr>pool_used := pool_used c + sz\<rparr>))"

definition pool_reset :: "mpsse_context \<Rightarrow> mpsse_context" where
  "pool_reset c = c\<lparr>pool_used := 0\<rparr>"

section \<open>Observers\<close>

definition mem_copy :: "nat \<Rightarrow> nat \<Rightarrow> u8 list \<Rightarrow> memory \<Rightarrow> memory outcome" where
  "mem_copy blk off bs m =
     (case m blk of
        None \<Rightarrow> Undefined
      | Some d \<Rightarrow> if off + length bs \<le> length d
                  then Ret (m(blk \<mapsto> take off d @ bs @ drop (off + length bs) d))
                  else Undefined)"

text \<open>
  One observer, on the part of the received bytes its \<open>data\<close> pointer designates. Reading past
  the bytes the device delivered is \<open>Undefined\<close>.
\<close>

fun run_observer :: "u8 list \<Rightarrow> rx_observer \<Rightarrow> memory \<Rightarrow> memory outcome" where
  "run_observer rxData (Bit_Copier from_bit dst to_bit num_bits) m =
     (case m dst of
        None \<Rightarrow> Undefined
      | Some d \<Rightarrow> if from_bit + num_bits \<le> 8 * length rxData \<and> to_bit + num_bits \<le> 8 * length d
                  then Ret (m(dst \<mapsto> copy_bits rxData from_bit d to_bit num_bits False))
                  else Undefined)"
| "run_observer rxData (Byte_Copier dst off num_bytes) m =
     (if num_bytes \<le> length rxData then mem_copy dst off (take num_bytes rxData) m else Undefined)"
| "run_observer rxData (Bulk_Byte_Copier dst off total_bytes bytes_copied) m =
     (if total_bytes - bytes_copied \<le> length rxData
      then mem_copy dst (off + bytes_copied) (take (total_bytes - bytes_copied) rxData) m
      else Undefined)"

fun run_observers :: "u8 list \<Rightarrow> (nat \<times> rx_observer) list \<Rightarrow> memory \<Rightarrow> memory outcome" where
  "run_observers rx [] m = Ret m"
| "run_observers rx ((data, ob) # obs) m = bind_out (run_observer (drop data rx) ob m) (run_observers rx obs)"

section \<open>Flush\<close>

definition flush_write :: "'d ft_driver \<Rightarrow> 'd mpsse_io \<Rightarrow> (int \<times> 'd mpsse_io) outcome" where
  "flush_write drv io =
     (let c = mctx io; tx_num_bytes = length (tx_buffer c) in
      if tx_num_bytes > 0 then
        (case ft_write drv (mdev io) (tx_buffer c) of
           (ftStatus, bytesWritten, d) \<Rightarrow>
             let c1 = c\<lparr>current_bit_offset := current_bit_offset c + (tx_num_bytes + 1) div 2 * 8,
                        total_flushes := total_flushes c + 1\<rparr> in
             if ftStatus \<noteq> FT_OK then
               Ret (-1, io\<lparr>mctx := c1\<lparr>failed_flushes := failed_flushes c1 + 1,
                                       mpsse_error := ''FT_Write failed: '' @ show_nat ftStatus\<rparr>,
                           mdev := d\<rparr>)
             else if sint bytesWritten \<noteq> int tx_num_bytes then
               Ret (-1, io\<lparr>mctx := c1\<lparr>failed_flushes := failed_flushes c1 + 1,
                                       mpsse_error := ''Partial write: '' @ show_nat (unat bytesWritten)
                                                       @ ''/'' @ show_nat tx_num_bytes\<rparr>,
                           mdev := d\<rparr>)
             else Ret (0, io\<lparr>mctx := c1\<lparr>tx_buffer := []\<rparr>, mdev := d\<rparr>))
      else Ret (0, io))"

datatype 'd read_result = Read_Stopped 'd "u8 list" | Read_Failed 'd | Read_Overrun

text \<open>
  The polling loop: \<open>bytes\<close> is what has been read into \<open>rx_buffer\<close> so far. C's \<open>min\<close> takes
  \<open>int\<close>s, so both unsigned arguments are read as signed. A driver that hands over more bytes
  than the buffer holds overruns it. The loop ends when the bytes are there, when a call fails
  or when the time budget is used up; \<open>None\<close> is a run that never ends.
\<close>

partial_function (option) read_loop ::
  "'d ft_driver \<Rightarrow> nat \<Rightarrow> nat \<Rightarrow> 'd \<Rightarrow> u8 list \<Rightarrow> int \<Rightarrow> nat \<Rightarrow> 'd read_result option" where
  "read_loop drv need room d bytes timeout_us spin_count =
     (if length bytes < need \<and> timeout_us > 0 then
        (case ft_get_queue_status drv d of
           (ftStatus, rxQueue, d1) \<Rightarrow>
             if ftStatus \<noteq> FT_OK then Some (Read_Failed d1)
             else if rxQueue > 0 then
               (let want = of_nat (need - length bytes) :: u32;
                    toRead = (if sint rxQueue < sint want then rxQueue else want)
                in case ft_read drv d1 toRead of
                     (ftStatus2, data, d2) \<Rightarrow>
                       if ftStatus2 \<noteq> FT_OK then Some (Read_Failed d2)
                       else if length bytes + length data > room then Some Read_Overrun
                       else read_loop drv need room d2 (bytes @ data) timeout_us 0)
             else if spin_count < 1000 then read_loop drv need room d1 bytes timeout_us (spin_count + 1)
             else read_loop drv need room d1 bytes (timeout_us - 10) spin_count)
      else Some (Read_Stopped d bytes))"

definition flush_read :: "'d ft_driver \<Rightarrow> 'd mpsse_io \<Rightarrow> (int \<times> 'd mpsse_io) outcome" where
  "flush_read drv io =
     (let c = mctx io in
      if rx_num_bytes c > 0 then
        (case read_loop drv (rx_num_bytes c) (max_rx_buffer_bytes c) (mdev io) [] 500000 0 of
           None \<Rightarrow> Diverges
         | Some Read_Overrun \<Rightarrow> Undefined
         | Some (Read_Failed d) \<Rightarrow> Ret (-1, io\<lparr>mdev := d\<rparr>)
         | Some (Read_Stopped d bytes) \<Rightarrow>
             if length bytes \<noteq> rx_num_bytes c then
               Ret (-1, io\<lparr>mctx := c\<lparr>mpsse_error := ''Read timeout: '' @ show_nat (length bytes)
                                                     @ ''/'' @ show_nat (rx_num_bytes c)\<rparr>, mdev := d\<rparr>)
             else bind_out (run_observers bytes (rx_observers c) (mmem io))
                    (\<lambda>m. Ret (0, io\<lparr>mctx := c\<lparr>rx_observers := [], rx_num_bytes := 0\<rparr>, mdev := d, mmem := m\<rparr>)))
      else Ret (0, io))"

definition mpsse_buffer_flush :: "'d ft_driver \<Rightarrow> 'd mpsse_io \<Rightarrow> (int \<times> 'd mpsse_io) outcome" where
  "mpsse_buffer_flush drv io = ok_then (flush_write drv io) (flush_read drv)"

section \<open>Append\<close>

definition mpsse_buffer_ensure_can_append ::
  "'d ft_driver \<Rightarrow> nat \<Rightarrow> nat \<Rightarrow> 'd mpsse_io \<Rightarrow> (int \<times> 'd mpsse_io) outcome" where
  "mpsse_buffer_ensure_can_append drv tx_bytes rx_bytes io =
     (let b = mctx io; tx_num_bytes = length (tx_buffer b);
          tx_safety_threshold = max_tx_buffer_bytes b * 95 div 100;
          rx_safety_threshold = max_rx_buffer_bytes b * 95 div 100
      in if tx_num_bytes + tx_bytes > max_tx_buffer_bytes b \<or>
            rx_num_bytes b + rx_bytes > max_rx_buffer_bytes b \<or>
            tx_num_bytes > tx_safety_threshold \<or> rx_num_bytes b > rx_safety_threshold
         then ok_then (mpsse_buffer_flush drv io) (\<lambda>io'. Ret (0, io'))
         else Ret (0, io))"

text \<open>The two halves of \<open>mpsse_buffer_append\<close> after its flush: bytes to send, bytes to expect.\<close>

definition append_tx :: "u8 list \<Rightarrow> 'd mpsse_io \<Rightarrow> (int \<times> 'd mpsse_io) outcome" where
  "append_tx tx_data io =
     (let b = mctx io in
      if length tx_data > 0 then
        if length (tx_buffer b) + length tx_data > max_tx_buffer_bytes b then Ret (-1, io)
        else Ret (0, io\<lparr>mctx := b\<lparr>tx_buffer := tx_buffer b @ tx_data\<rparr>\<rparr>)
      else Ret (0, io))"

definition append_rx :: "rx_observer option \<Rightarrow> nat \<Rightarrow> 'd mpsse_io \<Rightarrow> (int \<times> 'd mpsse_io) outcome" where
  "append_rx observer rx_bytes io =
     (let b = mctx io in
      if rx_bytes > 0 then
        if rx_num_bytes b + rx_bytes > max_rx_buffer_bytes b then Ret (-1, io)
        else case observer of
          None \<Rightarrow> Ret (0, io\<lparr>mctx := b\<lparr>rx_num_bytes := rx_num_bytes b + rx_bytes\<rparr>\<rparr>)
        | Some ob \<Rightarrow>
            (case pool_alloc sizeof_rx_observer_node b of
               None \<Rightarrow> Ret (-1, io)
             | Some b1 \<Rightarrow> Ret (0, io\<lparr>mctx := b1\<lparr>rx_observers := rx_observers b1 @ [(rx_num_bytes b1, ob)],
                                               rx_num_bytes := rx_num_bytes b1 + rx_bytes\<rparr>\<rparr>))
      else Ret (0, io))"

definition mpsse_buffer_append ::
  "'d ft_driver \<Rightarrow> u8 list \<Rightarrow> rx_observer option \<Rightarrow> nat \<Rightarrow> 'd mpsse_io \<Rightarrow> (int \<times> 'd mpsse_io) outcome" where
  "mpsse_buffer_append drv tx_data observer rx_bytes io =
     (let b = mctx io; tx_num_bytes = length (tx_buffer b); tx_bytes = length tx_data;
          tx_threshold = max_tx_buffer_bytes b * 9 div 10;
          rx_threshold = max_rx_buffer_bytes b * 9 div 10;
          would_overflow = (tx_num_bytes + tx_bytes > max_tx_buffer_bytes b \<or>
                            rx_num_bytes b + rx_bytes > max_rx_buffer_bytes b);
          at_threshold = (tx_num_bytes \<ge> tx_threshold \<or> rx_num_bytes b \<ge> rx_threshold)
      in ok_then (if would_overflow \<or> at_threshold then mpsse_buffer_flush drv io else Ret (0, io))
           (\<lambda>io1. ok_then (append_tx tx_data io1) (append_rx observer rx_bytes)))"

definition mpsse_buffer_add_write_with_readback ::
  "'d ft_driver \<Rightarrow> u8 list \<Rightarrow> rx_observer option \<Rightarrow> nat \<Rightarrow> 'd mpsse_io \<Rightarrow> (int \<times> 'd mpsse_io) outcome" where
  "mpsse_buffer_add_write_with_readback drv tx_data observer rx_bytes io =
     ok_then (mpsse_buffer_ensure_can_append drv (length tx_data) rx_bytes io)
       (mpsse_buffer_append drv tx_data observer rx_bytes)"

text \<open>\<open>rx_data\<close> is the destination, a block and an offset.\<close>

definition mpsse_buffer_add_write_simple ::
  "'d ft_driver \<Rightarrow> u8 list \<Rightarrow> nat \<Rightarrow> nat \<Rightarrow> nat \<Rightarrow> 'd mpsse_io \<Rightarrow> (int \<times> 'd mpsse_io) outcome" where
  "mpsse_buffer_add_write_simple drv tx_data dst off rx_bytes io =
     (case pool_alloc sizeof_byte_copier_extra (mctx io) of
        None \<Rightarrow> Ret (-1, io)
      | Some c \<Rightarrow> mpsse_buffer_add_write_with_readback drv tx_data (Some (Byte_Copier dst off rx_bytes)) rx_bytes
                    (io\<lparr>mctx := c\<rparr>))"

section \<open>Buffers never overrun, whatever the driver does\<close>

definition mpsse_wf :: "mpsse_context \<Rightarrow> bool" where
  "mpsse_wf c \<longleftrightarrow> length (tx_buffer c) \<le> max_tx_buffer_bytes c \<and> rx_num_bytes c \<le> max_rx_buffer_bytes c \<and>
     pool_used c \<le> MEMORY_POOL_BYTES \<and> (\<forall>(off, ob) \<in> set (rx_observers c). off < rx_num_bytes c)"

named_theorems wf_intros \<open>operations that keep the buffers within bounds\<close>

text \<open>The fields a flush or an append leaves alone.\<close>

definition cfg :: "mpsse_context \<Rightarrow> bool \<times> jtag_state \<times> bool \<times> bool \<times> nat \<times> nat \<times> nat" where
  "cfg c = (ft_handle c, tap_state c, last_tdi c, mpsse_is_open c, chip_buffer_size c,
            max_tx_buffer_bytes c, max_rx_buffer_bytes c)"

definition keeps :: "('d mpsse_io \<Rightarrow> (int \<times> 'd mpsse_io) outcome) \<Rightarrow> bool" where
  "keeps f \<longleftrightarrow> (\<forall>io code io'. f io = Ret (code, io') \<longrightarrow> mpsse_wf (mctx io) \<longrightarrow>
      mpsse_wf (mctx io') \<and> cfg (mctx io') = cfg (mctx io))"

lemma keepsD: "keeps f \<Longrightarrow> f io = Ret (code, io') \<Longrightarrow> mpsse_wf (mctx io) \<Longrightarrow>
    mpsse_wf (mctx io') \<and> cfg (mctx io') = cfg (mctx io)"
  by (auto simp: keeps_def)

lemma keeps_Ret [wf_intros]: "keeps (\<lambda>io. Ret (code, io))"
  by (simp add: keeps_def)

lemma keeps_ok_then [wf_intros]:
  assumes "keeps f" "keeps g"
  shows "keeps (\<lambda>io. ok_then (f io) g)"
proof -
  have "mpsse_wf (mctx io') \<and> cfg (mctx io') = cfg (mctx io)"
    if "ok_then (f io) g = Ret (code, io')" "mpsse_wf (mctx io)" for io io' code
  proof -
    from that(1) obtain c1 io1 where 1: "f io = Ret (c1, io1)" by (cases "f io") auto
    note * = keepsD[OF assms(1) 1 that(2)]
    with that(1) 1 show ?thesis
      by (auto split: if_splits dest!: keepsD[OF assms(2)])
  qed
  then show ?thesis by (auto simp: keeps_def)
qed

lemma keeps_if [wf_intros]: "keeps f \<Longrightarrow> keeps g \<Longrightarrow> keeps (\<lambda>io. if P io then f io else g io)"
  by (auto simp: keeps_def)

lemma keeps_flush_write [wf_intros]: "keeps (flush_write drv)"
  by (auto simp: keeps_def flush_write_def Let_def mpsse_wf_def cfg_def split: prod.splits if_splits)

lemma keeps_flush_read [wf_intros]: "keeps (flush_read drv)"
  by (auto simp: keeps_def flush_read_def Let_def mpsse_wf_def cfg_def bind_out_Ret_iff
      split: option.splits read_result.splits if_splits)

lemma keeps_flush [wf_intros]: "keeps (mpsse_buffer_flush drv)"
  unfolding mpsse_buffer_flush_def by (intro wf_intros)

lemma keeps_ensure [wf_intros]: "keeps (mpsse_buffer_ensure_can_append drv tx_bytes rx_bytes)"
  unfolding mpsse_buffer_ensure_can_append_def Let_def by (intro wf_intros)

lemma keeps_append_tx [wf_intros]: "keeps (append_tx tx_data)"
  by (auto simp: keeps_def append_tx_def Let_def mpsse_wf_def cfg_def split: if_splits)

lemma keeps_append_rx [wf_intros]: "keeps (append_rx observer rx_bytes)"
proof -
  have "mpsse_wf (mctx io') \<and> cfg (mctx io') = cfg (mctx io)"
    if "append_rx observer rx_bytes io = Ret (code, io')" "mpsse_wf (mctx io)" for io io' :: "'d mpsse_io" and code
    using that
    by (fastforce simp: append_rx_def Let_def mpsse_wf_def cfg_def pool_alloc_def
        split: if_splits option.splits)
  then show ?thesis by (auto simp: keeps_def)
qed

lemma keeps_append [wf_intros]: "keeps (mpsse_buffer_append drv tx_data observer rx_bytes)"
  unfolding mpsse_buffer_append_def Let_def by (intro wf_intros)

lemma keeps_readback [wf_intros]: "keeps (mpsse_buffer_add_write_with_readback drv tx_data observer rx_bytes)"
  unfolding mpsse_buffer_add_write_with_readback_def by (intro wf_intros)

lemma keeps_with_alloc [wf_intros]:
  assumes "keeps f"
  shows "keeps (\<lambda>io. case pool_alloc n (mctx io) of None \<Rightarrow> Ret (-1, io) | Some c \<Rightarrow> f (io\<lparr>mctx := c\<rparr>))"
proof -
  have "mpsse_wf c \<and> cfg c = cfg (mctx io)" if "pool_alloc n (mctx io) = Some c" "mpsse_wf (mctx io)"
    for c and io :: "'a mpsse_io"
    using that by (auto simp: pool_alloc_def mpsse_wf_def cfg_def split: if_splits)
  then show ?thesis
    unfolding keeps_def by (auto split: option.splits dest!: keepsD[OF assms])
qed

lemma keeps_simple [wf_intros]: "keeps (mpsse_buffer_add_write_simple drv tx_data dst off rx_bytes)"
  unfolding mpsse_buffer_add_write_simple_def by (intro wf_intros)

section \<open>The read loop ends\<close>

text \<open>
  Documented behaviour of \<open>FT_Read\<close> after \<open>FT_GetQueueStatus\<close> reported \<open>q\<close> bytes: a
  successful call for a positive count of at most \<open>q\<close> returns at least one byte and no more than
  asked for.
\<close>

definition driver_reads :: "'d ft_driver \<Rightarrow> bool" where
  "driver_reads drv \<longleftrightarrow> (\<forall>d q d1 n data d2. ft_get_queue_status drv d = (FT_OK, q, d1) \<longrightarrow> 0 < n \<longrightarrow> n \<le> q \<longrightarrow>
      ft_read drv d1 n = (FT_OK, data, d2) \<longrightarrow> data \<noteq> [] \<and> length data \<le> unat n)"

lemma to_read_positive:
  fixes q :: u32
  assumes "b < n" "n < 2 ^ 31" "q > 0"
  defines "r \<equiv> (if sint q < sint (of_nat (n - b) :: u32) then q else of_nat (n - b))"
  shows "r > 0" "r \<le> q"
proof -
  have w: "unat (of_nat (n - b) :: u32) = n - b" "sint (of_nat (n - b) :: u32) = int (n - b)"
    using u32_small[of "n - b"] assms(2) by (simp_all del: of_nat_diff)
  then have "(of_nat (n - b) :: u32) \<noteq> 0" using assms(1) by (metis unat_0 zero_less_diff less_numeral_extra(3))
  with assms(3) show "r > 0" by (simp add: r_def word_gt_0 del: of_nat_diff)
  have le: "sint q \<le> uint q"
    using zmod_le_nonneg_dividend[of "uint q" 4294967296]
    by (simp add: sint_uint signed_take_bit_eq_take_bit_minus take_bit_eq_mod)
  show "r \<le> q"
  proof (cases "sint q < sint (of_nat (n - b) :: u32)")
    case False
    then have "int (n - b) \<le> uint q" using le w(2) by linarith
    then have "n - b \<le> nat (uint q)" by linarith
    then have "unat (of_nat (n - b) :: u32) \<le> unat q" unfolding w(1) unat_eq_nat_uint[of q] .
    then show ?thesis using False by (simp add: r_def word_le_nat_alt del: of_nat_diff)
  qed (simp add: r_def)
qed

lemma read_loop_returns:
  assumes "driver_reads drv" "need < 2 ^ 31"
  shows "\<exists>r. read_loop drv need room d bytes timeout_us spin_count = Some r"
proof (induction "(need - length bytes, nat timeout_us, 1000 - spin_count)"
    arbitrary: d bytes timeout_us spin_count
    rule: wf_induct_rule[OF wf_lex_prod[OF wf_less_than wf_lex_prod[OF wf_less_than wf_less_than]]])
  case (1 bytes timeout_us spin_count d)
  show ?case
  proof (cases "length bytes < need \<and> timeout_us > 0")
    case True
    obtain st q d1 where q: "ft_get_queue_status drv d = (st, q, d1)" by (metis prod_cases3)
    define n where "n = (if sint q < sint (of_nat (need - length bytes) :: u32) then q else of_nat (need - length bytes))"
    obtain st2 data d2 where r: "ft_read drv d1 n = (st2, data, d2)" by (metis prod_cases3)
    have "data \<noteq> []" if "st = 0" "q > 0" "st2 = 0"
      using assms(1) to_read_positive[OF _ assms(2), of "length bytes" q] q r that True
      unfolding driver_reads_def n_def [symmetric] FT_OK_def by blast
    then have read: "\<exists>res. read_loop drv need room d2 (bytes @ data) timeout_us 0 = Some res" if "st = 0" "q > 0" "st2 = 0"
      using that True by (intro 1) (cases data, auto)
    have spin: "\<exists>res. read_loop drv need room d1 bytes timeout_us (spin_count + 1) = Some res" if "spin_count < 1000"
      using that by (intro 1) auto
    have wait: "\<exists>res. read_loop drv need room d1 bytes (timeout_us - 10) spin_count = Some res"
      using True by (intro 1) auto
    from True q r show ?thesis
      by (subst read_loop.simps) (use read spin wait in \<open>auto simp: Let_def n_def[symmetric] simp del: of_nat_diff\<close>)
  qed (subst read_loop.simps, auto)
qed

text \<open>
  A flush ends with any driver whose successful reads return at least one byte: the
  polling loop spins at most a thousand times between two bytes before its time budget runs.
\<close>

lemma flush_terminates:
  assumes "driver_reads drv" "rx_num_bytes (mctx io) < 2 ^ 31"
  shows "mpsse_buffer_flush drv io \<noteq> Diverges"
proof -
  have *: "flush_read drv io1 \<noteq> Diverges" if "rx_num_bytes (mctx io1) < 2 ^ 31" for io1
  proof -
    have "run_observers rx obs m \<noteq> Diverges" for rx obs m
    proof (induction obs arbitrary: m)
      case (Cons ob obs)
      have "run_observer rxd o1 m1 \<noteq> Diverges" for rxd o1 m1
        by (cases o1) (auto simp: mem_copy_def split: option.splits)
      with Cons show ?case
        by (cases ob; cases "run_observer (drop (fst ob) rx) (snd ob) m") auto
    qed simp
    then show ?thesis
      using read_loop_returns[OF assms(1) that, of "max_rx_buffer_bytes (mctx io1)" "mdev io1" "[]" 500000 0]
      by (auto simp: flush_read_def Let_def bind_out_Diverges_iff split: read_result.splits if_splits)
  qed
  have "rx_num_bytes (mctx io1) = rx_num_bytes (mctx io)" if "flush_write drv io = Ret (code, io1)" for code io1
    using that by (auto simp: flush_write_def Let_def split: prod.splits if_splits)
  moreover have "flush_write drv io \<noteq> Diverges"
    by (auto simp: flush_write_def Let_def split: prod.splits)
  ultimately show ?thesis
    using * assms(2) by (cases "flush_write drv io") (auto simp: mpsse_buffer_flush_def split: if_splits)
qed

section \<open>Reading from a responsive driver\<close>

lemma ideal_writeE:
  assumes "ideal_driver clk chip_of drv" "length bs < 2 ^ 31"
  obtains d' where "ft_write drv d bs = (0, of_nat (length bs), d')" "chip_of d' = chip_run clk bs (chip_of d)"
  using assms unfolding ideal_driver_def FT_OK_def by meson

lemma ideal_queueE:
  assumes "ideal_driver clk chip_of drv" "length (outq (chip_of d)) < 2 ^ 31"
  obtains d' where "ft_get_queue_status drv d = (0, of_nat (length (outq (chip_of d))), d')" "chip_of d' = chip_of d"
  using assms unfolding ideal_driver_def FT_OK_def by meson

lemma ideal_readE:
  assumes "ideal_driver clk chip_of drv" "unat n \<le> length (outq (chip_of d))"
  obtains d' where "ft_read drv d n = (0, take (unat n) (outq (chip_of d)), d')"
    "chip_of d' = (chip_of d)\<lparr>outq := drop (unat n) (outq (chip_of d))\<rparr>"
  using assms unfolding ideal_driver_def FT_OK_def by meson

lemma read_loop_ideal:
  assumes drv: "ideal_driver clk chip_of drv"
    and need: "length (outq (chip_of d)) = need" "0 < need" "need < 2 ^ 31" "need \<le> room"
  shows "\<exists>d'. read_loop drv need room d [] 500000 0 = Some (Read_Stopped d' (outq (chip_of d)))
              \<and> chip_of d' = (chip_of d)\<lparr>outq := []\<rparr>"
proof -
  obtain d1 where q: "ft_get_queue_status drv d = (0, of_nat need, d1)" and d1: "chip_of d1 = chip_of d"
    using ideal_queueE[OF drv, of d] need by auto
  obtain d2 where r: "ft_read drv d1 (of_nat need) = (0, outq (chip_of d), d2)"
    and d2: "chip_of d2 = (chip_of d)\<lparr>outq := []\<rparr>"
    using ideal_readE[OF drv, of "of_nat need" d1] need d1 u32_small(1)[of need] by auto
  have "(of_nat need :: u32) > 0" using need u32_small(1)[of need] by (auto simp: word_gt_0)
  moreover have "read_loop drv need room d2 (outq (chip_of d)) 500000 0 = Some (Read_Stopped d2 (outq (chip_of d)))"
    using need by (subst read_loop.simps) simp
  ultimately show ?thesis
    using q r d2 need by (subst read_loop.simps) (auto simp: Let_def)
qed

end
