(* ===== verification/Mpsse_Stream.thy ===== *)
theory Mpsse_Stream
  imports Mpsse_Buffer
begin

text \<open>
  Buffering is invisible. A context with queued commands and pending observers stands for the
  chip it will drive once everything is flushed (\<open>chip_run\<close> over the queued bytes) and for the
  memory the observers will have written (\<open>run_observers\<close> on the responses). \<open>abstracts\<close> is
  that relation; a flush keeps it, and an append is one step on the abstract side, whether or
  not it flushed on the way.
\<close>

section \<open>Observers on longer responses\<close>

lemma get_bit_append: "i < 8 * length xs \<Longrightarrow> get_bit (xs @ ys) i = get_bit xs i"
  using div8_less[of i "length xs"] by (simp add: get_bit_eq nth_append)

lemma copy_bits_append:
  assumes "f + n \<le> 8 * length src"
  shows "copy_bits (src @ rest) f dst t n False = copy_bits src f dst t n False"
proof -
  have "fold (\<lambda>i d. set_bit_c d (t + i) (get_bit (src @ rest) (f + i))) [0..<n] dst =
        fold (\<lambda>i d. set_bit_c d (t + i) (get_bit src (f + i))) [0..<n] dst"
    by (rule fold_cong) (use assms in \<open>auto simp: get_bit_append\<close>)
  then show ?thesis by (simp add: copy_bits_def)
qed

lemma run_observer_append: "run_observer rx ob m = Ret m' \<Longrightarrow> run_observer (rx @ rest) ob m = Ret m'"
  by (cases ob) (auto simp: copy_bits_append split: option.splits if_splits)

lemma run_observers_append_rx:
  "run_observers rx obs m = Ret m' \<Longrightarrow> \<forall>(off, ob) \<in> set obs. off \<le> length rx \<Longrightarrow>
   run_observers (rx @ rest) obs m = Ret m'"
proof (induction rx obs m rule: run_observers.induct)
  case (2 rx off ob obs m)
  from "2.prems" obtain m1 where m1: "run_observer (drop off rx) ob m = Ret m1"
    "run_observers rx obs m1 = Ret m'" "off \<le> length rx"
    by (auto simp: bind_out_Ret_iff)
  then have "run_observers (rx @ rest) obs m1 = Ret m'" using "2.prems" "2.IH" by auto
  with m1 show ?case by (simp add: run_observer_append)
qed simp

lemma run_observers_append:
  "run_observers rx (obs @ obs') m = bind_out (run_observers rx obs m) (run_observers rx obs')"
proof (induction rx obs m rule: run_observers.induct)
  case (2 rx off ob obs m)
  then show ?case by (cases "run_observer (drop off rx) ob m") simp_all
qed simp

section \<open>The relation\<close>

definition abstracts ::
  "'t clocked \<Rightarrow> ('d \<Rightarrow> 't chip) \<Rightarrow> 'd mpsse_io \<Rightarrow> 't chip \<Rightarrow> memory \<Rightarrow> bool" where
  "abstracts clk chip_of io C m \<longleftrightarrow>
     mpsse_wf (mctx io) \<and> max_tx_buffer_bytes (mctx io) < 2 ^ 31 \<and> max_rx_buffer_bytes (mctx io) < 2 ^ 31 \<and>
     (let V = chip_run clk (tx_buffer (mctx io)) (chip_of (mdev io)) in
        C = V\<lparr>outq := []\<rparr> \<and> length (outq V) = rx_num_bytes (mctx io) \<and>
        run_observers (outq V) (rx_observers (mctx io)) (mmem io) = Ret m)"

lemma abstracts_outq: "abstracts clk chip_of io C m \<Longrightarrow> outq C = []"
  by (auto simp: abstracts_def Let_def)

lemma abstracts_wf: "abstracts clk chip_of io C m \<Longrightarrow> mpsse_wf (mctx io)"
  by (simp add: abstracts_def)

definition flushed :: "mpsse_context \<Rightarrow> bool" where
  "flushed c \<longleftrightarrow> tx_buffer c = [] \<and> rx_num_bytes c = 0 \<and> rx_observers c = []"

text \<open>The two halves of a flush with a responsive driver.\<close>

lemma flush_write_ideal:
  assumes drv: "ideal_driver clk chip_of drv" and n: "length (tx_buffer (mctx io)) < 2 ^ 31"
  obtains io1 where "flush_write drv io = Ret (0, io1)" "tx_buffer (mctx io1) = []"
    "chip_of (mdev io1) = chip_run clk (tx_buffer (mctx io)) (chip_of (mdev io))"
    "rx_num_bytes (mctx io1) = rx_num_bytes (mctx io)" "rx_observers (mctx io1) = rx_observers (mctx io)"
    "mmem io1 = mmem io" "cfg (mctx io1) = cfg (mctx io)" "pool_used (mctx io1) = pool_used (mctx io)"
proof (cases "tx_buffer (mctx io) = []")
  case True
  then show ?thesis using that[of io] by (simp add: flush_write_def Let_def)
next
  case False
  obtain d' where "ft_write drv (mdev io) (tx_buffer (mctx io)) = (0, of_nat (length (tx_buffer (mctx io))), d')"
    "chip_of d' = chip_run clk (tx_buffer (mctx io)) (chip_of (mdev io))"
    using ideal_writeE[OF drv n] by metis
  then show ?thesis using False u32_small(2)[OF n] that by (simp add: flush_write_def Let_def cfg_def)
qed

lemma flush_read_ideal:
  assumes drv: "ideal_driver clk chip_of drv" and wf: "mpsse_wf (mctx io)" "rx_num_bytes (mctx io) < 2 ^ 31"
    and tx: "tx_buffer (mctx io) = []" and q: "length (outq (chip_of (mdev io))) = rx_num_bytes (mctx io)"
    and obs: "run_observers (outq (chip_of (mdev io))) (rx_observers (mctx io)) (mmem io) = Ret m"
  obtains io2 where "flush_read drv io = Ret (0, io2)" "flushed (mctx io2)" "chip_of (mdev io2) = (chip_of (mdev io))\<lparr>outq := []\<rparr>"
    "mmem io2 = m" "cfg (mctx io2) = cfg (mctx io)" "pool_used (mctx io2) = pool_used (mctx io)"
proof (cases "rx_num_bytes (mctx io) = 0")
  case True
  then have "rx_observers (mctx io) = []" using wf(1) by (cases "rx_observers (mctx io)") (auto simp: mpsse_wf_def)
  with True tx q obs that[of io] show ?thesis by (simp add: flush_read_def flushed_def)
next
  case False
  have "rx_num_bytes (mctx io) \<le> max_rx_buffer_bytes (mctx io)" using wf(1) by (simp add: mpsse_wf_def)
  then obtain d2 where "read_loop drv (rx_num_bytes (mctx io)) (max_rx_buffer_bytes (mctx io)) (mdev io) [] 500000 0 =
      Some (Read_Stopped d2 (outq (chip_of (mdev io))))" "chip_of d2 = (chip_of (mdev io))\<lparr>outq := []\<rparr>"
    using read_loop_ideal[OF drv q] False wf(2) by auto
  with False q obs tx that show ?thesis by (simp add: flush_read_def flushed_def cfg_def)
qed

lemma flush_abstracts:
  assumes drv: "ideal_driver clk chip_of drv" and abs: "abstracts clk chip_of io C m"
  shows "\<exists>io'. mpsse_buffer_flush drv io = Ret (0, io') \<and> abstracts clk chip_of io' C m \<and>
     flushed (mctx io') \<and> chip_of (mdev io') = C \<and> mmem io' = m \<and>
     cfg (mctx io') = cfg (mctx io) \<and> pool_used (mctx io') = pool_used (mctx io)"
proof -
  define c where "c = mctx io"
  define V where "V = chip_run clk (tx_buffer c) (chip_of (mdev io))"
  have bounds: "length (tx_buffer c) < 2 ^ 31" "rx_num_bytes c < 2 ^ 31" "mpsse_wf c"
    and V: "C = V\<lparr>outq := []\<rparr>" "length (outq V) = rx_num_bytes c"
    "run_observers (outq V) (rx_observers c) (mmem io) = Ret m"
    using abs by (auto simp: abstracts_def Let_def c_def V_def mpsse_wf_def)
  obtain io1 where io1: "flush_write drv io = Ret (0, io1)" "tx_buffer (mctx io1) = []"
    "chip_of (mdev io1) = V" "rx_num_bytes (mctx io1) = rx_num_bytes c"
    "rx_observers (mctx io1) = rx_observers c" "mmem io1 = mmem io" "cfg (mctx io1) = cfg c"
    "pool_used (mctx io1) = pool_used c"
    using flush_write_ideal[OF drv bounds(1)[unfolded c_def]] unfolding c_def V_def by blast
  have "mpsse_wf (mctx io1)" using io1 bounds(3) by (auto simp: mpsse_wf_def cfg_def)
  then obtain io2 where io2: "flush_read drv io1 = Ret (0, io2)" "flushed (mctx io2)" "chip_of (mdev io2) = C"
     "mmem io2 = m" "cfg (mctx io2) = cfg c" "pool_used (mctx io2) = pool_used c"
    using flush_read_ideal[OF drv _ _ io1(2), of m] bounds(2) V io1 by metis
  have "mpsse_wf (mctx io2)"
    using abstracts_wf[OF abs] io2 by (auto simp: mpsse_wf_def flushed_def cfg_def c_def)
  then have "abstracts clk chip_of io2 C m"
    using abs io2 abstracts_outq[OF abs] by (auto simp: abstracts_def Let_def flushed_def cfg_def c_def)
  with io1 io2 show ?thesis by (auto simp: mpsse_buffer_flush_def c_def)
qed

text \<open>Appending, with enough room: one step of the abstract chip and one observer on its responses.\<close>

definition takes_step ::
  "'t clocked \<Rightarrow> u8 list \<Rightarrow> rx_observer option \<Rightarrow> nat \<Rightarrow> 't chip \<Rightarrow> memory \<Rightarrow> 't chip \<Rightarrow> memory \<Rightarrow> bool" where
  "takes_step clk tx ob n C m C' m' \<longleftrightarrow>
     (let V = chip_run clk tx C in
        C' = V\<lparr>outq := []\<rparr> \<and> length (outq V) = n \<and>
        (case ob of None \<Rightarrow> m' = m | Some x \<Rightarrow> n > 0 \<and> run_observer (outq V) x m = Ret m'))"

lemma takes_step_after:
  assumes step: "takes_step clk tx ob n (V\<lparr>outq := []\<rparr>) m C' m'"
    and obs: "run_observers (outq V) os mem = Ret m" "\<forall>(off, ob) \<in> set os. off < length (outq V)"
  obtains W where "C' = W\<lparr>outq := []\<rparr>" "length (outq W) = n" "chip_run clk tx V = W\<lparr>outq := outq V @ outq W\<rparr>"
    "case ob of None \<Rightarrow> m' = m | Some x \<Rightarrow> n > 0 \<and> run_observer (outq W) x m = Ret m'"
    "run_observers (outq V @ outq W) os mem = Ret m"
proof
  let ?W = "chip_run clk tx (V\<lparr>outq := []\<rparr>)"
  show "C' = ?W\<lparr>outq := []\<rparr>" "length (outq ?W) = n"
    "case ob of None \<Rightarrow> m' = m | Some x \<Rightarrow> n > 0 \<and> run_observer (outq ?W) x m = Ret m'"
    using step unfolding takes_step_def Let_def by auto
  show "chip_run clk tx V = ?W\<lparr>outq := outq V @ outq ?W\<rparr>"
    using chip_run_outq[where c = V and q = "outq V" and bs = tx] by (simp add: Let_def)
  show "run_observers (outq V @ outq ?W) os mem = Ret m"
    by (rule run_observers_append_rx) (use obs in auto)
qed

lemma append_no_flush:
  assumes abs: "abstracts clk chip_of io C m" and step: "takes_step clk tx ob n C m C' m'"
    and room: "length (tx_buffer (mctx io)) + length tx \<le> max_tx_buffer_bytes (mctx io)"
      "rx_num_bytes (mctx io) + n \<le> max_rx_buffer_bytes (mctx io)"
    and pool: "ob \<noteq> None \<Longrightarrow> pool_used (mctx io) + 32 \<le> MEMORY_POOL_BYTES"
  shows "\<exists>io'. ok_then (append_tx tx io) (append_rx ob n) = Ret (0, io') \<and> abstracts clk chip_of io' C' m' \<and>
     cfg (mctx io') = cfg (mctx io) \<and>
     pool_used (mctx io') = pool_used (mctx io) + (if ob = None then 0 else 32)"
proof -
  define c where "c = mctx io"
  define V where "V = chip_run clk (tx_buffer c) (chip_of (mdev io))"
  have V: "C = V\<lparr>outq := []\<rparr>" "length (outq V) = rx_num_bytes c"
    "run_observers (outq V) (rx_observers c) (mmem io) = Ret m"
    and offs: "\<forall>(off, ob) \<in> set (rx_observers c). off < rx_num_bytes c"
    using abs by (auto simp: abstracts_def Let_def c_def V_def mpsse_wf_def)
  obtain W where W: "C' = W\<lparr>outq := []\<rparr>" "length (outq W) = n"
      "case ob of None \<Rightarrow> m' = m | Some x \<Rightarrow> n > 0 \<and> run_observer (outq W) x m = Ret m'"
    and VW: "chip_run clk tx V = W\<lparr>outq := outq V @ outq W\<rparr>"
    and obs: "run_observers (outq V @ outq W) (rx_observers c) (mmem io) = Ret m"
    using takes_step_after[OF step[unfolded V(1)] V(3)] offs V(2) by auto
  have tx: "append_tx tx io = Ret (0, io\<lparr>mctx := c\<lparr>tx_buffer := tx_buffer c @ tx\<rparr>\<rparr>)"
    using room by (auto simp: append_tx_def c_def Let_def)
  show ?thesis
  proof (cases ob)
    case None
    have wf: "mpsse_wf (c\<lparr>tx_buffer := tx_buffer c @ tx, rx_num_bytes := rx_num_bytes c + n\<rparr>)"
      using abstracts_wf[OF abs] room offs by (fastforce simp: mpsse_wf_def c_def)
    have "append_rx ob n (io\<lparr>mctx := c\<lparr>tx_buffer := tx_buffer c @ tx\<rparr>\<rparr>) =
      Ret (0, io\<lparr>mctx := c\<lparr>tx_buffer := tx_buffer c @ tx, rx_num_bytes := rx_num_bytes c + n\<rparr>\<rparr>)"
      using room None by (cases "n = 0") (auto simp: append_rx_def c_def Let_def)
    moreover have "abstracts clk chip_of (io\<lparr>mctx := c\<lparr>tx_buffer := tx_buffer c @ tx, rx_num_bytes := rx_num_bytes c + n\<rparr>\<rparr>) C' m'"
      using wf abs VW V W obs None by (simp add: abstracts_def Let_def c_def V_def)
    ultimately show ?thesis using tx None by (auto simp: cfg_def c_def)
  next
    case (Some x)
    define c2 where "c2 = c\<lparr>tx_buffer := tx_buffer c @ tx, pool_used := pool_used c + 32,
      rx_observers := rx_observers c @ [(rx_num_bytes c, x)], rx_num_bytes := rx_num_bytes c + n\<rparr>"
    have n: "n > 0" and used: "pool_used c + 32 \<le> MEMORY_POOL_BYTES" using W Some pool by (simp_all add: c_def)
    have "\<forall>(off, ob) \<in> set (rx_observers c). off < rx_num_bytes c + n" using offs by fastforce
    then have wf: "mpsse_wf c2"
      using abstracts_wf[OF abs] room used n by (simp add: mpsse_wf_def c_def c2_def)
    have "append_rx ob n (io\<lparr>mctx := c\<lparr>tx_buffer := tx_buffer c @ tx\<rparr>\<rparr>) = Ret (0, io\<lparr>mctx := c2\<rparr>)"
      using room Some n used by (auto simp: append_rx_def c_def c2_def Let_def pool_alloc_def)
    moreover have "abstracts clk chip_of (io\<lparr>mctx := c2\<rparr>) C' m'"
      using wf abs VW V W obs Some
      by (simp add: abstracts_def Let_def c_def c2_def V_def run_observers_append)
    ultimately show ?thesis using tx Some by (auto simp: cfg_def c_def c2_def)
  qed
qed

lemma append_abstracts:
  assumes drv: "ideal_driver clk chip_of drv" and abs: "abstracts clk chip_of io C m"
    and step: "takes_step clk tx ob n C m C' m'"
    and room: "length tx \<le> max_tx_buffer_bytes (mctx io)" "n \<le> max_rx_buffer_bytes (mctx io)"
    and pool: "ob \<noteq> None \<Longrightarrow> pool_used (mctx io) + 32 \<le> MEMORY_POOL_BYTES"
  shows "\<exists>io'. mpsse_buffer_append drv tx ob n io = Ret (0, io') \<and> abstracts clk chip_of io' C' m' \<and>
     cfg (mctx io') = cfg (mctx io) \<and>
     pool_used (mctx io') = pool_used (mctx io) + (if ob = None then 0 else 32)"
proof (cases "length (tx_buffer (mctx io)) + length tx > max_tx_buffer_bytes (mctx io) \<or>
    rx_num_bytes (mctx io) + n > max_rx_buffer_bytes (mctx io) \<or>
    length (tx_buffer (mctx io)) \<ge> max_tx_buffer_bytes (mctx io) * 9 div 10 \<or>
    rx_num_bytes (mctx io) \<ge> max_rx_buffer_bytes (mctx io) * 9 div 10")
  case True
  obtain io1 where io1: "mpsse_buffer_flush drv io = Ret (0, io1)" "abstracts clk chip_of io1 C m"
    "flushed (mctx io1)" "cfg (mctx io1) = cfg (mctx io)" "pool_used (mctx io1) = pool_used (mctx io)"
    using flush_abstracts[OF drv abs] by blast
  then show ?thesis
    using True append_no_flush[OF io1(2) step] room pool
    by (auto simp: mpsse_buffer_append_def Let_def flushed_def cfg_def)
next
  case False
  then show ?thesis
    using append_no_flush[OF abs step] room pool by (auto simp: mpsse_buffer_append_def Let_def)
qed

lemma readback_abstracts:
  assumes drv: "ideal_driver clk chip_of drv" and abs: "abstracts clk chip_of io C m"
    and step: "takes_step clk tx ob n C m C' m'"
    and room: "length tx \<le> max_tx_buffer_bytes (mctx io)" "n \<le> max_rx_buffer_bytes (mctx io)"
    and pool: "ob \<noteq> None \<Longrightarrow> pool_used (mctx io) + 32 \<le> MEMORY_POOL_BYTES"
  shows "\<exists>io'. mpsse_buffer_add_write_with_readback drv tx ob n io = Ret (0, io') \<and> abstracts clk chip_of io' C' m' \<and>
     cfg (mctx io') = cfg (mctx io) \<and>
     pool_used (mctx io') = pool_used (mctx io) + (if ob = None then 0 else 32)"
proof -
  obtain io1 where io1: "mpsse_buffer_ensure_can_append drv (length tx) n io = Ret (0, io1)"
    "abstracts clk chip_of io1 C m" "cfg (mctx io1) = cfg (mctx io)" "pool_used (mctx io1) = pool_used (mctx io)"
  proof -
    obtain io1 where "mpsse_buffer_flush drv io = Ret (0, io1)" "abstracts clk chip_of io1 C m"
      "cfg (mctx io1) = cfg (mctx io)" "pool_used (mctx io1) = pool_used (mctx io)"
      using flush_abstracts[OF drv abs] by blast
    moreover from this(1) have "mpsse_buffer_ensure_can_append drv (length tx) n io \<in> {Ret (0, io), Ret (0, io1)}"
      by (simp add: mpsse_buffer_ensure_can_append_def Let_def)
    ultimately show thesis using abs that[of io] that[of io1] by auto
  qed
  then show ?thesis
    using append_abstracts[OF drv io1(2) step] room pool
    by (auto simp: mpsse_buffer_add_write_with_readback_def cfg_def)
qed

text \<open>Allocating from the pool changes nothing else.\<close>

lemma alloc_abstracts:
  assumes "abstracts clk chip_of io C m" "pool_used (mctx io) + n \<le> MEMORY_POOL_BYTES"
  obtains c where "pool_alloc n (mctx io) = Some c" "abstracts clk chip_of (io\<lparr>mctx := c\<rparr>) C m"
    "cfg c = cfg (mctx io)" "pool_used c = pool_used (mctx io) + n"
  using assms by (auto simp: pool_alloc_def abstracts_def mpsse_wf_def cfg_def Let_def)

end
