(* ===== verification/Mpsse_Scan.thy ===== *)
theory Mpsse_Scan
  imports Mpsse_Buffer
begin

text \<open>
  Building the command stream for a scan: \<open>append_tms_shift\<close>, \<open>append_tdi_shift\<close> and
  \<open>mpsse_adapter_scan\<close> of \<^verbatim>\<open>src/mpsse_adapter.c\<close>. Input vectors are byte lists, the TDO vector is
  a block of the memory, named by its address. Loops that carry more than the adapter state
  (the index, the TAP state) return them beside it.
\<close>

definition carry :: "'a \<Rightarrow> (int \<times> 'd mpsse_io) outcome \<Rightarrow> (int \<times> 'a \<times> 'd mpsse_io) outcome" where
  "carry x r = bind_out r (\<lambda>(code, io). Ret (code, x, io))"

lemma carry_Ret [simp, outcome_simps]: "carry x (Ret (code, io)) = Ret (code, x, io)"
  by (simp add: carry_def)

section \<open>State transitions: TMS commands\<close>

definition tms_bits_byte :: "u8 list \<Rightarrow> nat \<Rightarrow> nat \<Rightarrow> u8" where
  "tms_bits_byte tms from_bit_idx n =
     fold (\<lambda>i b. if get_bit tms (from_bit_idx + i) then b OR push_bit i 1 else b) [0..<n] 0"

function append_tms_shift ::
  "'d ft_driver \<Rightarrow> u8 list \<Rightarrow> nat \<Rightarrow> nat \<Rightarrow> 'd mpsse_io \<Rightarrow> (int \<times> 'd mpsse_io) outcome" where
  "append_tms_shift drv tms from_bit_idx to_bit_idx io =
     (if from_bit_idx < to_bit_idx then
        (let bits_to_transfer = min (to_bit_idx - from_bit_idx) 6;
             cmd = [OP_CLK_TMS_NO_READ, of_nat (bits_to_transfer - 1),
                    tms_bits_byte tms from_bit_idx bits_to_transfer OR push_bit 7 (of_bool (last_tdi (mctx io)))]
         in ok_then (mpsse_buffer_append drv cmd None 0 io)
              (\<lambda>io1. append_tms_shift drv tms (from_bit_idx + bits_to_transfer) to_bit_idx io1))
      else Ret (0, io))"
  by pat_completeness auto
termination
  by (relation "measure (\<lambda>(drv, tms, from_bit_idx, to_bit_idx, io). to_bit_idx - from_bit_idx)") auto

declare append_tms_shift.simps [simp del]

section \<open>Data shifts\<close>

text \<open>The constants \<open>append_tdi_shift\<close> computes on entry.\<close>

record tdi_plan =
  from_idx :: nat
  to_idx :: nat
  last_bit_idx :: nat
  num_leading_bits :: nat
  inner_end_idx :: int
  num_trailing_bits :: nat
  total_inner_bytes :: nat

definition tdi_plan_of :: "nat \<Rightarrow> nat \<Rightarrow> tdi_plan" where
  "tdi_plan_of from_bit_idx to_bit_idx =
     (let last_bit = to_bit_idx - 1;
          num_regular_bits = last_bit - from_bit_idx;
          num_first_octet_bits = 8 - from_bit_idx mod 8;
          leading = min (if num_first_octet_bits = 8 then 0 else num_first_octet_bits) num_regular_bits;
          leading_only = (leading = num_regular_bits);
          inner_end = (if leading_only then -1 else int (last_bit - last_bit mod 8));
          trailing = (if leading_only then 0 else last_bit mod 8);
          inner = (if inner_end > int from_bit_idx \<and> \<not> leading_only
                   then (nat inner_end - (from_bit_idx + leading)) div 8 else 0)
      in \<lparr>from_idx = from_bit_idx, to_idx = to_bit_idx, last_bit_idx = last_bit,
          num_leading_bits = leading, inner_end_idx = inner_end,
          num_trailing_bits = trailing, total_inner_bytes = inner\<rparr>)"

text \<open>A command whose response byte a \<open>bit_copier\<close> observer takes apart.\<close>

definition bits_command ::
  "'d ft_driver \<Rightarrow> u8 list \<Rightarrow> nat \<Rightarrow> nat \<Rightarrow> nat \<Rightarrow> nat \<Rightarrow> 'd mpsse_io \<Rightarrow> (int \<times> 'd mpsse_io) outcome" where
  "bits_command drv cmd from_bit tdo to_bit num_bits io =
     (case pool_alloc sizeof_bit_copier_extra (mctx io) of
        None \<Rightarrow> Ret (-1, io)
      | Some c \<Rightarrow> mpsse_buffer_add_write_with_readback drv cmd
                    (Some (Bit_Copier from_bit tdo to_bit num_bits)) 1 (io\<lparr>mctx := c\<rparr>))"

definition tdi_leading ::
  "'d ft_driver \<Rightarrow> u8 list \<Rightarrow> nat \<Rightarrow> tdi_plan \<Rightarrow> nat \<times> 'd mpsse_io \<Rightarrow> (int \<times> nat \<times> 'd mpsse_io) outcome" where
  "tdi_leading drv tdi tdo p = (\<lambda>(cur_idx, io).
     if cur_idx = from_idx p \<and> num_leading_bits p > 0 then
       ok_then (carry cur_idx (bits_command drv
            [OP_CLK_DATA_BITS_OUT_NEG_IN_NEG, of_nat (num_leading_bits p - 1),
             drop_bit (from_idx p mod 8) (tdi ! (from_idx p div 8))]
            (8 - num_leading_bits p) tdo (from_idx p) (num_leading_bits p) io))
         (\<lambda>(_, io1). Ret (0, cur_idx + num_leading_bits p, io1))
     else Ret (0, cur_idx, io))"

definition tdi_whole ::
  "'d ft_driver \<Rightarrow> u8 list \<Rightarrow> nat \<Rightarrow> tdi_plan \<Rightarrow> nat \<times> 'd mpsse_io \<Rightarrow> (int \<times> nat \<times> 'd mpsse_io) outcome" where
  "tdi_whole drv tdi tdo p = (\<lambda>(cur_idx, io).
     if cur_idx < last_bit_idx p \<and> inner_end_idx p > int cur_idx then
       (let octets = min ((nat (inner_end_idx p) - cur_idx) div 8) (chip_buffer_size (mctx io));
            cmd = [OP_CLK_DATA_BYTES_OUT_NEG_IN_NEG, of_int (int octets - 1), of_int ((int octets - 1) div 256)];
            remaining_bytes = int (total_inner_bytes p)
               - c_div (int cur_idx - int (from_idx p + num_leading_bits p)) 8;
            is_last_chunk = (int octets \<ge> remaining_bytes);
            data = take octets (drop (cur_idx div 8) tdi)
        in ok_then (carry cur_idx (mpsse_buffer_append drv cmd None 0 io))
             (\<lambda>(_, io1). ok_then (carry cur_idx
                 (if is_last_chunk \<and> total_inner_bytes p > 0 then
                    mpsse_buffer_add_write_with_readback drv data
                      (Some (Bulk_Byte_Copier tdo ((from_idx p + num_leading_bits p) div 8)
                               (total_inner_bytes p) 0)) octets io1
                  else mpsse_buffer_add_write_simple drv data tdo (cur_idx div 8) octets io1))
               (\<lambda>(_, io2). Ret (0, cur_idx + octets * 8, io2))))
     else Ret (0, cur_idx, io))"

definition tdi_trailing ::
  "'d ft_driver \<Rightarrow> u8 list \<Rightarrow> nat \<Rightarrow> tdi_plan \<Rightarrow> nat \<times> 'd mpsse_io \<Rightarrow> (int \<times> nat \<times> 'd mpsse_io) outcome" where
  "tdi_trailing drv tdi tdo p = (\<lambda>(cur_idx, io).
     if num_trailing_bits p > 0 \<and> cur_idx < last_bit_idx p then
       ok_then (carry cur_idx (bits_command drv
            [OP_CLK_DATA_BITS_OUT_NEG_IN_NEG, of_nat (num_trailing_bits p - 1),
             tdi ! (nat (inner_end_idx p) div 8)]
            (8 - num_trailing_bits p) tdo (nat (inner_end_idx p)) (num_trailing_bits p) io))
         (\<lambda>(_, io1). Ret (0, cur_idx + num_trailing_bits p, io1))
     else Ret (0, cur_idx, io))"

definition tdi_last_bit ::
  "'d ft_driver \<Rightarrow> u8 list \<Rightarrow> nat \<Rightarrow> tdi_plan \<Rightarrow> bool \<Rightarrow> nat \<times> 'd mpsse_io \<Rightarrow> (int \<times> nat \<times> 'd mpsse_io) outcome" where
  "tdi_last_bit drv tdi tdo p last_tms_bit_high = (\<lambda>(cur_idx, io).
     if cur_idx = last_bit_idx p then
       (let last_tdi_bit = get_bit tdi (last_bit_idx p) in
        ok_then (carry cur_idx (bits_command drv
            [OP_CLK_TMS_READ_NEG, 0,
             push_bit 7 (of_bool last_tdi_bit) OR push_bit 1 (of_bool last_tms_bit_high) OR of_bool last_tms_bit_high]
            7 tdo (last_bit_idx p) 1 io))
          (\<lambda>(_, io1). Ret (0, cur_idx + 1, io1\<lparr>mctx := (mctx io1)\<lparr>last_tdi := last_tdi_bit\<rparr>\<rparr>)))
     else Ret (0, cur_idx, io))"

definition tdi_body ::
  "'d ft_driver \<Rightarrow> u8 list \<Rightarrow> nat \<Rightarrow> tdi_plan \<Rightarrow> bool \<Rightarrow> nat \<times> 'd mpsse_io \<Rightarrow> (int \<times> nat \<times> 'd mpsse_io) outcome" where
  "tdi_body drv tdi tdo p last_tms_bit_high s =
     ok_then (ok_then (ok_then (tdi_leading drv tdi tdo p s) (tdi_whole drv tdi tdo p))
       (tdi_trailing drv tdi tdo p)) (tdi_last_bit drv tdi tdo p last_tms_bit_high)"

partial_function (option) tdi_loop ::
  "'d ft_driver \<Rightarrow> u8 list \<Rightarrow> nat \<Rightarrow> tdi_plan \<Rightarrow> bool \<Rightarrow> nat \<times> 'd mpsse_io \<Rightarrow> (int \<times> nat \<times> 'd mpsse_io) outcome option" where
  "tdi_loop drv tdi tdo p last_tms_bit_high s =
     (if fst s < to_idx p then
        (case tdi_body drv tdi tdo p last_tms_bit_high s of
           Ret r \<Rightarrow> if fst r < 0 then Some (Ret (-1, snd r))
                    else tdi_loop drv tdi tdo p last_tms_bit_high (snd r)
         | Undefined \<Rightarrow> Some Undefined
         | Killed \<Rightarrow> Some Killed
         | Diverges \<Rightarrow> Some Diverges)
      else Some (Ret (0, s)))"

definition append_tdi_shift ::
  "'d ft_driver \<Rightarrow> u8 list \<Rightarrow> nat \<Rightarrow> nat \<Rightarrow> nat \<Rightarrow> bool \<Rightarrow> 'd mpsse_io \<Rightarrow> (int \<times> 'd mpsse_io) outcome" where
  "append_tdi_shift drv tdi tdo from_bit_idx to_bit_idx last_tms_bit_high io =
     (let p = tdi_plan_of from_bit_idx to_bit_idx in
      case (if total_inner_bytes p > 0 then pool_alloc sizeof_bulk_byte_copier_extra (mctx io)
            else Some (mctx io)) of
        None \<Rightarrow> Ret (-1, io)
      | Some c \<Rightarrow>
          (case tdi_loop drv tdi tdo p last_tms_bit_high (from_bit_idx, io\<lparr>mctx := c\<rparr>) of
             None \<Rightarrow> Diverges
           | Some r \<Rightarrow> bind_out r (\<lambda>(code, _, io1). Ret (code, io1))))"

section \<open>The scan\<close>

text \<open>
  One round of the outer loop looks at up to eight bits of a TMS byte. A segment ends when the
  TAP enters or leaves a shift state or the vector ends; the bits since \<open>first_pending_bit_idx\<close>
  are then emitted at once.
\<close>

function scan_round ::
  "'d ft_driver \<Rightarrow> u8 list \<Rightarrow> u8 list \<Rightarrow> nat \<Rightarrow> nat \<Rightarrow> nat \<Rightarrow> nat \<Rightarrow> u8 \<Rightarrow> jtag_state \<Rightarrow> nat \<Rightarrow> 'd mpsse_io
     \<Rightarrow> (int \<times> (jtag_state \<times> nat) \<times> 'd mpsse_io) outcome" where
  "scan_round drv tms tdi tdo bits round_end bit_idx tms_byte state first_pending io =
     (if bit_idx < round_end then
        (let tms_bit = (tms_byte AND 1 \<noteq> 0);
             next_jtag_state = next_state state tms_bit;
             is_sh = (state = SHIFT_DR \<or> state = SHIFT_IR);
             next_is_sh = (next_jtag_state = SHIFT_DR \<or> next_jtag_state = SHIFT_IR);
             entering_shift = (\<not> is_sh \<and> next_is_sh);
             leaving_shift = (is_sh \<and> \<not> next_is_sh);
             end_of_vector = (bit_idx = bits - 1);
             event = (end_of_vector \<or> entering_shift \<or> leaving_shift)
         in ok_then
              (if event then
                 carry (state, bit_idx + 1)
                   (if is_sh then append_tdi_shift drv tdi tdo first_pending (bit_idx + 1) leaving_shift io
                    else append_tms_shift drv tms first_pending (bit_idx + 1) io)
               else Ret (0, (state, first_pending), io))
              (\<lambda>((_, first_pending'), io').
                 scan_round drv tms tdi tdo bits round_end (bit_idx + 1) (drop_bit 1 tms_byte)
                   next_jtag_state first_pending' io'))
      else Ret (0, (state, first_pending), io))"
  by pat_completeness auto
termination
  by (relation "measure (\<lambda>(drv, tms, tdi, tdo, bits, round_end, bit_idx, _). round_end - bit_idx)") auto

function scan_vector ::
  "'d ft_driver \<Rightarrow> u8 list \<Rightarrow> u8 list \<Rightarrow> nat \<Rightarrow> nat \<Rightarrow> nat \<Rightarrow> jtag_state \<Rightarrow> nat \<Rightarrow> 'd mpsse_io
     \<Rightarrow> (int \<times> (jtag_state \<times> nat) \<times> 'd mpsse_io) outcome" where
  "scan_vector drv tms tdi tdo bits bit_idx state first_pending io =
     (if bit_idx < bits then
        (let round_end = (if bit_idx + 8 > bits then bits else bit_idx + 8)
         in ok_then (scan_round drv tms tdi tdo bits round_end bit_idx (tms ! (bit_idx div 8)) state first_pending io)
              (\<lambda>((state', first_pending'), io').
                 scan_vector drv tms tdi tdo bits round_end state' first_pending' io'))
      else Ret (0, (state, first_pending), io))"
  by pat_completeness auto
termination
  by (relation "measure (\<lambda>(drv, tms, tdi, tdo, bits, bit_idx, _). bits - bit_idx)") (auto split: if_splits)

declare scan_round.simps [simp del] scan_vector.simps [simp del]

text \<open>
  Input vectors shorter than \<open>bits\<close> would be read past their end, which C leaves undefined.
\<close>

definition mpsse_adapter_scan ::
  "'d ft_driver \<Rightarrow> u8 list \<Rightarrow> u8 list \<Rightarrow> nat \<Rightarrow> int \<Rightarrow> 'd mpsse_io \<Rightarrow> (int \<times> 'd mpsse_io) outcome" where
  "mpsse_adapter_scan drv tms tdi tdo bits io =
     (if \<not> mpsse_is_open (mctx io) \<or> bits \<le> 0 then Ret (-1, io)
      else if bits > 8 * int (length tms) \<or> bits > 8 * int (length tdi) then Undefined
      else
        bind_out (scan_vector drv tms tdi tdo (nat bits) 0 (tap_state (mctx io)) 0
                    (io\<lparr>mctx := (mctx io)\<lparr>current_bit_offset := 0\<rparr>\<rparr>))
          (\<lambda>(code, (state, _), io1).
             if code < 0 then Ret (-1, io1)
             else ok_then (mpsse_buffer_flush drv io1)
                    (\<lambda>io2. Ret (0, io2\<lparr>mctx := (pool_reset (mctx io2))
                       \<lparr>current_bit_offset := current_bit_offset (mctx io2) + nat bits, tap_state := state\<rparr>\<rparr>))))"

definition mpsse_adapter_flush :: "'d ft_driver \<Rightarrow> 'd mpsse_io \<Rightarrow> (int \<times> 'd mpsse_io) outcome" where
  "mpsse_adapter_flush drv io =
     (if \<not> mpsse_is_open (mctx io) then Ret (-1, io) else mpsse_buffer_flush drv io)"

end
