(* ===== verification/Mpsse_Response.thy ===== *)
theory Mpsse_Response
  imports Mpsse_Stream Mpsse_Scan
begin

text \<open>
  What the chip answers to each command the adapter emits, and what the observers make of the
  answer: the TDO samples of the clocked cycles, written at consecutive bit positions
  (\<open>put_bits\<close>).
\<close>

section \<open>Samples\<close>

fun samples :: "'t clocked \<Rightarrow> 't \<Rightarrow> (bool \<times> bool) list \<Rightarrow> bool list" where
  "samples clk t [] = []"
| "samples clk t ((tms, tdi) # xs) = snd (clk t tms tdi) # samples clk (fst (clk t tms tdi)) xs"

lemma length_samples [simp]: "length (samples clk t xs) = length xs"
  by (induction xs arbitrary: t) auto

lemma target_clock [simp]: "target (chip_clock clk (tms, tdi) C) = fst (clk (target C) tms tdi)"
  by (simp add: chip_clock_def split: prod.splits)

lemma samples_append:
  "samples clk (target C) (xs @ ys) = samples clk (target C) xs @ samples clk (target (chip_clocks clk xs C)) ys"
proof (induction xs arbitrary: C)
  case (Cons x xs)
  show ?case using Cons.IH[of "chip_clock clk x C"] by (cases x) simp
qed simp

lemma tms_pin_clocks: "tms_pin (chip_clocks clk xs C) = (if xs = [] then tms_pin C else fst (last xs))"
proof (induction xs arbitrary: C)
  case (Cons x xs)
  then show ?case by (cases x) (auto simp: chip_clock_def split: prod.splits)
qed simp

text \<open>After \<open>n \<le> 8\<close> clocks the last \<open>n\<close> samples are at the top of the register.\<close>

lemma bit_tdo_reg_clock:
  "k < 8 \<Longrightarrow> bit (tdo_reg (chip_clock clk (tms, tdi) C)) k =
     (if k = 7 then snd (clk (target C) tms tdi) else bit (tdo_reg C) (Suc k))"
  by (auto simp: chip_clock_def bit_or_iff bit_drop_bit_eq bit_simps8 split: prod.splits)

lemma bit_tdo_reg:
  assumes "length xs \<le> 8" "k < 8"
  shows "bit (tdo_reg (chip_clocks clk xs C)) k =
     (if 8 - length xs \<le> k then samples clk (target C) xs ! (k - (8 - length xs))
      else bit (tdo_reg C) (k + length xs))"
  using assms
proof (induction xs arbitrary: C)
  case (Cons x xs)
  obtain tms tdi where x: "x = (tms, tdi)" by (cases x)
  have "k - (7 - length xs) = Suc (k - (8 - length xs))" if "8 - length xs \<le> k" "length xs \<le> 7"
    using that by simp
  then show ?case
    using Cons.prems by (auto simp: x Cons.IH bit_tdo_reg_clock nth_Cons')
qed simp

section \<open>Writing a run of bits\<close>

definition put_bits :: "u8 list \<Rightarrow> nat \<Rightarrow> bool list \<Rightarrow> u8 list" where
  "put_bits buf a bs = fold (\<lambda>i d. set_bit_c d (a + i) (bs ! i)) [0..<length bs] buf"

lemma length_put_bits [simp]: "length (put_bits buf a bs) = length buf"
  using bytes.size_copy_loop[of a "\<lambda>i. bs ! i" "[0..<length bs]" buf]
  by (simp add: put_bits_def del: bytes.size_copy_loop)

lemma get_put_bits:
  assumes "a + length bs \<le> 8 * length buf"
  shows "get_bit (put_bits buf a bs) j = (if a \<le> j \<and> j < a + length bs then bs ! (j - a) else get_bit buf j)"
  unfolding put_bits_def using bytes.get_copy_loop[OF assms] .

lemma put_bits_Nil [simp]: "put_bits buf a [] = buf"
  by (simp add: put_bits_def)

lemma put_bits_eqI:
  assumes "a + length bs \<le> 8 * length buf" "length d = length buf"
    and "\<And>j. j < 8 * length buf \<Longrightarrow> get_bit d j = (if a \<le> j \<and> j < a + length bs then bs ! (j - a) else get_bit buf j)"
  shows "put_bits buf a bs = d"
  unfolding put_bits_def by (rule bytes.copy_loop_eqI) (use assms in auto)

lemma put_bits_put_bits:
  assumes "a + length xs + length ys \<le> 8 * length buf"
  shows "put_bits (put_bits buf a xs) (a + length xs) ys = put_bits buf a (xs @ ys)"
  by (rule sym, rule put_bits_eqI) (use assms in \<open>auto simp: get_put_bits nth_append\<close>)

lemma copy_bits_put_bits:
  assumes "t + length bs \<le> 8 * length dst" "\<And>i. i < length bs \<Longrightarrow> get_bit src (f + i) = bs ! i"
  shows "copy_bits src f dst t (length bs) False = put_bits dst t bs"
proof (rule sym, rule put_bits_eqI)
  fix j show "get_bit (copy_bits src f dst t (length bs) False) j =
    (if t \<le> j \<and> j < t + length bs then bs ! (j - t) else get_bit dst j)"
  proof (cases "t \<le> j \<and> j < t + length bs")
    case True
    then obtain i where "j = t + i" "i < length bs" by (metis le_Suc_ex nat_add_left_cancel_less)
    then show ?thesis by (simp add: get_copy_bits[OF assms(1)] assms(2))
  next
    case False
    then show ?thesis by (simp only: get_copy_bits[OF assms(1)] if_False)
  qed
qed (use assms in auto)

lemma splice_put_bits:
  assumes "off + length bs \<le> length d"
  shows "take off d @ bs @ drop (off + length bs) d = put_bits d (8 * off) (map (get_bit bs) [0..<8 * length bs])"
proof (rule sym, rule put_bits_eqI)
  fix j assume j: "j < 8 * length d"
  consider "j div 8 < off" | "off \<le> j div 8" "j div 8 < off + length bs" | "off + length bs \<le> j div 8" by linarith
  then show "get_bit (take off d @ bs @ drop (off + length bs) d) j =
    (if 8 * off \<le> j \<and> j < 8 * off + length (map (get_bit bs) [0..<8 * length bs])
     then map (get_bit bs) [0..<8 * length bs] ! (j - 8 * off) else get_bit d j)"
  proof cases
    case 2
    then have le: "8 * off \<le> j" and less: "j < 8 * off + 8 * length bs" by linarith+
    moreover from le less have "map (get_bit bs) [0..<8 * length bs] ! (j - 8 * off) = get_bit bs (j - 8 * off)"
      by simp
    moreover have "(j - 8 * off) div 8 = j div 8 - off" "(j - 8 * off) mod 8 = j mod 8"
      using le by (auto simp: le_iff_add)
    moreover have "j div 8 - off < length bs" using 2 by linarith
    ultimately show ?thesis using 2 assms by (simp add: get_bit_eq nth_append)
  next
    case 1
    then have "\<not> 8 * off \<le> j" by linarith
    then show ?thesis using 1 assms by (simp add: get_bit_eq nth_append)
  next
    case 3
    then have "\<not> j < 8 * off + 8 * length bs" by linarith
    then show ?thesis using 3 assms div8_less[OF j] by (simp add: get_bit_eq nth_append)
  qed
qed (use assms in auto)

section \<open>Commands\<close>

lemma three_byte_command:
  assumes "phase C = Ready" "two_operands op"
  shows "chip_step clk b (chip_step clk a (chip_step clk op C)) = exec_command clk op a b C"
  using assms by (simp add: chip_step.simps exec_command_def)

lemma chip_upd_same [simp]: "phase C = p \<Longrightarrow> C\<lparr>phase := p\<rparr> = C" "outq C = q \<Longrightarrow> C\<lparr>outq := q\<rparr> = C"
  by auto

lemma unat_count: "0 < n \<Longrightarrow> n \<le> 256 \<Longrightarrow> Suc (unat (of_nat (n - 1) :: u8)) = n"
  using unat_of_nat_u8[of "n - 1"] by simp

lemma tms_command:
  assumes "phase C = Ready" "outq C = []" "0 < n" "n \<le> 7"
  shows "takes_step clk [OP_CLK_TMS_NO_READ, of_nat (n - 1), b] None 0 C m
    (chip_clocks clk (tms_cycles b n) C) m"
  using assms unat_count[of n]
  by (simp add: takes_step_def Let_def three_byte_command two_operands_def exec_command_def)

text \<open>A command that clocks \<open>cyc\<close> and answers one byte, taken apart by a bit copier.\<close>

lemma emit_observed:
  assumes n: "length cyc \<le> 8" and buf: "m tdo = Some buf" "a + length cyc \<le> 8 * length buf"
    and V: "chip_run clk tx C = emit (chip_clocks clk cyc C)" and outq: "outq C = []"
  shows "takes_step clk tx (Some (Bit_Copier (8 - length cyc) tdo a (length cyc))) 1 C m
    (chip_clocks clk cyc C) (m(tdo \<mapsto> put_bits buf a (samples clk (target C) cyc)))"
proof -
  let ?r = "tdo_reg (chip_clocks clk cyc C)"
  define k where "k = 8 - length cyc"
  have "get_bit [?r] (k + i) = samples clk (target C) cyc ! i" if "i < length cyc" for i
  proof -
    have "k + i < 8" using that n unfolding k_def by linarith
    then show ?thesis using bit_tdo_reg[OF n, of "k + i" clk C] by (simp add: get_bit_eq k_def)
  qed
  then have "copy_bits [?r] (8 - length cyc) buf a (length cyc) False = put_bits buf a (samples clk (target C) cyc)"
    using copy_bits_put_bits[of a "samples clk (target C) cyc" buf "[?r]" k] buf by (simp add: k_def)
  then show ?thesis
    using V outq buf n by (simp add: takes_step_def Let_def emit_def)
qed

lemma data_bits_command:
  assumes "phase C = Ready" "outq C = []" "0 < n" "n \<le> 8"
    and buf: "m tdo = Some buf" "a + n \<le> 8 * length buf"
  shows "takes_step clk [OP_CLK_DATA_BITS_OUT_NEG_IN_NEG, of_nat (n - 1), b]
    (Some (Bit_Copier (8 - n) tdo a n)) 1 C m
    (chip_clocks clk (data_cycles (tms_pin C) b n) C)
    (m(tdo \<mapsto> put_bits buf a (samples clk (target C) (data_cycles (tms_pin C) b n))))"
proof -
  have "chip_run clk [OP_CLK_DATA_BITS_OUT_NEG_IN_NEG, of_nat (n - 1), b] C =
        emit (chip_clocks clk (data_cycles (tms_pin C) b n) C)"
    using assms unat_count[of n]
    by (simp add: three_byte_command two_operands_def exec_command_def)
  then show ?thesis
    using emit_observed[of "data_cycles (tms_pin C) b n" m tdo buf a clk _ C] assms
    by (simp add: data_cycles_def)
qed

lemma tms_read_command:
  assumes "phase C = Ready" "outq C = []"
    and buf: "m tdo = Some buf" "a < 8 * length buf"
  shows "takes_step clk [OP_CLK_TMS_READ_NEG, 0, b] (Some (Bit_Copier 7 tdo a 1)) 1 C m
    (chip_clocks clk [(bit b 0, bit b 7)] C)
    (m(tdo \<mapsto> put_bits buf a (samples clk (target C) [(bit b 0, bit b 7)])))"
proof -
  have "chip_run clk [OP_CLK_TMS_READ_NEG, 0, b] C = emit (chip_clocks clk [(bit b 0, bit b 7)] C)"
    using assms by (simp add: three_byte_command two_operands_def exec_command_def tms_cycles_def)
  then show ?thesis
    using emit_observed[of "[(bit b 0, bit b 7)]" m tdo buf a clk _ C] assms by simp
qed

section \<open>Byte transfers\<close>

lemma data_byte_step:
  assumes "phase C = Data (Suc k)"
  shows "chip_step clk b C =
    (chip_clocks clk (data_cycles (tms_pin C) b 8) C)
      \<lparr>phase := (if k = 0 then Ready else Data k),
       outq := outq C @ [tdo_reg (chip_clocks clk (data_cycles (tms_pin C) b 8) C)]\<rparr>"
  using assms by (simp add: chip_step.simps emit_def)

definition byte_cycles :: "bool \<Rightarrow> u8 list \<Rightarrow> (bool \<times> bool) list" where
  "byte_cycles tms bs = concat (map (\<lambda>b. data_cycles tms b 8) bs)"

lemma length_byte_cycles [simp]: "length (byte_cycles tms bs) = 8 * length bs"
  by (induction bs) (simp_all add: byte_cycles_def data_cycles_def)

lemma byte_cycles_nth:
  "byte_cycles tms bs = map (\<lambda>i. (tms, get_bit bs i)) [0..<8 * length bs]"
proof (induction bs rule: rev_induct)
  case (snoc b bs)
  have "map (\<lambda>i. (tms, get_bit (bs @ [b]) i)) [0..<8 * length (bs @ [b])] =
    map (\<lambda>i. (tms, get_bit (bs @ [b]) i)) [0..<8 * length bs] @
    map (\<lambda>i. (tms, get_bit (bs @ [b]) i)) [8 * length bs..<8 * length bs + 8]"
    using upt_split[of 0 "8 * length bs" "8 * length bs + 8"] by (simp add: add.commute flip: map_append)
  also have "map (\<lambda>i. (tms, get_bit (bs @ [b]) i)) [0..<8 * length bs] = byte_cycles tms bs"
    unfolding snoc.IH by (rule map_cong) (auto simp: get_bit_append)
  also have "map (\<lambda>i. (tms, get_bit (bs @ [b]) i)) [8 * length bs..<8 * length bs + 8] = data_cycles tms b 8"
    by (rule sym, unfold data_cycles_def, rule map_upt_eqI) (simp_all add: get_bit_eq nth_append)
  finally show ?case by (simp add: byte_cycles_def)
qed (simp add: byte_cycles_def)

lemma map_get_bit_Cons:
  "map (get_bit (b # bs)) [0..<8 * length (b # bs)] = map (get_bit [b]) [0..<8] @ map (get_bit bs) [0..<8 * length bs]"
proof -
  have "[0..<8 * length (b # bs)] = [0..<8] @ map (\<lambda>i. i + 8) [0..<8 * length bs]"
    using upt_split[of 0 8 "8 * length (b # bs)"] by (simp add: map_add_upt add.commute)
  then show ?thesis by (auto simp: get_bit_eq comp_def div_add_self2)
qed

lemma data_bytes_run:
  assumes "bs \<noteq> []" "phase C = Data (length bs)"
  shows "\<exists>ob. chip_run clk bs C =
      (chip_clocks clk (byte_cycles (tms_pin C) bs) C)\<lparr>phase := Ready, outq := outq C @ ob\<rparr> \<and>
    length ob = length bs \<and>
    map (get_bit ob) [0..<8 * length bs] = samples clk (target C) (byte_cycles (tms_pin C) bs)"
  using assms
proof (induction bs arbitrary: C)
  case (Cons b bs)
  define cyc where "cyc = data_cycles (tms_pin C) b 8"
  define C1 where "C1 = chip_step clk b C"
  define r where "r = tdo_reg (chip_clocks clk cyc C)"
  have C1: "C1 = (chip_clocks clk cyc C)\<lparr>phase := (if bs = [] then Ready else Data (length bs)), outq := outq C @ [r]\<rparr>"
    using data_byte_step[of C "length bs" clk b] Cons.prems by (simp add: C1_def cyc_def r_def)
  have len: "length cyc = 8" by (simp add: cyc_def data_cycles_def)
  have "samples clk (target C) cyc = map (get_bit [r]) [0..<8]"
    by (rule map_upt_eqI) (use len in \<open>auto simp: get_bit_eq r_def bit_tdo_reg\<close>)
  note r = this
  have pin: "tms_pin (chip_clocks clk cyc C) = tms_pin C"
    by (simp add: tms_pin_clocks cyc_def data_cycles_def last_map)
  have split: "byte_cycles (tms_pin C) (b # bs) = cyc @ byte_cycles (tms_pin C) bs"
    by (simp add: byte_cycles_def cyc_def)
  show ?case
  proof (cases "bs = []")
    case True
    then show ?thesis using C1 r len
      by (intro exI[of _ "[r]"]) (simp add: C1_def [symmetric] split byte_cycles_def cyc_def [symmetric] del: upt_Suc)
  next
    case False
    have "tms_pin C1 = tms_pin C" "target C1 = target (chip_clocks clk cyc C)" "phase C1 = Data (length bs)"
      "outq C1 = outq C @ [r]"
      using C1 False pin by simp_all
    with Cons.IH[OF False, of C1] obtain ob where ob:
      "chip_run clk bs C1 = (chip_clocks clk (byte_cycles (tms_pin C) bs) C1)\<lparr>phase := Ready, outq := outq C @ [r] @ ob\<rparr>"
      "length ob = length bs"
      "map (get_bit ob) [0..<8 * length bs] = samples clk (target (chip_clocks clk cyc C)) (byte_cycles (tms_pin C) bs)"
      by auto
    have "map (get_bit (r # ob)) [0..<8 * length (b # bs)] = samples clk (target C) (byte_cycles (tms_pin C) (b # bs))"
      using map_get_bit_Cons[of r ob] ob(2) by (simp add: split samples_append r ob(3) del: upt_Suc)
    moreover have "chip_run clk (b # bs) C =
      (chip_clocks clk (byte_cycles (tms_pin C) (b # bs)) C)\<lparr>phase := Ready, outq := outq C @ (r # ob)\<rparr>"
      using ob(1) by (simp add: C1_def [symmetric] split chip_clocks_upd C1)
    ultimately show ?thesis using ob(2) by (intro exI[of _ "r # ob"]) simp
  qed
qed simp

lemma data_header_command:
  assumes "phase C = Ready" "outq C = []" "0 < n" "n \<le> 65536"
  shows "takes_step clk [OP_CLK_DATA_BYTES_OUT_NEG_IN_NEG, of_int (int n - 1), of_int ((int n - 1) div 256)]
    None 0 C m (C\<lparr>phase := Data n\<rparr>) m"
proof -
  obtain k where k: "n = Suc k" using assms(3) by (cases n) auto
  have "unat (of_int (int n - 1) :: u8) = k mod 256"
    by (simp add: k unat_of_nat take_bit_eq_mod)
  moreover have "unat (of_int ((int n - 1) div 256) :: u8) = k div 256"
  proof -
    have "(int n - 1) div 256 = int (k div 256)" by (simp add: k zdiv_int)
    moreover have "k div 256 < 256" using assms(4) k by (simp add: less_mult_imp_div_less)
    ultimately show ?thesis using unat_of_nat_u8[of "k div 256"] by (simp only: of_int_of_nat_eq)
  qed
  ultimately have "unat (of_int (int n - 1) :: u8) + 256 * unat (of_int ((int n - 1) div 256) :: u8) + 1 = n"
    by (simp add: k)
  then show ?thesis
    using assms by (simp add: takes_step_def Let_def three_byte_command two_operands_def exec_command_def)
qed

lemma data_bytes_command:
  assumes "bs \<noteq> []" "phase C = Data (length bs)" "outq C = []"
    and buf: "m tdo = Some buf" "off + length bs \<le> length buf"
    and ob: "ob = Byte_Copier tdo off (length bs) \<or> ob = Bulk_Byte_Copier tdo off (length bs) 0"
  shows "takes_step clk bs (Some ob) (length bs) C m
    ((chip_clocks clk (byte_cycles (tms_pin C) bs) C)\<lparr>phase := Ready\<rparr>)
    (m(tdo \<mapsto> put_bits buf (8 * off) (samples clk (target C) (byte_cycles (tms_pin C) bs))))"
proof -
  obtain out where out: "chip_run clk bs C =
      (chip_clocks clk (byte_cycles (tms_pin C) bs) C)\<lparr>phase := Ready, outq := out\<rparr>"
    "length out = length bs"
    "map (get_bit out) [0..<8 * length bs] = samples clk (target C) (byte_cycles (tms_pin C) bs)"
    using data_bytes_run[OF assms(1,2), of clk] assms(3) by auto
  have "run_observer out ob m = Ret (m(tdo \<mapsto> put_bits buf (8 * off) (samples clk (target C) (byte_cycles (tms_pin C) bs))))"
    using ob buf out splice_put_bits[of off out buf] by (auto simp: mem_copy_def)
  then show ?thesis
    using out assms(1,3) by (auto simp: takes_step_def Let_def)
qed

end
