(* ===== verification/Mpsse_Correct.thy ===== *)
theory Mpsse_Correct
  imports Mpsse_Response
begin

text \<open>
  The scan is correct. \<open>append_tms_shift\<close> and \<open>append_tdi_shift\<close> clock exactly the bits of
  their segment, the observers of a data segment put the TDO samples at the segment's positions,
  and the segments the scan cuts the vectors into add up to one pass over all bits.
\<close>

section \<open>TMS segments\<close>

lemma bit_tms_bits_byte:
  "n \<le> 8 \<Longrightarrow> bit (tms_bits_byte tms f n) i = (i < n \<and> get_bit tms (f + i))"
proof (induction n)
  case (Suc n)
  then show ?case
    by (auto simp: tms_bits_byte_def bit_or_iff bit_simps8 less_Suc_eq)
qed (simp add: tms_bits_byte_def)

lemma tms_segment:
  assumes drv: "ideal_driver clk chip_of drv" and abs: "abstracts clk chip_of io C m"
    and C: "phase C = Ready" and room: "3 \<le> max_tx_buffer_bytes (mctx io)" and le: "from_bit \<le> to_bit"
  shows "\<exists>io'. append_tms_shift drv tms from_bit to_bit io = Ret (0, io') \<and>
    abstracts clk chip_of io' (chip_clocks clk (map (\<lambda>i. (get_bit tms i, last_tdi (mctx io))) [from_bit..<to_bit]) C) m \<and>
    cfg (mctx io') = cfg (mctx io) \<and> pool_used (mctx io') = pool_used (mctx io)"
  using abs C room le
proof (induction "to_bit - from_bit" arbitrary: from_bit io C rule: less_induct)
  case less
  show ?case
  proof (cases "from_bit < to_bit")
    case False
    then show ?thesis using less.prems by (subst append_tms_shift.simps) auto
  next
    case True
    define n where "n = min (to_bit - from_bit) 6"
    define b where "b = tms_bits_byte tms from_bit n OR push_bit 7 (of_bool (last_tdi (mctx io)))"
    define cyc where "cyc = (\<lambda>a e. map (\<lambda>i. (get_bit tms i, last_tdi (mctx io))) [a..<e])"
    have cyc: "map (\<lambda>i. (get_bit tms i, last_tdi (mctx io))) [a..<e] = cyc a e" for a e by (simp add: cyc_def)
    have n: "0 < n" "n \<le> 6" "from_bit + n \<le> to_bit" using True by (auto simp: n_def)
    have "tms_cycles b n = cyc from_bit (from_bit + n)"
      unfolding tms_cycles_def cyc_def
      by (rule map_upt_eqI) (use n in \<open>auto simp: b_def bit_or_iff bit_tms_bits_byte bit_simps8\<close>)
    then have step: "takes_step clk [OP_CLK_TMS_NO_READ, of_nat (n - 1), b] None 0 C m
        (chip_clocks clk (cyc from_bit (from_bit + n)) C) m"
      using tms_command[of C n clk b m] less.prems n abstracts_outq[OF less.prems(1)] by simp
    obtain io1 where io1: "mpsse_buffer_append drv [OP_CLK_TMS_NO_READ, of_nat (n - 1), b] None 0 io = Ret (0, io1)"
      "abstracts clk chip_of io1 (chip_clocks clk (cyc from_bit (from_bit + n)) C) m"
      "cfg (mctx io1) = cfg (mctx io)" "pool_used (mctx io1) = pool_used (mctx io)"
      using append_abstracts[OF drv less.prems(1) step] less.prems by auto
    have same: "last_tdi (mctx io1) = last_tdi (mctx io)" "max_tx_buffer_bytes (mctx io1) = max_tx_buffer_bytes (mctx io)"
      using io1(3) by (simp_all add: cfg_def)
    obtain io2 where io2: "append_tms_shift drv tms (from_bit + n) to_bit io1 = Ret (0, io2)"
      "abstracts clk chip_of io2 (chip_clocks clk (cyc (from_bit + n) to_bit) (chip_clocks clk (cyc from_bit (from_bit + n)) C)) m"
      "cfg (mctx io2) = cfg (mctx io)" "pool_used (mctx io2) = pool_used (mctx io)"
      using less.hyps[of "from_bit + n" io1, OF _ io1(2)] less.prems(2,3) n True unfolding same io1(3,4) cyc_def
      by (force simp del: upt_Suc)
    have "cyc from_bit to_bit = cyc from_bit (from_bit + n) @ cyc (from_bit + n) to_bit"
      using upt_split[of from_bit "from_bit + n" to_bit] n by (simp add: cyc_def flip: map_append)
    then show ?thesis
      using io1(1) io2 True by (subst append_tms_shift.simps) (simp add: n_def[symmetric] b_def[symmetric] cyc Let_def)
  qed
qed

section \<open>Data segments\<close>

lemma octet_end:
  assumes "f + lead = 8 * a" "lead < (8::nat)"
  shows "f mod 8 = 0 \<and> lead = 0 \<or> f mod 8 + lead = 8"
proof -
  have "r = 0 \<and> lead = 0 \<or> r + lead = 8" if "8 * q + r + lead = 8 * a" "r < 8" for q r
    using that assms(2) by presburger
  from this[of "f div 8" "f mod 8"] show ?thesis using assms(1) by simp
qed

lemma first_octet:
  assumes "f + lead = 8 * a" "lead < (8::nat)"
  shows "(if 8 - f mod 8 = 8 then 0 else 8 - f mod 8) = lead"
  using octet_end[OF assms] assms(2) by (cases "8 - f mod 8 = 8"; simp; linarith)

lemma plan_leading_only:
  assumes "f < t" "f + lead = 8 * a" "lead < 8" "t - 1 \<le> 8 * a"
  shows "tdi_plan_of f t = \<lparr>from_idx = f, to_idx = t, last_bit_idx = t - 1, num_leading_bits = t - 1 - f,
     inner_end_idx = -1, num_trailing_bits = 0, total_inner_bytes = 0\<rparr>"
proof -
  note lead = first_octet[OF assms(2,3)]
  have "min lead (t - 1 - f) = t - 1 - f" using assms by linarith
  then show ?thesis by (simp add: tdi_plan_of_def Let_def lead)
qed

lemma plan_inner:
  assumes "f < t" "f + lead = 8 * a" "lead < 8" "8 * a < t - 1"
  shows "tdi_plan_of f t = \<lparr>from_idx = f, to_idx = t, last_bit_idx = t - 1, num_leading_bits = lead,
     inner_end_idx = int (8 * ((t - 1) div 8)), num_trailing_bits = (t - 1) mod 8,
     total_inner_bytes = (t - 1) div 8 - a\<rparr>"
proof -
  define b where "b = (t - 1) div 8"
  note lead = first_octet[OF assms(2,3)]
  have min: "min lead (t - 1 - f) = lead" "lead \<noteq> t - 1 - f" using assms by linarith+
  have "t - 1 - (t - 1) mod 8 = 8 * b" by (simp add: b_def minus_mod_eq_mult_div)
  moreover have "a \<le> b" unfolding b_def using assms(4) by linarith
  moreover have "\<not> 8 * b > f \<Longrightarrow> a = b" using assms \<open>a \<le> b\<close> by linarith
  moreover have "(8 * b - (f + lead)) div 8 = b - a" using assms(2) by (simp flip: diff_mult_distrib2)
  ultimately show ?thesis unfolding b_def [symmetric]
    by (cases "8 * b > f") (simp_all only: tdi_plan_of_def Let_def lead min b_def [symmetric] if_True if_False
        simp_thms nat_int of_nat_less_iff diff_self_eq_0)
qed

text \<open>
  The state while a data segment that starts at bit \<open>f\<close> is being queued: the cycles \<open>cyc\<close> are
  clocked, their samples are (or will be, after the flush) at positions \<open>f, f + 1, \<dots>\<close> of the
  TDO block.
\<close>

definition shifted ::
  "'t clocked \<Rightarrow> ('d \<Rightarrow> 't chip) \<Rightarrow> nat \<Rightarrow> nat \<Rightarrow> 't chip \<Rightarrow> memory \<Rightarrow> u8 list \<Rightarrow> (bool \<times> bool) list \<Rightarrow> 'd mpsse_io \<Rightarrow> bool" where
  "shifted clk chip_of tdo f C0 m0 buf cyc io \<longleftrightarrow>
     abstracts clk chip_of io (chip_clocks clk cyc C0) (m0(tdo \<mapsto> put_bits buf f (samples clk (target C0) cyc)))"

lemma shifted_extend:
  assumes "f + length cyc + length new \<le> 8 * length buf"
  shows "(m0(tdo \<mapsto> put_bits buf f (samples clk (target C0) cyc)))
      (tdo \<mapsto> put_bits (put_bits buf f (samples clk (target C0) cyc)) (f + length cyc)
         (samples clk (target (chip_clocks clk cyc C0)) new)) =
    m0(tdo \<mapsto> put_bits buf f (samples clk (target C0) (cyc @ new)))"
  using assms put_bits_put_bits[of f "samples clk (target C0) cyc" "samples clk (target (chip_clocks clk cyc C0)) new" buf]
  by (simp add: samples_append)

definition can_append :: "mpsse_context \<Rightarrow> nat \<Rightarrow> bool" where
  "can_append c k \<longleftrightarrow> 3 \<le> max_tx_buffer_bytes c \<and> 1 \<le> max_rx_buffer_bytes c \<and> pool_used c + k \<le> MEMORY_POOL_BYTES"

text \<open>\<open>clean_step cost io io'\<close>: only buffers changed, and the pool grew by at most \<open>cost\<close>.\<close>

definition clean_step :: "nat \<Rightarrow> 'd mpsse_io \<Rightarrow> 'd mpsse_io \<Rightarrow> bool" where
  "clean_step cost io io' \<longleftrightarrow> cfg (mctx io') = cfg (mctx io) \<and> pool_used (mctx io') \<le> pool_used (mctx io) + cost"

lemma clean_step_refl [simp]: "clean_step k io io"
  by (simp add: clean_step_def)

lemma clean_step_trans: "clean_step j io io1 \<Longrightarrow> clean_step k io1 io2 \<Longrightarrow> j + k \<le> l \<Longrightarrow> clean_step l io io2"
  by (simp add: clean_step_def)

lemma can_append_step: "clean_step j io io' \<Longrightarrow> can_append (mctx io) k \<Longrightarrow> j + l \<le> k \<Longrightarrow> can_append (mctx io') l"
  by (auto simp: clean_step_def can_append_def cfg_def)

lemma extend_bits:
  assumes drv: "ideal_driver clk chip_of drv" and sh: "shifted clk chip_of tdo f C0 m0 buf cyc io"
    and fits: "f + length cyc + length new \<le> 8 * length buf" and cmd: "length cmd = 3"
    and step: "\<And>m d. m tdo = Some d \<Longrightarrow> length d = length buf \<Longrightarrow>
      takes_step clk cmd (Some (Bit_Copier fb tdo (f + length cyc) nb)) 1 (chip_clocks clk cyc C0) m
        (chip_clocks clk new (chip_clocks clk cyc C0))
        (m(tdo \<mapsto> put_bits d (f + length cyc) (samples clk (target (chip_clocks clk cyc C0)) new)))"
    and room: "can_append (mctx io) 56"
  shows "\<exists>io'. bits_command drv cmd fb tdo (f + length cyc) nb io = Ret (0, io') \<and>
    shifted clk chip_of tdo f C0 m0 buf (cyc @ new) io' \<and> clean_step 56 io io'"
proof -
  let ?m = "m0(tdo \<mapsto> put_bits buf f (samples clk (target C0) cyc))"
  have st: "takes_step clk cmd (Some (Bit_Copier fb tdo (f + length cyc) nb)) 1 (chip_clocks clk cyc C0) ?m
      (chip_clocks clk (cyc @ new) C0) (m0(tdo \<mapsto> put_bits buf f (samples clk (target C0) (cyc @ new))))"
    using step[of ?m "put_bits buf f (samples clk (target C0) cyc)"] shifted_extend[OF fits, of m0 tdo clk C0] by simp
  obtain c where c: "pool_alloc 24 (mctx io) = Some c" "abstracts clk chip_of (io\<lparr>mctx := c\<rparr>) (chip_clocks clk cyc C0) ?m"
    "cfg c = cfg (mctx io)" "pool_used c = pool_used (mctx io) + 24"
    using alloc_abstracts[OF sh[unfolded shifted_def], of 24] room by (auto simp: can_append_def)
  then obtain io' where "mpsse_buffer_add_write_with_readback drv cmd (Some (Bit_Copier fb tdo (f + length cyc) nb)) 1
      (io\<lparr>mctx := c\<rparr>) = Ret (0, io')" "cfg (mctx io') = cfg c" "pool_used (mctx io') = pool_used c + 32"
      "shifted clk chip_of tdo f C0 m0 buf (cyc @ new) io'"
    using readback_abstracts[OF drv c(2) st] room cmd by (auto simp: can_append_def cfg_def shifted_def)
  with c show ?thesis by (simp add: bits_command_def clean_step_def)
qed

definition seg :: "u8 list \<Rightarrow> nat \<Rightarrow> nat \<Rightarrow> (bool \<times> bool) list" where
  "seg tdi a e = map (\<lambda>i. (False, get_bit tdi i)) [a..<e]"

lemma length_seg [simp]: "length (seg tdi a e) = e - a"
  by (simp add: seg_def)

lemma seg_append: "a \<le> b \<Longrightarrow> b \<le> c \<Longrightarrow> seg tdi a b @ seg tdi b c = seg tdi a c"
  using upt_split[of a b c] by (simp add: seg_def flip: map_append)

lemma seg_Nil [simp]: "seg tdi a a = []"
  by (simp add: seg_def)

lemma tms_pin_seg: "\<not> tms_pin C \<Longrightarrow> \<not> tms_pin (chip_clocks clk (seg tdi a e) C)"
  by (simp add: tms_pin_clocks seg_def last_map)

text \<open>A command for \<open>n \<le> 8\<close> bits.\<close>

lemma segment_bits:
  assumes drv: "ideal_driver clk chip_of drv" and C0: "phase C0 = Ready" "\<not> tms_pin C0"
    and sh: "shifted clk chip_of tdo f C0 m0 buf (seg tdi f a) io"
    and fits: "f \<le> a" "0 < n" "n \<le> 8" "a + n \<le> 8 * length buf"
    and b: "\<And>i. i < n \<Longrightarrow> bit b i = get_bit tdi (a + i)" and room: "can_append (mctx io) 56"
  shows "\<exists>io'. bits_command drv [OP_CLK_DATA_BITS_OUT_NEG_IN_NEG, of_nat (n - 1), b] (8 - n) tdo a n io = Ret (0, io') \<and>
    shifted clk chip_of tdo f C0 m0 buf (seg tdi f (a + n)) io' \<and> clean_step 56 io io'"
proof -
  define C where "C = chip_clocks clk (seg tdi f a) C0"
  have C: "phase C = Ready" "outq C = []" "\<not> tms_pin C"
    using C0 tms_pin_seg[of C0] abstracts_outq[OF sh[unfolded shifted_def]] by (auto simp: C_def)
  have new: "data_cycles (tms_pin C) b n = seg tdi a (a + n)"
    unfolding seg_def data_cycles_def using C b by (intro map_upt_eqI) auto
  have "takes_step clk [OP_CLK_DATA_BITS_OUT_NEG_IN_NEG, of_nat (n - 1), b] (Some (Bit_Copier (8 - n) tdo a n)) 1 C m
     (chip_clocks clk (seg tdi a (a + n)) C) (m(tdo \<mapsto> put_bits d a (samples clk (target C) (seg tdi a (a + n)))))"
    if "m tdo = Some d" "length d = length buf" for m d
    using data_bits_command[OF C(1,2) fits(2,3), of m tdo d a clk b] that fits(4) by (simp only: new)
  then show ?thesis
    using extend_bits[OF drv sh, of "seg tdi a (a + n)" "[OP_CLK_DATA_BITS_OUT_NEG_IN_NEG, of_nat (n - 1), b]" "8 - n" n]
      fits room seg_append[of f a "a + n" tdi]
    by (simp add: C_def)
qed

text \<open>The whole bytes of the segment, in one command.\<close>

lemma seg_bytes:
  assumes "a + n \<le> length tdi"
  shows "byte_cycles False (take n (drop a tdi)) = seg tdi (8 * a) (8 * (a + n))"
proof -
  define bs where "bs = take n (drop a tdi)"
  have bs: "length bs = n" using assms by (simp add: bs_def)
  show ?thesis
    unfolding seg_def byte_cycles_nth bs_def[symmetric] bs
  proof (rule map_upt_eqI)
    fix i assume "i < 8 * (a + n) - 8 * a"
    then have "i div 8 < n" "i < 8 * n" by (auto intro: div8_less)
    then show "map (\<lambda>i. (False, get_bit bs i)) [0..<8 * n] ! i = (False, get_bit tdi (8 * a + i))"
      using assms by (simp add: get_bit_eq bs_def)
  qed simp
qed

lemma segment_bytes:
  assumes drv: "ideal_driver clk chip_of drv" and C0: "phase C0 = Ready" "\<not> tms_pin C0"
    and sh: "shifted clk chip_of tdo f C0 m0 buf (seg tdi f (8 * a)) io"
    and fits: "f \<le> 8 * a" "0 < n" "n \<le> 65536" "a + n \<le> length buf" "a + n \<le> length tdi"
    and room: "can_append (mctx io) 32" "n \<le> max_tx_buffer_bytes (mctx io)" "n \<le> max_rx_buffer_bytes (mctx io)"
  shows "\<exists>io1 io'. mpsse_buffer_append drv
        [OP_CLK_DATA_BYTES_OUT_NEG_IN_NEG, of_int (int n - 1), of_int ((int n - 1) div 256)] None 0 io = Ret (0, io1) \<and>
      mpsse_buffer_add_write_with_readback drv (take n (drop a tdi)) (Some (Bulk_Byte_Copier tdo a n 0)) n io1 = Ret (0, io') \<and>
    shifted clk chip_of tdo f C0 m0 buf (seg tdi f (8 * (a + n))) io' \<and> clean_step 32 io io'"
proof -
  define C where "C = chip_clocks clk (seg tdi f (8 * a)) C0"
  define bs where "bs = take n (drop a tdi)"
  define m where "m = m0(tdo \<mapsto> put_bits buf f (samples clk (target C0) (seg tdi f (8 * a))))"
  have abs: "abstracts clk chip_of io C m" using sh by (simp add: shifted_def C_def m_def)
  have C: "phase C = Ready" "outq C = []" "\<not> tms_pin C"
    using C0 tms_pin_seg[of C0] abstracts_outq[OF abs] by (auto simp: C_def)
  have bs: "length bs = n" "bs \<noteq> []" using fits by (auto simp: bs_def)
  have new: "byte_cycles False bs = seg tdi (8 * a) (8 * (a + n))" using seg_bytes[of a n tdi] fits(5) by (simp add: bs_def)
  have ext: "m(tdo \<mapsto> put_bits (put_bits buf f (samples clk (target C0) (seg tdi f (8 * a)))) (8 * a)
      (samples clk (target C) (seg tdi (8 * a) (8 * (a + n))))) =
    m0(tdo \<mapsto> put_bits buf f (samples clk (target C0) (seg tdi f (8 * (a + n)))))"
    using shifted_extend[of f "seg tdi f (8 * a)" "seg tdi (8 * a) (8 * (a + n))" buf m0 tdo clk C0] fits
      seg_append[of f "8 * a" "8 * (a + n)" tdi] by (simp add: m_def C_def)
  obtain io1 where io1: "mpsse_buffer_append drv [OP_CLK_DATA_BYTES_OUT_NEG_IN_NEG, of_int (int n - 1),
        of_int ((int n - 1) div 256)] None 0 io = Ret (0, io1)"
      "abstracts clk chip_of io1 (C\<lparr>phase := Data n\<rparr>) m" "cfg (mctx io1) = cfg (mctx io)"
      "pool_used (mctx io1) = pool_used (mctx io)"
    using append_abstracts[OF drv abs data_header_command[OF C(1,2) fits(2,3)]] room by (auto simp: can_append_def)
  have "takes_step clk bs (Some (Bulk_Byte_Copier tdo a n 0)) n (C\<lparr>phase := Data n\<rparr>) m
      (chip_clocks clk (seg tdi (8 * a) (8 * (a + n))) C)
      (m0(tdo \<mapsto> put_bits buf f (samples clk (target C0) (seg tdi f (8 * (a + n))))))"
    using data_bytes_command[of bs "C\<lparr>phase := Data n\<rparr>" m tdo
        "put_bits buf f (samples clk (target C0) (seg tdi f (8 * a)))" a "Bulk_Byte_Copier tdo a n 0" clk, OF bs(2)] bs C fits ext
    by (simp add: new chip_clocks_upd m_def)
  note st = this
  have "max_tx_buffer_bytes (mctx io1) = max_tx_buffer_bytes (mctx io)" "max_rx_buffer_bytes (mctx io1) = max_rx_buffer_bytes (mctx io)"
    using io1(3) by (simp_all add: cfg_def)
  then obtain io2 where io2: "mpsse_buffer_add_write_with_readback drv bs (Some (Bulk_Byte_Copier tdo a n 0)) n io1 = Ret (0, io2)"
      "abstracts clk chip_of io2 (chip_clocks clk (seg tdi (8 * a) (8 * (a + n))) C)
        (m0(tdo \<mapsto> put_bits buf f (samples clk (target C0) (seg tdi f (8 * (a + n))))))"
      "cfg (mctx io2) = cfg (mctx io)" "pool_used (mctx io2) = pool_used (mctx io) + 32"
    using readback_abstracts[OF drv io1(2) st] room bs io1(3,4) by (auto simp: can_append_def)
  have "chip_clocks clk (seg tdi (8 * a) (8 * (a + n))) C = chip_clocks clk (seg tdi f (8 * (a + n))) C0"
    using seg_append[of f "8 * a" "8 * (a + n)" tdi] fits by (simp add: C_def flip: chip_clocks_append)
  with io1(1) io2 show ?thesis by (simp add: shifted_def clean_step_def bs_def [symmetric])
qed

text \<open>The four stages of the loop body.\<close>

lemma abstracts_last_tdi [simp]:
  "abstracts clk chip_of (io\<lparr>mctx := (mctx io)\<lparr>last_tdi := v\<rparr>\<rparr>) C m = abstracts clk chip_of io C m"
  by (simp add: abstracts_def mpsse_wf_def Let_def)

lemma stage_leading:
  assumes drv: "ideal_driver clk chip_of drv" and C0: "phase C0 = Ready" "\<not> tms_pin C0"
    and sh: "shifted clk chip_of tdo f C0 m0 buf [] io" and room: "can_append (mctx io) 56"
    and p: "from_idx p = f" "num_leading_bits p = n" "f + n \<le> 8 * length buf" "f mod 8 + n \<le> 8"
  shows "\<exists>io'. tdi_leading drv tdi tdo p (f, io) = Ret (0, f + n, io') \<and>
    shifted clk chip_of tdo f C0 m0 buf (seg tdi f (f + n)) io' \<and> clean_step (24 + 32 * n) io io'"
proof (cases "n = 0")
  case True
  then show ?thesis using sh p by (simp add: tdi_leading_def)
next
  case False
  have "bit (drop_bit (f mod 8) (tdi ! (f div 8))) i = get_bit tdi (f + i)" if "i < n" for i
  proof -
    have "f mod 8 = f - 8 * (f div 8)" "8 * (f div 8) \<le> f" by (simp_all add: minus_mult_div_eq_mod)
    then have "8 * (f div 8) \<le> f + i" "f + i < 8 * (f div 8) + 8" using that p(4) by linarith+
    from div8_eqI[OF this] mod8_eqI[OF this] have "(f + i) div 8 = f div 8" "(f + i) mod 8 = f mod 8 + i"
      using \<open>f mod 8 = _\<close> \<open>8 * (f div 8) \<le> f\<close> by linarith+
    then show ?thesis by (simp add: bit_drop_bit_eq get_bit_eq)
  qed
  then obtain io' where "bits_command drv [OP_CLK_DATA_BITS_OUT_NEG_IN_NEG, of_nat (n - 1),
        drop_bit (f mod 8) (tdi ! (f div 8))] (8 - n) tdo f n io = Ret (0, io')"
      "shifted clk chip_of tdo f C0 m0 buf (seg tdi f (f + n)) io'" "clean_step 56 io io'"
    using segment_bits[OF drv C0, of tdo f m0 buf tdi f io n "drop_bit (f mod 8) (tdi ! (f div 8))"] sh room p False
    by auto
  then show ?thesis using False unfolding tdi_leading_def prod.case p
    by (simp del: of_nat_diff add: clean_step_def)
qed

lemma stage_trailing:
  assumes drv: "ideal_driver clk chip_of drv" and C0: "phase C0 = Ready" "\<not> tms_pin C0"
    and sh: "shifted clk chip_of tdo f C0 m0 buf (seg tdi f (8 * b)) io" and room: "can_append (mctx io) 56"
    and p: "inner_end_idx p = int (8 * b)" "num_trailing_bits p = n" "last_bit_idx p = 8 * b + n"
      "8 * b + n \<le> 8 * length buf" "n < 8" "f \<le> 8 * b"
  shows "\<exists>io'. tdi_trailing drv tdi tdo p (8 * b, io) = Ret (0, 8 * b + n, io') \<and>
    shifted clk chip_of tdo f C0 m0 buf (seg tdi f (8 * b + n)) io' \<and> clean_step (24 + 32 * n) io io'"
proof (cases "n = 0")
  case True
  then show ?thesis using sh p by (simp add: tdi_trailing_def)
next
  case False
  have bits: "\<And>i. i < n \<Longrightarrow> bit (tdi ! b) i = get_bit tdi (8 * b + i)"
    using p by (simp add: get_bit_eq)
  obtain io' where "bits_command drv [OP_CLK_DATA_BITS_OUT_NEG_IN_NEG, of_nat (n - 1), tdi ! b]
      (8 - n) tdo (8 * b) n io = Ret (0, io')"
      "shifted clk chip_of tdo f C0 m0 buf (seg tdi f (8 * b + n)) io'" "clean_step 56 io io'"
    using segment_bits[OF drv C0 sh, of n "tdi ! b"] bits room p False by auto
  then show ?thesis using False unfolding tdi_trailing_def prod.case p nat_int
    by (simp del: of_nat_diff add: clean_step_def)
qed

lemma stage_whole:
  assumes drv: "ideal_driver clk chip_of drv" and C0: "phase C0 = Ready" "\<not> tms_pin C0"
    and sh: "shifted clk chip_of tdo f C0 m0 buf (seg tdi f (8 * a)) io" and room: "can_append (mctx io) 32"
    and p: "inner_end_idx p = int (8 * b)" "total_inner_bytes p = b - a" "8 * b \<le> last_bit_idx p"
      "from_idx p + num_leading_bits p = 8 * a" "f \<le> 8 * a" "a \<le> b" "b \<le> length buf" "b \<le> length tdi"
    and fits: "b - a \<le> chip_buffer_size (mctx io)" "b - a \<le> max_tx_buffer_bytes (mctx io)"
      "b - a \<le> max_rx_buffer_bytes (mctx io)" "b - a \<le> 65536"
  shows "\<exists>io'. tdi_whole drv tdi tdo p (8 * a, io) = Ret (0, 8 * b, io') \<and>
    shifted clk chip_of tdo f C0 m0 buf (seg tdi f (8 * b)) io' \<and> clean_step (if a < b then 32 else 0) io io'"
proof (cases "a < b")
  case False
  then show ?thesis using sh p by (simp add: tdi_whole_def)
next
  case True
  define n where "n = b - a"
  have n: "0 < n" "a + n = b" "8 * a < last_bit_idx p" using True p by (auto simp: n_def)
  have octets: "min ((nat (inner_end_idx p) - 8 * a) div 8) (chip_buffer_size (mctx io)) = n"
    using fits p n by (simp add: nat_int n_def del: nat_mult_distrib flip: diff_mult_distrib2)
  have start: "c_div (int (8 * a) - int (from_idx p + num_leading_bits p)) 8 = 0"
    "(from_idx p + num_leading_bits p) div 8 = a"
    unfolding p(4) by simp_all
  have guard: "8 * a < last_bit_idx p \<and> int (8 * a) < inner_end_idx p" "n > 0 \<and> total_inner_bytes p = n"
    using n True p by (auto simp: n_def)
  obtain io1 io' where io': "mpsse_buffer_append drv
        [OP_CLK_DATA_BYTES_OUT_NEG_IN_NEG, of_int (int n - 1), of_int ((int n - 1) div 256)] None 0 io = Ret (0, io1)"
      "mpsse_buffer_add_write_with_readback drv (take n (drop a tdi)) (Some (Bulk_Byte_Copier tdo a n 0)) n io1 = Ret (0, io')"
    "shifted clk chip_of tdo f C0 m0 buf (seg tdi f (8 * b)) io'" "clean_step 32 io io'"
    using segment_bytes[OF drv C0 sh, of n] p n fits room by (auto simp: n_def)
  have "8 * a + n * 8 = 8 * b" "8 * a div 8 = a" using n by simp_all
  then show ?thesis
    using io' guard True unfolding tdi_whole_def prod.case Let_def octets start by (simp del: of_int_diff)
qed

lemma stage_last:
  assumes drv: "ideal_driver clk chip_of drv" and C0: "phase C0 = Ready" "\<not> tms_pin C0"
    and sh: "shifted clk chip_of tdo f C0 m0 buf (seg tdi f l) io" and room: "can_append (mctx io) 56"
    and p: "last_bit_idx p = l" "f \<le> l" "l < 8 * length buf"
  shows "\<exists>io'. tdi_last_bit drv tdi tdo p h (l, io) = Ret (0, l + 1, io'\<lparr>mctx := (mctx io')\<lparr>last_tdi := get_bit tdi l\<rparr>\<rparr>) \<and>
    shifted clk chip_of tdo f C0 m0 buf (seg tdi f l @ [(h, get_bit tdi l)]) io' \<and> clean_step 56 io io'"
proof -
  define C where "C = chip_clocks clk (seg tdi f l) C0"
  define b :: u8 where "b = push_bit 7 (of_bool (get_bit tdi l)) OR push_bit 1 (of_bool h) OR of_bool h"
  have C: "phase C = Ready" "outq C = []"
    using C0 abstracts_outq[OF sh[unfolded shifted_def]] by (auto simp: C_def)
  have b: "bit b 0 = h" "bit b 7 = get_bit tdi l" by (auto simp: b_def bit_or_iff bit_simps8)
  have "takes_step clk [OP_CLK_TMS_READ_NEG, 0, b] (Some (Bit_Copier 7 tdo l 1)) 1 C m
     (chip_clocks clk [(h, get_bit tdi l)] C) (m(tdo \<mapsto> put_bits d l (samples clk (target C) [(h, get_bit tdi l)])))"
    if "m tdo = Some d" "length d = length buf" for m d
    using tms_read_command[OF C, of m tdo d l clk b] that p(3) by (simp only: b)
  then obtain io' where "bits_command drv [OP_CLK_TMS_READ_NEG, 0, b] 7 tdo l 1 io = Ret (0, io')"
     "shifted clk chip_of tdo f C0 m0 buf (seg tdi f l @ [(h, get_bit tdi l)]) io'" "clean_step 56 io io'"
    using extend_bits[OF drv sh, of "[(h, get_bit tdi l)]" "[OP_CLK_TMS_READ_NEG, 0, b]" 7 1] p room
    unfolding C_def by auto
  then show ?thesis using p by (auto simp: tdi_last_bit_def b_def)
qed

text \<open>The stages up to the last bit, for both shapes of the plan.\<close>

lemma regular_bits_short:
  assumes drv: "ideal_driver clk chip_of drv" and C0: "phase C0 = Ready" "\<not> tms_pin C0"
    and sh: "shifted clk chip_of tdo f C0 m0 buf [] io"
    and ft: "f < t" "t \<le> 8 * length buf" "t \<le> 8 * length tdi"
    and fits: "(t - f) div 8 \<le> chip_buffer_size (mctx io)" "(t - f) div 8 \<le> max_tx_buffer_bytes (mctx io)"
      "(t - f) div 8 \<le> max_rx_buffer_bytes (mctx io)" "(t - f) div 8 \<le> 65536"
    and p: "p = tdi_plan_of f t"
    and room: "can_append (mctx io) ((if total_inner_bytes p > 0 then 56 else 72) + 32 * (t - f))"
    and a: "f + lead = 8 * a" "lead < 8" and True: "t - 1 \<le> 8 * a"
  shows "\<exists>io'. ok_then (ok_then (tdi_leading drv tdi tdo p (f, io)) (tdi_whole drv tdi tdo p)) (tdi_trailing drv tdi tdo p) =
      Ret (0, t - 1, io') \<and> shifted clk chip_of tdo f C0 m0 buf (seg tdi f (t - 1)) io' \<and>
    clean_step ((if total_inner_bytes p > 0 then 0 else 16) + 32 * (t - f)) io io'"
proof -
  note p1 = plan_leading_only[OF ft(1) a True, folded p]
  obtain io1 where io1: "tdi_leading drv tdi tdo p (f, io) = Ret (0, t - 1, io1)"
    "shifted clk chip_of tdo f C0 m0 buf (seg tdi f (t - 1)) io1" "clean_step (24 + 32 * (t - 1 - f)) io io1"
  proof -
    have "f mod 8 + (t - 1 - f) \<le> 8" "f + (t - 1 - f) \<le> 8 * length buf" "f + (t - 1 - f) = t - 1"
      using octet_end[OF a] a True ft by linarith+
    moreover have "can_append (mctx io) 56" using room by (auto simp: can_append_def split: if_splits)
    ultimately show ?thesis
      using stage_leading[OF drv C0 sh, of p "t - 1 - f" tdi] that by (auto simp: p1)
  qed
  have "tdi_whole drv tdi tdo p (t - 1, io1) = Ret (0, t - 1, io1)" "tdi_trailing drv tdi tdo p (t - 1, io1) = Ret (0, t - 1, io1)"
    by (simp_all add: tdi_whole_def tdi_trailing_def p1)
  moreover have "clean_step (16 + 32 * (t - f)) io io1"
    by (rule clean_step_trans[OF io1(3) clean_step_refl[of 0]]) (use ft in linarith)
  ultimately show ?thesis using io1 by (simp add: p1)
qed

lemma regular_bits_long:
  assumes drv: "ideal_driver clk chip_of drv" and C0: "phase C0 = Ready" "\<not> tms_pin C0"
    and sh: "shifted clk chip_of tdo f C0 m0 buf [] io"
    and ft: "f < t" "t \<le> 8 * length buf" "t \<le> 8 * length tdi"
    and fits: "(t - f) div 8 \<le> chip_buffer_size (mctx io)" "(t - f) div 8 \<le> max_tx_buffer_bytes (mctx io)"
      "(t - f) div 8 \<le> max_rx_buffer_bytes (mctx io)" "(t - f) div 8 \<le> 65536"
    and p: "p = tdi_plan_of f t"
    and room: "can_append (mctx io) ((if total_inner_bytes p > 0 then 56 else 72) + 32 * (t - f))"
    and a: "f + lead = 8 * a" "lead < 8" and False: "\<not> t - 1 \<le> 8 * a"
  shows "\<exists>io'. ok_then (ok_then (tdi_leading drv tdi tdo p (f, io)) (tdi_whole drv tdi tdo p)) (tdi_trailing drv tdi tdo p) =
      Ret (0, t - 1, io') \<and> shifted clk chip_of tdo f C0 m0 buf (seg tdi f (t - 1)) io' \<and>
    clean_step ((if total_inner_bytes p > 0 then 0 else 16) + 32 * (t - f)) io io'"
proof -
  define b where "b = (t - 1) div 8"
  define r where "r = (t - 1) mod 8"
  have b: "t - 1 = 8 * b + r" "r < 8" "a \<le> b" using False by (auto simp: b_def r_def)
  note p1 = plan_inner[OF ft(1) a, folded p b_def r_def]
  have lens: "b \<le> length buf" "b \<le> length tdi" "8 * b + r \<le> 8 * length buf" "b - a \<le> (t - f) div 8" "f + lead \<le> 8 * length buf"
    "t - f = lead + 8 * (b - a) + r + 1"
    using b ft a by linarith+
  have lead: "f mod 8 + lead \<le> 8" using octet_end[OF a] by linarith
  note p1 = plan_inner[OF ft(1) a, folded p b_def r_def, unfolded b(1)]
  have p1: "p = \<lparr>from_idx = f, to_idx = t, last_bit_idx = 8 * b + r, num_leading_bits = lead,
     inner_end_idx = int (8 * b), num_trailing_bits = r, total_inner_bytes = b - a\<rparr>"
    using False p1 b by simp
  have room: "can_append (mctx io) ((if a < b then 56 else 72) + 32 * (t - f))"
    using room by (auto simp: p1 split: if_splits)
  obtain io1 where io1: "tdi_leading drv tdi tdo p (f, io) = Ret (0, 8 * a, io1)"
    "shifted clk chip_of tdo f C0 m0 buf (seg tdi f (8 * a)) io1" "clean_step (24 + 32 * lead) io io1"
    using stage_leading[OF drv C0 sh, of p lead tdi] can_append_step[OF clean_step_refl room, of 0 56] lens lead
    by (auto simp: p1 a(1))
  have "can_append (mctx io1) 32" using can_append_step[OF io1(3) room] lens(6) by (auto split: if_splits)
  moreover have "cfg (mctx io1) = cfg (mctx io)" using io1(3) by (simp add: clean_step_def)
  ultimately obtain io2 where io2: "tdi_whole drv tdi tdo p (8 * a, io1) = Ret (0, 8 * b, io2)"
    "shifted clk chip_of tdo f C0 m0 buf (seg tdi f (8 * b)) io2" "clean_step (if a < b then 32 else 0) io1 io2"
    using stage_whole[OF drv C0 io1(2), of p b] lens b(3) a(1) fits by (auto simp: p1 cfg_def)
  have io02: "clean_step (24 + 32 * lead + (if a < b then 32 else 0)) io io2"
    by (rule clean_step_trans[OF io1(3) io2(3)]) simp
  have "can_append (mctx io2) 56" using can_append_step[OF io02 room, of 56] lens(6) b(3) by (cases "a < b") auto
  then obtain io3 where io3: "tdi_trailing drv tdi tdo p (8 * b, io2) = Ret (0, 8 * b + r, io3)"
    "shifted clk chip_of tdo f C0 m0 buf (seg tdi f (8 * b + r)) io3" "clean_step (24 + 32 * r) io2 io3"
    using stage_trailing[OF drv C0 io2(2), of p r] lens b a(1) by (auto simp: p1)
  have "clean_step ((if b - a > 0 then 0 else 16) + 32 * (t - f)) io io3"
    by (rule clean_step_trans[OF io02 io3(3)]) (use lens(6) b(3) in auto)
  with io1(1) io2(1) io3 b(1) show ?thesis by (simp add: p1)
qed

lemma regular_bits:
  assumes drv: "ideal_driver clk chip_of drv" and C0: "phase C0 = Ready" "\<not> tms_pin C0"
    and sh: "shifted clk chip_of tdo f C0 m0 buf [] io"
    and ft: "f < t" "t \<le> 8 * length buf" "t \<le> 8 * length tdi"
    and fits: "(t - f) div 8 \<le> chip_buffer_size (mctx io)" "(t - f) div 8 \<le> max_tx_buffer_bytes (mctx io)"
      "(t - f) div 8 \<le> max_rx_buffer_bytes (mctx io)" "(t - f) div 8 \<le> 65536"
    and p: "p = tdi_plan_of f t"
    and room: "can_append (mctx io) ((if total_inner_bytes p > 0 then 56 else 72) + 32 * (t - f))"
  shows "\<exists>io'. ok_then (ok_then (tdi_leading drv tdi tdo p (f, io)) (tdi_whole drv tdi tdo p)) (tdi_trailing drv tdi tdo p) =
      Ret (0, t - 1, io') \<and> shifted clk chip_of tdo f C0 m0 buf (seg tdi f (t - 1)) io' \<and>
    clean_step ((if total_inner_bytes p > 0 then 0 else 16) + 32 * (t - f)) io io'"
proof -
  have a: "f + (8 * ((f + 7) div 8) - f) = 8 * ((f + 7) div 8)" "8 * ((f + 7) div 8) - f < 8" by linarith+
  show ?thesis
    using regular_bits_short[OF assms a] regular_bits_long[OF assms a] by blast
qed

lemma tdi_loop_once:
  assumes "tdi_body drv tdi tdo p h (f, io) = Ret (0, to_idx p, io')" "f < to_idx p"
  shows "tdi_loop drv tdi tdo p h (f, io) = Some (Ret (0, to_idx p, io'))"
  by (subst tdi_loop.simps, simp add: assms, subst tdi_loop.simps, simp)

theorem tdi_segment:
  assumes drv: "ideal_driver clk chip_of drv" and C0: "phase C0 = Ready" "\<not> tms_pin C0"
    and abs: "abstracts clk chip_of io C0 m0" "m0 tdo = Some buf"
    and ft: "f < t" "t \<le> 8 * length buf" "t \<le> 8 * length tdi"
    and fits: "(t - f) div 8 \<le> chip_buffer_size (mctx io)" "(t - f) div 8 \<le> max_tx_buffer_bytes (mctx io)"
      "(t - f) div 8 \<le> max_rx_buffer_bytes (mctx io)" "(t - f) div 8 \<le> 65536"
    and room: "can_append (mctx io) (72 + 32 * (t - f))"
  shows "\<exists>io'. append_tdi_shift drv tdi tdo f t h io =
      Ret (0, io'\<lparr>mctx := (mctx io')\<lparr>last_tdi := get_bit tdi (t - 1)\<rparr>\<rparr>) \<and>
    shifted clk chip_of tdo f C0 m0 buf (seg tdi f (t - 1) @ [(h, get_bit tdi (t - 1))]) io' \<and>
    clean_step (72 + 32 * (t - f)) io io'"
proof -
  define p where "p = tdi_plan_of f t"
  define k where "k = (if total_inner_bytes p > 0 then 16 else 0 :: nat)"
  have sh: "shifted clk chip_of tdo f C0 m0 buf [] io" using abs by (simp add: shifted_def fun_upd_idem)
  obtain c where c: "(if total_inner_bytes p > 0 then pool_alloc sizeof_bulk_byte_copier_extra (mctx io) else Some (mctx io)) = Some c"
    "shifted clk chip_of tdo f C0 m0 buf [] (io\<lparr>mctx := c\<rparr>)" "clean_step k io (io\<lparr>mctx := c\<rparr>)"
  proof (cases "total_inner_bytes p > 0")
    case True
    have "pool_used (mctx io) + 16 \<le> MEMORY_POOL_BYTES" using room by (simp add: can_append_def)
    then obtain c where "pool_alloc 16 (mctx io) = Some c" "shifted clk chip_of tdo f C0 m0 buf [] (io\<lparr>mctx := c\<rparr>)"
      "cfg c = cfg (mctx io)" "pool_used c = pool_used (mctx io) + 16"
      by (rule alloc_abstracts[OF sh[unfolded shifted_def], folded shifted_def])
    then show ?thesis using that[of c] True by (simp add: k_def clean_step_def)
  next
    case False
    then show ?thesis using that[of "mctx io"] sh by simp
  qed
  have room1: "can_append c ((if total_inner_bytes p > 0 then 56 else 72) + 32 * (t - f))"
    using can_append_step[OF c(3) room] by (auto simp: k_def)
  have fits1: "(t - f) div 8 \<le> chip_buffer_size c" "(t - f) div 8 \<le> max_tx_buffer_bytes c" "(t - f) div 8 \<le> max_rx_buffer_bytes c"
    using c(3) fits by (auto simp: clean_step_def cfg_def)
  obtain io1 where io1: "ok_then (ok_then (tdi_leading drv tdi tdo p (f, io\<lparr>mctx := c\<rparr>)) (tdi_whole drv tdi tdo p)) (tdi_trailing drv tdi tdo p) =
      Ret (0, t - 1, io1)" "shifted clk chip_of tdo f C0 m0 buf (seg tdi f (t - 1)) io1"
      "clean_step ((if total_inner_bytes p > 0 then 0 else 16) + 32 * (t - f)) (io\<lparr>mctx := c\<rparr>) io1"
    using regular_bits[OF drv C0 c(2) ft _ _ _ fits(4) p_def] fits1 room1 by auto
  have last: "last_bit_idx p = t - 1" "to_idx p = t" by (simp_all add: p_def tdi_plan_of_def Let_def)
  have io01: "clean_step (16 + 32 * (t - f)) io io1"
    by (rule clean_step_trans[OF c(3) io1(3)]) (simp add: k_def)
  have "can_append (mctx io1) 56" using can_append_step[OF io01 room] by auto
  then obtain io2 where io2: "tdi_last_bit drv tdi tdo p h (t - 1, io1) =
      Ret (0, t - 1 + 1, io2\<lparr>mctx := (mctx io2)\<lparr>last_tdi := get_bit tdi (t - 1)\<rparr>\<rparr>)"
      "shifted clk chip_of tdo f C0 m0 buf (seg tdi f (t - 1) @ [(h, get_bit tdi (t - 1))]) io2" "clean_step 56 io1 io2"
    using stage_last[OF drv C0 io1(2) _ last(1), of h] ft by fastforce
  have "tdi_body drv tdi tdo p h (f, io\<lparr>mctx := c\<rparr>) =
      Ret (0, to_idx p, io2\<lparr>mctx := (mctx io2)\<lparr>last_tdi := get_bit tdi (t - 1)\<rparr>\<rparr>)"
    using io1(1) io2(1) last ft by (simp add: tdi_body_def)
  from tdi_loop_once[OF this] last ft have "append_tdi_shift drv tdi tdo f t h io =
      Ret (0, io2\<lparr>mctx := (mctx io2)\<lparr>last_tdi := get_bit tdi (t - 1)\<rparr>\<rparr>)"
    unfolding append_tdi_shift_def Let_def p_def [symmetric] c(1) by simp
  moreover have "clean_step (72 + 32 * (t - f)) io io2" by (rule clean_step_trans[OF io01 io2(3)]) simp
  ultimately show ?thesis using io2(2) by blast
qed

end
