(* ===== verification/Mpsse_Reference.thy ===== *)
theory Mpsse_Reference
  imports Mpsse_Correct
begin

text \<open>
  What a scan should do, bit by bit, and that \<open>mpsse_adapter_scan\<close> does it. The reference
  drives one TCK cycle per bit: TMS from its vector, TDI from its vector while the TAP shifts
  and the last shifted bit otherwise; it stores the sampled TDO bit at every shift position and
  leaves the other positions of the TDO vector alone. The implementation cuts the vectors into
  segments, encodes them as MPSSE commands and sends them in batches.
\<close>

section \<open>The reference\<close>

definition state_at :: "u8 list \<Rightarrow> jtag_state \<Rightarrow> nat \<Rightarrow> jtag_state" where
  "state_at tms s i = mps.run s (vec_bits tms i)"

text \<open>The level of TDI before cycle \<open>i\<close>.\<close>

fun tdi_at :: "u8 list \<Rightarrow> u8 list \<Rightarrow> jtag_state \<Rightarrow> bool \<Rightarrow> nat \<Rightarrow> bool" where
  "tdi_at tms tdi s h 0 = h"
| "tdi_at tms tdi s h (Suc i) = (if is_shift (state_at tms s i) then get_bit tdi i else tdi_at tms tdi s h i)"

definition wire :: "u8 list \<Rightarrow> u8 list \<Rightarrow> jtag_state \<Rightarrow> bool \<Rightarrow> nat \<Rightarrow> (bool \<times> bool) list" where
  "wire tms tdi s h n = map (\<lambda>i. (get_bit tms i, tdi_at tms tdi s h (Suc i))) [0..<n]"

text \<open>The TDO vector after \<open>n\<close> cycles whose samples are \<open>ss\<close>.\<close>

definition tdo_after :: "u8 list \<Rightarrow> jtag_state \<Rightarrow> bool list \<Rightarrow> u8 list \<Rightarrow> u8 list" where
  "tdo_after tms s ss buf =
     fold (\<lambda>i d. if is_shift (state_at tms s i) then set_bit_c d i (ss ! i) else d) [0..<length ss] buf"

section \<open>Facts about the reference\<close>

lemma state_at_0 [simp]: "state_at tms s 0 = s"
  by (simp add: state_at_def vec_bits_def)

lemma state_at_Suc: "state_at tms s (Suc i) = next_state (state_at tms s i) (get_bit tms i)"
  by (simp add: state_at_def vec_bits_def get_bit_eq)

lemma length_wire [simp]: "length (wire tms tdi s h n) = n"
  by (simp add: wire_def)

lemma wire_split: "f \<le> t \<Longrightarrow> wire tms tdi s h t = wire tms tdi s h f @ map (\<lambda>i. (get_bit tms i, tdi_at tms tdi s h (Suc i))) [f..<t]"
  using upt_split[of 0 f t] by (simp add: wire_def flip: map_append)

lemma length_tdo_after [simp]: "length (tdo_after tms s ss buf) = length buf"
proof -
  have "length (fold (\<lambda>i d. if is_shift (state_at tms s i) then set_bit_c d i (ss ! i) else d) is d) = length d" for "is" d
    by (induction "is" arbitrary: d) auto
  then show ?thesis by (simp add: tdo_after_def)
qed

lemma get_tdo_after:
  assumes "length ss \<le> 8 * length buf"
  shows "get_bit (tdo_after tms s ss buf) j =
    (if j < length ss \<and> is_shift (state_at tms s j) then ss ! j else get_bit buf j)"
proof -
  have "get_bit (fold (\<lambda>i d. if is_shift (state_at tms s i) then set_bit_c d i (ss ! i) else d) [0..<n] buf) j =
      (if j < n \<and> is_shift (state_at tms s j) then ss ! j else get_bit buf j) \<and>
      length (fold (\<lambda>i d. if is_shift (state_at tms s i) then set_bit_c d i (ss ! i) else d) [0..<n] buf) = length buf"
    if "n \<le> length ss" for n
    using that assms by (induction n) (auto simp: get_set_bit)
  then show ?thesis by (simp add: tdo_after_def)
qed

text \<open>A segment that shifts, and one that does not.\<close>

lemma shift_run:
  assumes "f \<le> i" "\<forall>j. f \<le> j \<and> j \<le> i \<longrightarrow> is_shift (state_at tms s j)"
  shows "\<forall>j. f \<le> j \<and> j < i \<longrightarrow> \<not> get_bit tms j"
proof (intro allI impI)
  fix j assume "f \<le> j \<and> j < i"
  then have "is_shift (state_at tms s j)" "is_shift (state_at tms s (Suc j))" using assms by auto
  then show "\<not> get_bit tms j" using mps.shift_stays[of "state_at tms s j" "get_bit tms j"] by (simp add: state_at_Suc)
qed

lemma wire_shift:
  assumes "f \<le> i" "\<forall>j. f \<le> j \<and> j \<le> i \<longrightarrow> is_shift (state_at tms s j)"
  shows "wire tms tdi s h (Suc i) = wire tms tdi s h f @ seg tdi f i @ [(get_bit tms i, get_bit tdi i)]"
  using assms wire_split[of f "Suc i"] shift_run[OF assms] by (auto simp: seg_def)

lemma tdi_at_idle:
  assumes "f \<le> i" "\<forall>j. f \<le> j \<and> j < i \<longrightarrow> \<not> is_shift (state_at tms s j)"
  shows "tdi_at tms tdi s h i = tdi_at tms tdi s h f"
  using assms by (induction i) (auto simp: le_Suc_eq)

lemma wire_idle:
  assumes "f \<le> i" "\<forall>j. f \<le> j \<and> j < i \<longrightarrow> \<not> is_shift (state_at tms s j)"
  shows "wire tms tdi s h i = wire tms tdi s h f @ map (\<lambda>j. (get_bit tms j, tdi_at tms tdi s h f)) [f..<i]"
proof -
  have "tdi_at tms tdi s h (Suc j) = tdi_at tms tdi s h f" if "f \<le> j" "j < i" for j
    by (rule tdi_at_idle) (use that assms in auto)
  then show ?thesis using wire_split[OF assms(1)] by simp
qed

lemma tdo_after_idle:
  assumes "f \<le> i" "\<forall>j. f \<le> j \<and> j < i \<longrightarrow> \<not> is_shift (state_at tms s j)"
    and "length xs = f" "length ys = i - f" "i \<le> 8 * length buf"
  shows "tdo_after tms s (xs @ ys) buf = tdo_after tms s xs buf"
  by (rule byte_list_eqI) (use assms in \<open>auto simp: get_tdo_after nth_append\<close>)

lemma tdo_after_shift:
  assumes "f \<le> i" "\<forall>j. f \<le> j \<and> j < i \<longrightarrow> is_shift (state_at tms s j)"
    and "length xs = f" "length ys = i - f" "i \<le> 8 * length buf"
  shows "tdo_after tms s (xs @ ys) buf = put_bits (tdo_after tms s xs buf) f ys"
  by (rule byte_list_eqI) (use assms in \<open>auto simp: get_tdo_after get_put_bits nth_append\<close>)

text \<open>The TDO vector over a run of shift cycles, and over a run without one.\<close>

lemma wire_tdo_shift:
  assumes "f \<le> i" "\<forall>j. f \<le> j \<and> j \<le> i \<longrightarrow> is_shift (state_at tms s j)" "i + 1 \<le> 8 * length buf"
  shows "tdo_after tms s (samples clk (target C0) (wire tms tdi s h (i + 1))) buf =
    put_bits (tdo_after tms s (samples clk (target C0) (wire tms tdi s h f)) buf) f
      (samples clk (target (chip_clocks clk (wire tms tdi s h f) C0)) (seg tdi f i @ [(get_bit tms i, get_bit tdi i)]))"
  using wire_shift[OF assms(1,2), of tdi h] assms
    tdo_after_shift[of f "i + 1" tms s "samples clk (target C0) (wire tms tdi s h f)"
      "samples clk (target (chip_clocks clk (wire tms tdi s h f) C0)) (seg tdi f i @ [(get_bit tms i, get_bit tdi i)])" buf]
  by (simp add: samples_append)

lemma wire_tdo_idle:
  fixes C0 :: "'t chip"
  assumes "f \<le> i" "\<forall>j. f \<le> j \<and> j < i \<longrightarrow> \<not> is_shift (state_at tms s j)" "i \<le> 8 * length buf"
  shows "tdo_after tms s (samples clk (target C0) (wire tms tdi s h i)) buf =
    tdo_after tms s (samples clk (target C0) (wire tms tdi s h f)) buf"
  using wire_idle[OF assms(1,2), of tdi h] assms
    tdo_after_idle[of f i tms s "samples clk (target C0) (wire tms tdi s h f)"
      "samples clk (target (chip_clocks clk (wire tms tdi s h f) C0)) (map (\<lambda>j. (get_bit tms j, tdi_at tms tdi s h f)) [f..<i])" buf]
  by (simp add: samples_append)

text \<open>Leaving a shift state, three more cycles pass before the TAP shifts again.\<close>

definition exit1 :: "jtag_state \<Rightarrow> bool" where
  "exit1 s \<longleftrightarrow> s = EXIT_1_DR \<or> s = EXIT_1_IR"

lemma leave_shift: "is_shift s \<Longrightarrow> \<not> is_shift (next_state s t) \<Longrightarrow> exit1 (next_state s t)"
  by (auto simp: is_shift_def exit1_def split: if_splits)

lemma exit1_gap:
  assumes "exit1 s" shows "\<not> is_shift (next_state s t)" "\<not> is_shift (next_state (next_state s t) u)"
  using assms by (auto simp: is_shift_def exit1_def split: if_splits)

section \<open>The loop invariant of the scan\<close>

definition scan_ready ::
  "'t clocked \<Rightarrow> ('d \<Rightarrow> 't chip) \<Rightarrow> 'd ft_driver \<Rightarrow> u8 list \<Rightarrow> u8 list \<Rightarrow> nat \<Rightarrow> nat \<Rightarrow> mpsse_context \<Rightarrow> 't chip \<Rightarrow> memory \<Rightarrow> u8 list \<Rightarrow> bool" where
  "scan_ready clk chip_of drv tms tdi tdo bits c0 C0 m0 buf \<longleftrightarrow>
     ideal_driver clk chip_of drv \<and> phase C0 = Ready \<and> (is_shift (tap_state c0) \<longrightarrow> \<not> tms_pin C0) \<and> m0 tdo = Some buf \<and>
     bits \<le> 8 * length tms \<and> bits \<le> 8 * length tdi \<and> bits \<le> 8 * length buf \<and> bits \<le> 524280 \<and>
     65535 \<le> chip_buffer_size c0 \<and> 65535 \<le> max_tx_buffer_bytes c0 \<and> 65535 \<le> max_rx_buffer_bytes c0"

definition uniform :: "(nat \<Rightarrow> jtag_state) \<Rightarrow> nat \<Rightarrow> nat \<Rightarrow> bool" where
  "uniform st f i \<longleftrightarrow> (\<forall>j. f \<le> j \<and> j \<le> i \<longrightarrow> is_shift (st j) = is_shift (st f))"

lemma uniformD: "uniform st f i \<Longrightarrow> f \<le> i \<Longrightarrow> f \<le> j \<Longrightarrow> j \<le> i \<Longrightarrow> is_shift (st j) = is_shift (st i)"
  unfolding uniform_def by blast

lemma uniform_refl [simp]: "uniform st f f"
  unfolding uniform_def by (metis le_antisym)

definition scan_inv ::
  "'t clocked \<Rightarrow> ('d \<Rightarrow> 't chip) \<Rightarrow> u8 list \<Rightarrow> u8 list \<Rightarrow> nat \<Rightarrow> nat \<Rightarrow> mpsse_context \<Rightarrow> 't chip \<Rightarrow> memory \<Rightarrow> u8 list
     \<Rightarrow> nat \<Rightarrow> jtag_state \<Rightarrow> nat \<Rightarrow> 'd mpsse_io \<Rightarrow> bool" where
  "scan_inv clk chip_of tms tdi tdo bits c0 C0 m0 buf i s f io \<longleftrightarrow>
     (let st = state_at tms (tap_state c0); w = wire tms tdi (tap_state c0) (last_tdi c0) f in
      f \<le> i \<and> i \<le> bits \<and> (i = bits \<longrightarrow> f = bits) \<and> s = st i \<and>
      uniform st f i \<and>
      abstracts clk chip_of io (chip_clocks clk w C0)
        (m0(tdo \<mapsto> tdo_after tms (tap_state c0) (samples clk (target C0) w) buf)) \<and>
      cfg (mctx io) = cfg (c0\<lparr>last_tdi := tdi_at tms tdi (tap_state c0) (last_tdi c0) f\<rparr>) \<and>
      (f < bits \<longrightarrow> pool_used (mctx io) \<le> 32 * f + (if exit1 (st f) then 72 else 0)))"

lemma pin_low:
  assumes "is_shift (state_at tms s f)" "is_shift s \<longrightarrow> \<not> tms_pin C0"
  shows "\<not> tms_pin (chip_clocks clk (wire tms tdi s h f) C0)"
proof (cases f)
  case (Suc k)
  have "\<not> get_bit tms k"
    using assms(1) mps.shift_stays[of "state_at tms s k" "get_bit tms k"] mps.shift_enter[of "state_at tms s k" "get_bit tms k"]
    unfolding Suc state_at_Suc by blast
  then show ?thesis unfolding tms_pin_clocks Suc wire_def by (simp add: last_map)
qed (use assms in \<open>simp add: wire_def\<close>)

lemma gap_3:
  assumes "exit1 (state_at tms s f)" "f < u" "is_shift (state_at tms s u)"
  shows "f + 3 \<le> u"
proof -
  have "\<not> is_shift (state_at tms s (Suc f))" "\<not> is_shift (state_at tms s (Suc (Suc f)))"
    using exit1_gap[OF assms(1)] by (simp_all add: state_at_Suc)
  with assms have "u \<noteq> Suc f" "u \<noteq> Suc (Suc f)" by auto
  with assms(2) show ?thesis by simp
qed

text \<open>One bit whose segment shifts: the segment is emitted when it is left or the vector ends.\<close>

lemma emit_shift:
  assumes ready: "scan_ready clk chip_of drv tms tdi tdo bits c0 C0 m0 buf"
    and inv: "scan_inv clk chip_of tms tdi tdo bits c0 C0 m0 buf i s f io"
    and i: "i < bits" and sh: "is_shift s"
    and event: "i = bits - 1 \<or> \<not> is_shift (next_state s (get_bit tms i))"
  shows "\<exists>io'. append_tdi_shift drv tdi tdo f (i + 1) (\<not> is_shift (next_state s (get_bit tms i))) io = Ret (0, io') \<and>
    scan_inv clk chip_of tms tdi tdo bits c0 C0 m0 buf (i + 1) (next_state s (get_bit tms i)) (i + 1) io'"
proof -
  define st where "st = state_at tms (tap_state c0)"
  define w where "w = wire tms tdi (tap_state c0) (last_tdi c0)"
  define C where "C = chip_clocks clk (w f) C0"
  define B where "B = tdo_after tms (tap_state c0) (samples clk (target C0) (w f)) buf"
  define new where "new = seg tdi f i @ [(get_bit tms i, get_bit tdi i)]"
  note inv = inv[unfolded scan_inv_def Let_def, folded st_def w_def, folded C_def B_def]
  have same: "f \<le> i" "s = st i" "uniform st f i" using inv by simp_all
  have shifts: "is_shift (st j)" if "f \<le> j" "j \<le> i" for j using uniformD[OF same(3,1) that] sh same(2) by simp
  then have shf: "is_shift (st f)" using same(1) by blast
  then have ne: "\<not> exit1 (st f)" by (auto simp: exit1_def is_shift_def)
  have I: "f \<le> i" "s = st i" "\<forall>j. f \<le> j \<and> j \<le> i \<longrightarrow> is_shift (st j)"
    "abstracts clk chip_of io C (m0(tdo \<mapsto> B))"
    "cfg (mctx io) = cfg (c0\<lparr>last_tdi := tdi_at tms tdi (tap_state c0) (last_tdi c0) f\<rparr>)"
    "pool_used (mctx io) \<le> 32 * f"
    using inv i shifts ne by simp_all
  have R: "ideal_driver clk chip_of drv" "phase C = Ready" "i + 1 \<le> 8 * length B" "i + 1 \<le> 8 * length tdi" "i + 1 \<le> 524280"
    "\<not> tms_pin C"
    using ready i shf pin_low[of tms "tap_state c0" f C0 clk tdi "last_tdi c0"]
    by (auto simp: scan_ready_def C_def B_def st_def w_def)
  have caps: "65535 \<le> chip_buffer_size (mctx io)" "65535 \<le> max_tx_buffer_bytes (mctx io)" "65535 \<le> max_rx_buffer_bytes (mctx io)"
    using I(5) ready by (auto simp: cfg_def scan_ready_def)
  have small: "(i + 1 - f) div 8 \<le> 65535" using R(5) by linarith
  have room: "can_append (mctx io) (72 + 32 * (i + 1 - f))"
    using I(6) I(1) R(5) caps by (simp add: can_append_def MEMORY_POOL_BYTES_def)
  have leaving: "(\<not> is_shift (next_state s (get_bit tms i))) = get_bit tms i"
    using mps.shift_stays[OF sh] by simp
  obtain io' where io': "append_tdi_shift drv tdi tdo f (i + 1) (get_bit tms i) io =
      Ret (0, io'\<lparr>mctx := (mctx io')\<lparr>last_tdi := get_bit tdi i\<rparr>\<rparr>)"
    "abstracts clk chip_of io' (chip_clocks clk new C) (m0(tdo \<mapsto> put_bits B f (samples clk (target C) new)))"
    "clean_step (72 + 32 * (i + 1 - f)) io io'"
    using tdi_segment[OF R(1,2,6) I(4), of tdo B f "i + 1" tdi "get_bit tms i"] I(1) R(3,4) caps small room
    by (auto simp: shifted_def new_def)
  have w: "w (i + 1) = w f @ new"
    using wire_shift[OF I(1), of tms "tap_state c0" tdi "last_tdi c0"] I(3) by (simp add: w_def st_def new_def)
  have B': "tdo_after tms (tap_state c0) (samples clk (target C0) (w (i + 1))) buf = put_bits B f (samples clk (target C) new)"
    using wire_tdo_shift[of f i tms "tap_state c0" buf clk C0 tdi "last_tdi c0"] I R(3)
    by (simp add: B_def st_def new_def w_def C_def)
  have st': "next_state s (get_bit tms i) = st (i + 1)" by (simp add: I(2) st_def state_at_Suc)
  have ex: "exit1 (st (i + 1))" if "i + 1 < bits" using leave_shift[OF sh, of "get_bit tms i"] event that unfolding st' by auto
  have "tdi_at tms tdi (tap_state c0) (last_tdi c0) (i + 1) = get_bit tdi i" using sh I(2) by (simp add: st_def)
  then have "scan_inv clk chip_of tms tdi tdo bits c0 C0 m0 buf (i + 1) (st (i + 1)) (i + 1)
      (io'\<lparr>mctx := (mctx io')\<lparr>last_tdi := get_bit tdi i\<rparr>\<rparr>)"
    using io'(2,3) I(1,5,6) i ex
    unfolding scan_inv_def Let_def w_def [symmetric] st_def [symmetric] w B'[unfolded w] C_def clean_step_def
    by (auto simp: cfg_def)
  with io'(1) show ?thesis unfolding leaving st'[symmetric] by blast
qed

lemma emit_idle:
  assumes ready: "scan_ready clk chip_of drv tms tdi tdo bits c0 C0 m0 buf"
    and inv: "scan_inv clk chip_of tms tdi tdo bits c0 C0 m0 buf i s f io"
    and i: "i < bits" and sh: "\<not> is_shift s"
    and event: "i = bits - 1 \<or> is_shift (next_state s (get_bit tms i))"
  shows "\<exists>io'. append_tms_shift drv tms f (i + 1) io = Ret (0, io') \<and>
    scan_inv clk chip_of tms tdi tdo bits c0 C0 m0 buf (i + 1) (next_state s (get_bit tms i)) (i + 1) io'"
proof -
  define st where "st = state_at tms (tap_state c0)"
  define w where "w = wire tms tdi (tap_state c0) (last_tdi c0)"
  define h where "h = tdi_at tms tdi (tap_state c0) (last_tdi c0)"
  define B where "B = (\<lambda>n. tdo_after tms (tap_state c0) (samples clk (target C0) (w n)) buf)"
  define new where "new = map (\<lambda>j. (get_bit tms j, h f)) [f..<i + 1]"
  have B: "tdo_after tms (tap_state c0) (samples clk (target C0) (w n)) buf = B n" for n by (simp add: B_def)
  note inv = inv[unfolded scan_inv_def Let_def, folded st_def w_def h_def, unfolded B]
  have same: "f \<le> i" "s = st i" "uniform st f i" using inv by simp_all
  have idle: "\<not> is_shift (st j)" if "f \<le> j" "j < i + 1" for j
    using uniformD[OF same(3,1) that(1)] that(2) sh same(2) by simp
  have I: "abstracts clk chip_of io (chip_clocks clk (w f) C0) (m0(tdo \<mapsto> B f))" "cfg (mctx io) = cfg (c0\<lparr>last_tdi := h f\<rparr>)"
    "pool_used (mctx io) \<le> 32 * f + (if exit1 (st f) then 72 else 0)"
    using inv i by simp_all
  have R: "ideal_driver clk chip_of drv" "phase (chip_clocks clk (w f) C0) = Ready" "i + 1 \<le> 8 * length buf"
    "3 \<le> max_tx_buffer_bytes (mctx io)" "last_tdi (mctx io) = h f"
    using ready i I(2) by (auto simp: scan_ready_def cfg_def)
  obtain io' where io': "append_tms_shift drv tms f (i + 1) io = Ret (0, io')"
    "abstracts clk chip_of io' (chip_clocks clk new (chip_clocks clk (w f) C0)) (m0(tdo \<mapsto> B f))"
    "cfg (mctx io') = cfg (mctx io)" "pool_used (mctx io') = pool_used (mctx io)"
    using tms_segment[OF R(1) I(1) R(2,4), of f "i + 1" tms] same(1) R(5) by (auto simp: new_def)
  have w: "w (i + 1) = w f @ new"
    using wire_idle[of f "i + 1" tms "tap_state c0" tdi "last_tdi c0"] same(1) idle
    by (simp add: w_def st_def new_def h_def)
  have B': "B (i + 1) = B f"
    using wire_tdo_idle[of f "i + 1" tms "tap_state c0" buf clk C0 tdi "last_tdi c0"] idle same(1) R(3)
    by (simp add: B_def st_def w_def)
  have h': "h (i + 1) = h f"
    unfolding h_def by (rule tdi_at_idle) (use same idle in \<open>auto simp: st_def\<close>)
  have st': "next_state s (get_bit tms i) = st (i + 1)" by (simp add: same(2) st_def state_at_Suc)
  have pool: "pool_used (mctx io') \<le> 32 * (i + 1)" if "i + 1 < bits"
  proof -
    have "is_shift (st (i + 1))" using event that unfolding st' by auto
    then have "f + 3 \<le> i + 1" if "exit1 (st f)" using gap_3[of tms "tap_state c0" f "i + 1"] that same(1) by (simp add: st_def)
    then show ?thesis using I(3) io'(4) same(1) by (auto split: if_splits)
  qed
  have "scan_inv clk chip_of tms tdi tdo bits c0 C0 m0 buf (i + 1) (st (i + 1)) (i + 1) io'"
    unfolding scan_inv_def Let_def st_def [symmetric] w_def [symmetric] h_def [symmetric] B
    using io'(2) i pool I(2) io'(3) unfolding B' h' w by auto
  with io'(1) show ?thesis by (simp add: st')
qed

lemma scan_bit:
  assumes ready: "scan_ready clk chip_of drv tms tdi tdo bits c0 C0 m0 buf"
    and inv: "scan_inv clk chip_of tms tdi tdo bits c0 C0 m0 buf i s f io" and i: "i < bits"
  defines "s' \<equiv> next_state s (get_bit tms i)"
  shows "\<exists>f' io'. (if i = bits - 1 \<or> \<not> is_shift s \<and> is_shift s' \<or> is_shift s \<and> \<not> is_shift s' then
        carry (s, i + 1) (if is_shift s then append_tdi_shift drv tdi tdo f (i + 1) (is_shift s \<and> \<not> is_shift s') io
          else append_tms_shift drv tms f (i + 1) io)
      else Ret (0, (s, f), io)) = Ret (0, (s, f'), io') \<and>
    scan_inv clk chip_of tms tdi tdo bits c0 C0 m0 buf (i + 1) s' f' io'"
proof (cases "i = bits - 1 \<or> \<not> is_shift s \<and> is_shift s' \<or> is_shift s \<and> \<not> is_shift s'")
  case True
  show ?thesis
  proof (cases "is_shift s")
    case sh: True
    with True have "i = bits - 1 \<or> \<not> is_shift (next_state s (get_bit tms i))" by (auto simp: s'_def)
    from emit_shift[OF ready inv i sh this] sh True show ?thesis by (auto simp: s'_def)
  next
    case sh: False
    with True have "i = bits - 1 \<or> is_shift (next_state s (get_bit tms i))" by (auto simp: s'_def)
    from emit_idle[OF ready inv i sh this] sh True show ?thesis by (auto simp: s'_def)
  qed
next
  case False
  define st where "st = state_at tms (tap_state c0)"
  have same: "f \<le> i" "s = st i" "uniform st f i" using inv by (simp_all add: scan_inv_def Let_def st_def)
  have st': "s' = st (i + 1)" by (simp add: same(2) st_def state_at_Suc s'_def)
  have "is_shift (st (i + 1)) = is_shift (st i)" using False same(2) st' by auto
  then have "uniform st f (i + 1)" using same(3,1) unfolding uniform_def by (metis Suc_eq_plus1 le_Suc_eq order_refl)
  with inv i False have "scan_inv clk chip_of tms tdi tdo bits c0 C0 m0 buf (i + 1) s' f io"
    unfolding scan_inv_def Let_def st_def [symmetric] st' by auto
  with False show ?thesis by auto
qed

lemma scan_round_inv:
  assumes ready: "scan_ready clk chip_of drv tms tdi tdo bits c0 C0 m0 buf"
    and inv: "scan_inv clk chip_of tms tdi tdo bits c0 C0 m0 buf i s f io"
    and "i \<le> e" "e \<le> bits" "\<And>k. i + k < e \<Longrightarrow> bit tms_byte k = get_bit tms (i + k)"
  shows "\<exists>s' f' io'. scan_round drv tms tdi tdo bits e i tms_byte s f io = Ret (0, (s', f'), io') \<and>
    scan_inv clk chip_of tms tdi tdo bits c0 C0 m0 buf e s' f' io'"
  using inv assms(3-)
proof (induction "e - i" arbitrary: i s f io tms_byte)
  case 0
  then show ?case by (subst scan_round.simps) simp
next
  case (Suc n)
  then have i: "i < e" "i < bits" by auto
  define s' where "s' = next_state s (get_bit tms i)"
  have bit0: "(tms_byte AND 1 \<noteq> 0) = get_bit tms i" using Suc.prems(4)[of 0] i and_one_neq_0[of tms_byte] by simp
  obtain f' io' where step: "(if i = bits - 1 \<or> \<not> is_shift s \<and> is_shift s' \<or> is_shift s \<and> \<not> is_shift s' then
        carry (s, i + 1) (if is_shift s then append_tdi_shift drv tdi tdo f (i + 1) (is_shift s \<and> \<not> is_shift s') io
          else append_tms_shift drv tms f (i + 1) io)
      else Ret (0, (s, f), io)) = Ret (0, (s, f'), io')"
    "scan_inv clk chip_of tms tdi tdo bits c0 C0 m0 buf (i + 1) s' f' io'"
    using scan_bit[OF ready Suc.prems(1) i(2)] unfolding s'_def by blast
  have bits': "bit (drop_bit 1 tms_byte) k = get_bit tms (i + 1 + k)" if "i + 1 + k < e" for k
    using Suc.prems(4)[of "Suc k"] that by (simp add: bit_drop_bit_eq)
  have "n = e - (i + 1)" "i + 1 \<le> e" using Suc.hyps(2) i by simp_all
  from Suc.hyps(1)[OF this(1) step(2) this(2) Suc.prems(3) bits']
  obtain s2 f2 io2 where rest: "scan_round drv tms tdi tdo bits e (i + 1) (drop_bit 1 tms_byte) s' f' io' = Ret (0, (s2, f2), io2)"
    "scan_inv clk chip_of tms tdi tdo bits c0 C0 m0 buf e s2 f2 io2"
    by blast
  have "scan_round drv tms tdi tdo bits e i tms_byte s f io = Ret (0, (s2, f2), io2)"
    by (subst scan_round.simps)
      (simp only: i(1) if_True Let_def bit0 s'_def [symmetric] is_shift_def [symmetric] step(1) ok_then_simps
        less_irrefl if_False prod.case rest(1))
  with rest(2) show ?case by blast
qed

lemma scan_vector_inv:
  assumes ready: "scan_ready clk chip_of drv tms tdi tdo bits c0 C0 m0 buf"
    and inv: "scan_inv clk chip_of tms tdi tdo bits c0 C0 m0 buf i s f io" and "i mod 8 = 0 \<or> i = bits" "i \<le> bits"
  shows "\<exists>s' f' io'. scan_vector drv tms tdi tdo bits i s f io = Ret (0, (s', f'), io') \<and>
    scan_inv clk chip_of tms tdi tdo bits c0 C0 m0 buf bits s' f' io'"
  using inv assms(3-)
proof (induction "bits - i" arbitrary: i s f io rule: less_induct)
  case less
  show ?case
  proof (cases "i < bits")
    case False
    then show ?thesis using less.prems by (subst scan_vector.simps) auto
  next
    case True
    define e where "e = (if i + 8 > bits then bits else i + 8)"
    have e: "i < e" "e \<le> i + 8" "e \<le> bits" "e mod 8 = 0 \<or> e = bits" using True less.prems(2) by (auto simp: e_def)
    have "bit (tms ! (i div 8)) k = get_bit tms (i + k)" if "i + k < e" for k
    proof -
      have k: "8 * (i div 8) \<le> i + k" "i + k < 8 * (i div 8) + 8" using that e True less.prems(2) by auto
      show ?thesis using div8_eqI[OF k] mod8_eqI[OF k] True less.prems(2) by (auto simp: get_bit_eq)
    qed
    then obtain s1 f1 io1 where r: "scan_round drv tms tdi tdo bits e i (tms ! (i div 8)) s f io = Ret (0, (s1, f1), io1)"
      "scan_inv clk chip_of tms tdi tdo bits c0 C0 m0 buf e s1 f1 io1"
      using scan_round_inv[OF ready less.prems(1), of e "tms ! (i div 8)"] e by auto
    obtain s2 f2 io2 where "scan_vector drv tms tdi tdo bits e s1 f1 io1 = Ret (0, (s2, f2), io2)"
      "scan_inv clk chip_of tms tdi tdo bits c0 C0 m0 buf bits s2 f2 io2"
      using less.hyps[OF _ r(2) e(4,3)] e(1) True by fastforce
    then show ?thesis using r(1) True
      by (subst scan_vector.simps) (simp add: e_def [symmetric] Let_def)
  qed
qed

section \<open>The scan\<close>

text \<open>
  An adapter between two scans: open, sizes as \<open>mpsse_adapter_open\<close> sets them, nothing queued,
  the pool empty, the chip waiting for a command, and TMS low if the TAP was left shifting.
\<close>

definition adapter_ready :: "('d \<Rightarrow> 't chip) \<Rightarrow> 'd mpsse_io \<Rightarrow> bool" where
  "adapter_ready chip_of io \<longleftrightarrow>
     (let c = mctx io; C = chip_of (mdev io) in
      mpsse_is_open c \<and> flushed c \<and> pool_used c = 0 \<and> chip_buffer_size c = 65536 \<and>
      max_tx_buffer_bytes c = 196608 \<and> max_rx_buffer_bytes c = 131072 \<and>
      phase C = Ready \<and> outq C = [] \<and> (is_shift (tap_state c) \<longrightarrow> \<not> tms_pin C))"

lemma ready_abstracts: "adapter_ready chip_of io \<Longrightarrow> abstracts clk chip_of io (chip_of (mdev io)) (mmem io)"
  by (auto simp: adapter_ready_def abstracts_def mpsse_wf_def flushed_def Let_def)

lemma ready_scan:
  assumes "adapter_ready chip_of io" "ideal_driver clk chip_of drv" "mmem io tdo = Some buf"
    "bits \<le> 8 * length tms" "bits \<le> 8 * length tdi" "bits \<le> 8 * length buf" "bits \<le> 524280"
  shows "scan_ready clk chip_of drv tms tdi tdo bits (mctx io) (chip_of (mdev io)) (mmem io) buf"
  using assms by (auto simp: scan_ready_def adapter_ready_def Let_def)

lemma scan_inv_start:
  assumes "adapter_ready chip_of io" "mmem io tdo = Some buf" "0 < bits"
  shows "scan_inv clk chip_of tms tdi tdo bits (mctx io) (chip_of (mdev io)) (mmem io) buf 0 (tap_state (mctx io)) 0
    (io\<lparr>mctx := (mctx io)\<lparr>current_bit_offset := 0\<rparr>\<rparr>)"
proof -
  have "abstracts clk chip_of (io\<lparr>mctx := (mctx io)\<lparr>current_bit_offset := 0\<rparr>\<rparr>) (chip_of (mdev io)) (mmem io)"
    using ready_abstracts[OF assms(1), of clk] by (simp add: abstracts_def mpsse_wf_def Let_def)
  then show ?thesis
    using assms by (simp add: scan_inv_def Let_def wire_def tdo_after_def fun_upd_idem cfg_def adapter_ready_def)
qed

lemma mpsse_scan_ok:
  assumes ready: "adapter_ready chip_of io" and drv: "ideal_driver clk chip_of drv" and buf: "mmem io tdo = Some buf"
    and bits: "0 < bits" "bits \<le> 524280" "bits \<le> 8 * length tms" "bits \<le> 8 * length tdi" "bits \<le> 8 * length buf"
  defines "s \<equiv> tap_state (mctx io)" and "h \<equiv> last_tdi (mctx io)" and "C \<equiv> chip_of (mdev io)"
  shows "\<exists>io'. mpsse_adapter_scan drv tms tdi tdo (int bits) io = Ret (0, io') \<and> adapter_ready chip_of io' \<and>
    chip_of (mdev io') = chip_clocks clk (wire tms tdi s h bits) C \<and>
    mmem io' = (mmem io)(tdo \<mapsto> tdo_after tms s (samples clk (target C) (wire tms tdi s h bits)) buf) \<and>
    tap_state (mctx io') = state_at tms s bits \<and> last_tdi (mctx io') = tdi_at tms tdi s h bits"
proof -
  let ?io = "io\<lparr>mctx := (mctx io)\<lparr>current_bit_offset := 0\<rparr>\<rparr>"
  note R = ready_scan[OF ready drv buf bits(3,4,5,2)]
  obtain s1 f1 io1 where scan: "scan_vector drv tms tdi tdo bits 0 s 0 ?io = Ret (0, (s1, f1), io1)"
    and inv: "scan_inv clk chip_of tms tdi tdo bits (mctx io) C (mmem io) buf bits s1 f1 io1"
    using scan_vector_inv[OF R scan_inv_start[OF ready buf bits(1)]] unfolding s_def C_def by auto
  have f1: "f1 = bits" "s1 = state_at tms s bits" using inv by (simp_all add: scan_inv_def Let_def s_def)
  have abs: "abstracts clk chip_of io1 (chip_clocks clk (wire tms tdi s h bits) C)
      ((mmem io)(tdo \<mapsto> tdo_after tms s (samples clk (target C) (wire tms tdi s h bits)) buf))"
    and cfg1: "cfg (mctx io1) = cfg ((mctx io)\<lparr>last_tdi := tdi_at tms tdi s h bits\<rparr>)"
    using inv unfolding f1 by (simp_all add: scan_inv_def Let_def s_def h_def)
  obtain io2 where io2: "mpsse_buffer_flush drv io1 = Ret (0, io2)" "flushed (mctx io2)"
    "chip_of (mdev io2) = chip_clocks clk (wire tms tdi s h bits) C"
    "mmem io2 = (mmem io)(tdo \<mapsto> tdo_after tms s (samples clk (target C) (wire tms tdi s h bits)) buf)"
    "cfg (mctx io2) = cfg ((mctx io)\<lparr>last_tdi := tdi_at tms tdi s h bits\<rparr>)"
    using flush_abstracts[OF drv abs] cfg1 by auto
  define io' where "io' = io2\<lparr>mctx := (pool_reset (mctx io2))
    \<lparr>current_bit_offset := current_bit_offset (mctx io2) + bits, tap_state := state_at tms s bits\<rparr>\<rparr>"
  have "mpsse_is_open (mctx io)" using ready by (simp add: adapter_ready_def Let_def)
  then have "mpsse_adapter_scan drv tms tdi tdo (int bits) io = Ret (0, io')"
    using scan io2(1) bits unfolding io'_def by (simp add: mpsse_adapter_scan_def f1 s_def)
  moreover have "\<not> tms_pin (chip_clocks clk (wire tms tdi s h bits) C)" if "is_shift (state_at tms s bits)"
    by (rule pin_low[OF that]) (use R in \<open>simp add: scan_ready_def s_def C_def\<close>)
  then have "adapter_ready chip_of io'"
    using ready io2(2,3,5) by (auto simp: adapter_ready_def Let_def io'_def pool_reset_def cfg_def flushed_def C_def)
  moreover have "last_tdi (mctx io2) = tdi_at tms tdi s h bits" using io2(5) by (simp add: cfg_def)
  ultimately show ?thesis using io2(3,4) by (auto simp: io'_def pool_reset_def)
qed

text \<open>
  C2. A scan on a ready adapter, under a driver and chip that behave as documented, returns 0;
  the target was clocked exactly the reference cycles, the TDO vector is the reference's and no
  other memory changed, the tracked TAP state and TDI level are the reference's, and the adapter
  is ready for the next scan.
\<close>

theorem mpsse_scan_correct:
  assumes ready: "adapter_ready chip_of io" and drv: "ideal_driver clk chip_of drv" and buf: "mmem io tdo = Some buf"
    and bits: "0 < bits" "bits \<le> 524280" "bits \<le> 8 * length tms" "bits \<le> 8 * length tdi" "bits \<le> 8 * length buf"
  defines "s \<equiv> tap_state (mctx io)" and "h \<equiv> last_tdi (mctx io)" and "C \<equiv> chip_of (mdev io)"
  shows "\<exists>io'. mpsse_adapter_scan drv tms tdi tdo (int bits) io = Ret (0, io') \<and> adapter_ready chip_of io' \<and>
    chip_of (mdev io') = chip_clocks clk (wire tms tdi s h bits) C \<and>
    mmem io' = (mmem io)(tdo \<mapsto> tdo_after tms s (samples clk (target C) (wire tms tdi s h bits)) buf) \<and>
    tap_state (mctx io') = state_at tms s bits \<and> last_tdi (mctx io') = tdi_at tms tdi s h bits"
  using mpsse_scan_ok[OF ready drv buf bits] unfolding s_def h_def C_def .

end
