(* ===== verification/Mpsse_Adapter.thy ===== *)
theory Mpsse_Adapter
  imports Mpsse_Reference
begin

text \<open>
  Life cycle of the MPSSE adapter (\<^verbatim>\<open>src/mpsse_adapter.c\<close>): create, open with the chip set-up
  sequence, close, destroy, and the TCK frequency. \<open>mal\<close> stands for \<open>malloc\<close>: \<open>None\<close> is a
  failed allocation, \<open>Some\<close> the (arbitrary) initial contents of the block. Each operation has its own
  \<open>mal\<close>, so that an allocation may fail in \<open>open\<close> which succeeded in \<open>create\<close>.
\<close>

definition MPSSE_MAX_FREQUENCY :: nat where "MPSSE_MAX_FREQUENCY = 30000000"

definition FT_BITMODE_RESET :: u8 where [simp]: "FT_BITMODE_RESET = 0"
definition FT_BITMODE_MPSSE :: u8 where [simp]: "FT_BITMODE_MPSSE = 2"

section \<open>Create\<close>

definition mpsse_adapter_create :: "(nat \<Rightarrow> u8 list option) \<Rightarrow> mpsse_context option" where
  "mpsse_adapter_create mal =
     (if mal (3 * 65536) = None \<or> mal (65536 * 2) = None then None
      else Some \<lparr>ft_handle = False, tx_buffer = [], max_tx_buffer_bytes = 3 * 65536, rx_num_bytes = 0,
             max_rx_buffer_bytes = 65536 * 2, rx_observers = [], tap_state = TEST_LOGIC_RESET, last_tdi = False,
             mpsse_is_open = False, mpsse_verbose = 0, chip_buffer_size = 65536, pool_used = 0,
             current_bit_offset = 0, total_flushes = 0, failed_flushes = 0, mpsse_error = []\<rparr>)"

section \<open>Open\<close>

definition setup_cmds :: "u8 list" where
  "setup_cmds = [OP_LOOPBACK_OFF, OP_DISABLE_CLK_DIVIDE_BY_5, OP_SET_TCK_DIVISOR, 29, 0, OP_SET_DBUS_LOBYTE, 0x08, 0x0B]"

text \<open>
  Discarding what the receive queue holds, at most 256 bytes: \<open>min\<close> is on \<open>int\<close>, so a count
  of \<open>2 ^ 31\<close> or more is negative and asks the driver for more than the array holds.
\<close>

definition clear_junk :: "'d ft_driver \<Rightarrow> 'd \<Rightarrow> 'd outcome" where
  "clear_junk drv d =
     (case ft_get_queue_status drv d of
        (_, rxBytes, d1) \<Rightarrow>
          if rxBytes > 0 then
            (case ft_read drv d1 (if sint rxBytes < 256 then rxBytes else 256) of
               (_, data, d2) \<Rightarrow> if length data > 256 then Undefined else Ret d2)
          else Ret d1)"

text \<open>Opening the handle; \<open>serial\<close> is \<open>None\<close> for a null pointer.\<close>

definition open_handle :: "'d ft_driver \<Rightarrow> string option \<Rightarrow> int \<Rightarrow> 'd mpsse_io \<Rightarrow> int \<times> 'd mpsse_io" where
  "open_handle drv serial index io =
     (if serial \<noteq> None \<and> serial \<noteq> Some [] then
        (case ft_open_ex drv (mdev io) (the serial) of
           (ftStatus, d) \<Rightarrow>
             if ftStatus \<noteq> FT_OK then
               (-1, io\<lparr>mctx := (mctx io)\<lparr>mpsse_error := ''FT_OpenEx by serial failed: '' @ show_nat ftStatus\<rparr>, mdev := d\<rparr>)
             else (0, io\<lparr>mctx := (mctx io)\<lparr>ft_handle := True\<rparr>, mdev := d\<rparr>))
      else
        (case ft_open drv (mdev io) index of
           (ftStatus, d) \<Rightarrow>
             if ftStatus \<noteq> FT_OK then
               (-1, io\<lparr>mctx := (mctx io)\<lparr>mpsse_error := ''FT_Open failed: '' @ show_nat ftStatus\<rparr>, mdev := d\<rparr>)
             else (0, io\<lparr>mctx := (mctx io)\<lparr>ft_handle := True\<rparr>, mdev := d\<rparr>)))"

text \<open>Calls whose failure is only logged.\<close>

definition setup_calls :: "'d ft_driver \<Rightarrow> 'd \<Rightarrow> 'd" where
  "setup_calls drv d =
     snd (ft_set_bit_mode drv
       (fold (\<lambda>call d. snd (ft_setup_call drv d call))
          [''FT_ResetDevice'', ''FT_Purge'', ''FT_SetUSBParameters'', ''FT_SetChars'', ''FT_SetTimeouts''] d)
       0 FT_BITMODE_RESET)"

definition close_handle :: "'d ft_driver \<Rightarrow> 'd mpsse_io \<Rightarrow> 'd mpsse_io" where
  "close_handle drv io = io\<lparr>mctx := (mctx io)\<lparr>ft_handle := False\<rparr>, mdev := ft_close drv (mdev io)\<rparr>"

text \<open>MPSSE mode and the set-up commands, on an open handle.\<close>

definition enter_mpsse :: "'d ft_driver \<Rightarrow> 'd mpsse_io \<Rightarrow> (int \<times> 'd mpsse_io) outcome" where
  "enter_mpsse drv io =
     (case ft_set_bit_mode drv (setup_calls drv (mdev io)) 0 FT_BITMODE_MPSSE of
        (ftStatus, d) \<Rightarrow>
          if ftStatus \<noteq> FT_OK then
            Ret (-1, close_handle drv (io\<lparr>mctx := (mctx io)\<lparr>mpsse_error := ''FT_SetBitMode MPSSE failed: '' @ show_nat ftStatus\<rparr>,
                                          mdev := d\<rparr>))
          else
            bind_out (clear_junk drv d) (\<lambda>d1.
              (case ft_write drv d1 setup_cmds of
                 (ftStatus2, bytesWritten, d2) \<Rightarrow>
                   if ftStatus2 \<noteq> FT_OK \<or> unat bytesWritten \<noteq> length setup_cmds then
                     Ret (-1, close_handle drv (io\<lparr>mctx := (mctx io)\<lparr>mpsse_error := ''FT_Write setup failed: '' @ show_nat ftStatus2\<rparr>,
                                                   mdev := d2\<rparr>))
                   else bind_out (clear_junk drv d2) (\<lambda>d3. Ret (0, io\<lparr>mdev := snd (ft_get_device_info drv d3)\<rparr>)))))"

text \<open>
  The buffers are freed and allocated anew; \<open>tx_num_bytes\<close> is not reset, so bytes still queued
  become whatever the new block holds.
\<close>

definition reallocate_buffers ::
  "(nat \<Rightarrow> u8 list option) \<Rightarrow> 'd ft_driver \<Rightarrow> 'd mpsse_io \<Rightarrow> (int \<times> 'd mpsse_io) outcome" where
  "reallocate_buffers mal drv io =
     (let c = (mctx io)\<lparr>chip_buffer_size := 65536, max_tx_buffer_bytes := 3 * 65536, max_rx_buffer_bytes := 65536 * 2\<rparr>
      in case (mal (3 * 65536), mal (65536 * 2)) of
           (Some txb, Some _) \<Rightarrow>
             Ret (0, io\<lparr>mctx := c\<lparr>tx_buffer := take (length (tx_buffer c)) txb, mpsse_is_open := True,
                                  tap_state := TEST_LOGIC_RESET, last_tdi := False\<rparr>\<rparr>)
         | _ \<Rightarrow> Ret (-1, close_handle drv (io\<lparr>mctx := c\<rparr>)))"

definition mpsse_adapter_open ::
  "(nat \<Rightarrow> u8 list option) \<Rightarrow> 'd ft_driver \<Rightarrow> string option \<Rightarrow> int \<Rightarrow> 'd mpsse_io \<Rightarrow> (int \<times> 'd mpsse_io) outcome" where
  "mpsse_adapter_open mal drv serial index io =
     (case ft_create_device_info_list drv (mdev io) of
        (ftStatus, numDevs, d) \<Rightarrow>
          if ftStatus \<noteq> FT_OK then
            Ret (-1, io\<lparr>mctx := (mctx io)\<lparr>mpsse_error := ''FT_CreateDeviceInfoList failed: '' @ show_nat ftStatus\<rparr>, mdev := d\<rparr>)
          else if numDevs = 0 then
            Ret (-1, io\<lparr>mctx := (mctx io)\<lparr>mpsse_error := ''No FTDI devices found''\<rparr>, mdev := d\<rparr>)
          else
            ok_then (Ret (open_handle drv serial index (io\<lparr>mdev := d\<rparr>))) (\<lambda>io1.
            ok_then (enter_mpsse drv io1) (reallocate_buffers mal drv)))"

section \<open>Close and destroy\<close>

definition mpsse_adapter_close :: "'d ft_driver \<Rightarrow> 'd mpsse_io \<Rightarrow> 'd mpsse_io outcome" where
  "mpsse_adapter_close drv io =
     (if \<not> mpsse_is_open (mctx io) then Ret io
      else bind_out (mpsse_buffer_flush drv io) (\<lambda>(_, io1).
        let io2 = (if ft_handle (mctx io1)
                   then close_handle drv (io1\<lparr>mdev := snd (ft_set_bit_mode drv (mdev io1) 0 FT_BITMODE_RESET)\<rparr>)
                   else io1)
        in Ret (io2\<lparr>mctx := (mctx io2)\<lparr>mpsse_is_open := False\<rparr>\<rparr>)))"

text \<open>After \<open>destroy\<close> only the device and the caller's memory remain.\<close>

definition mpsse_adapter_destroy :: "'d ft_driver \<Rightarrow> 'd mpsse_io \<Rightarrow> ('d \<times> memory) outcome" where
  "mpsse_adapter_destroy drv io =
     bind_out (if mpsse_is_open (mctx io) then mpsse_adapter_close drv io else Ret io) (\<lambda>io1. Ret (mdev io1, mmem io1))"

section \<open>Frequency\<close>

definition tck_divisor :: "nat \<Rightarrow> nat" where
  "tck_divisor frequency_hz =
     (let f = (if frequency_hz > MPSSE_MAX_FREQUENCY then MPSSE_MAX_FREQUENCY else frequency_hz);
          f = (if f < 1 then 1 else f);
          d = 60000000 div (2 * f);
          d = (if d > 0 then d - 1 else d)
      in if d > 0xFFFF then 0xFFFF else d)"

definition tck_actual :: "nat \<Rightarrow> nat" where
  "tck_actual dvs = 60000000 div ((1 + dvs) * 2)"

definition mpsse_adapter_set_frequency :: "'d ft_driver \<Rightarrow> u32 \<Rightarrow> 'd mpsse_io \<Rightarrow> (int \<times> 'd mpsse_io) outcome" where
  "mpsse_adapter_set_frequency drv frequency_hz io =
     (if \<not> mpsse_is_open (mctx io) then Ret (-1, io)
      else let dvs = tck_divisor (unat frequency_hz);
               cmd = [OP_DISABLE_CLK_DIVIDE_BY_5, OP_SET_TCK_DIVISOR, of_nat (dvs mod 256), of_nat (dvs div 256 mod 256)]
           in ok_then (mpsse_buffer_append drv cmd None 0 io) (\<lambda>io1.
              ok_then (mpsse_buffer_flush drv io1) (\<lambda>io2. Ret (int (tck_actual dvs), io2))))"

definition mpsse_adapter_error :: "mpsse_context \<Rightarrow> string" where
  "mpsse_adapter_error c = (if mpsse_error c \<noteq> [] then mpsse_error c else ''No error'')"

definition mpsse_adapter_set_verbose :: "mpsse_context \<Rightarrow> int \<Rightarrow> mpsse_context" where
  "mpsse_adapter_set_verbose c level = c\<lparr>mpsse_verbose := level\<rparr>"

section \<open>What opening gives\<close>

text \<open>
  Documented behaviour the set-up relies on: switching to MPSSE mode leaves the command
  processor idle and the response queue empty, and reading the device information does not
  disturb the chip.
\<close>

definition clean_open :: "('d \<Rightarrow> 't chip) \<Rightarrow> 'd ft_driver \<Rightarrow> bool" where
  "clean_open chip_of drv \<longleftrightarrow>
     (\<forall>d. fst (ft_set_bit_mode drv d 0 FT_BITMODE_MPSSE) = FT_OK \<longrightarrow>
        phase (chip_of (snd (ft_set_bit_mode drv d 0 FT_BITMODE_MPSSE))) = Ready \<and>
        outq (chip_of (snd (ft_set_bit_mode drv d 0 FT_BITMODE_MPSSE))) = []) \<and>
     (\<forall>d. chip_of (snd (ft_get_device_info drv d)) = chip_of d)"

text \<open>A device that is there and can be opened.\<close>

definition device_present :: "'d ft_driver \<Rightarrow> bool" where
  "device_present drv \<longleftrightarrow>
     (\<forall>d. fst (ft_create_device_info_list drv d) = FT_OK \<and> fst (snd (ft_create_device_info_list drv d)) \<noteq> 0) \<and>
     (\<forall>d serial. fst (ft_open_ex drv d serial) = FT_OK) \<and> (\<forall>d index. fst (ft_open drv d index) = FT_OK) \<and>
     (\<forall>d. fst (ft_set_bit_mode drv d 0 FT_BITMODE_MPSSE) = FT_OK)"

lemma device_presentD:
  assumes "device_present drv"
  shows "ft_create_device_info_list drv d = (st, n, d') \<Longrightarrow> st = FT_OK \<and> n \<noteq> 0" "ft_open_ex drv d serial = (st, d') \<Longrightarrow> st = FT_OK"
    "ft_open drv d index = (st, d') \<Longrightarrow> st = FT_OK" "ft_set_bit_mode drv d 0 FT_BITMODE_MPSSE = (st, d') \<Longrightarrow> st = FT_OK"
  using assms unfolding device_present_def by (metis fst_conv snd_conv)+

lemma setup_run:
  "phase C = Ready \<Longrightarrow> chip_run clk setup_cmds C = C\<lparr>divisor := 29, tms_pin := True\<rparr>"
  using bit_exp_u8[of 3 3] by (simp add: setup_cmds_def chip_step.simps two_operands_def exec_command_def)

lemma clear_junk_idle:
  assumes "ideal_driver clk chip_of drv" "outq (chip_of d) = []"
  obtains d' where "clear_junk drv d = Ret d'" "chip_of d' = chip_of d"
proof -
  obtain d' where "ft_get_queue_status drv d = (0, of_nat 0, d')" "chip_of d' = chip_of d"
    using ideal_queueE[OF assms(1), of d] assms(2) by auto
  then show thesis using that[of d'] by (simp add: clear_junk_def)
qed

lemma enter_mpsse_ideal:
  assumes drv: "ideal_driver clk chip_of drv" "clean_open chip_of drv"
  shows "\<exists>code io'. enter_mpsse drv io = Ret (code, io') \<and> mmem io' = mmem io \<and>
    (code = 0 \<and> mctx io' = mctx io \<and> phase (chip_of (mdev io')) = Ready \<and> outq (chip_of (mdev io')) = [] \<and>
       divisor (chip_of (mdev io')) = 29 \<and> tms_pin (chip_of (mdev io')) \<or>
     code = -1 \<and> \<not> ft_handle (mctx io') \<and> mpsse_is_open (mctx io') = mpsse_is_open (mctx io) \<and> \<not> device_present drv)"
proof -
  obtain st d where mode: "ft_set_bit_mode drv (setup_calls drv (mdev io)) 0 FT_BITMODE_MPSSE = (st, d)" by fastforce
  show ?thesis
  proof (cases "st = FT_OK")
    case False
    then show ?thesis using mode device_presentD(4)[OF _ mode] by (auto simp: enter_mpsse_def close_handle_def)
  next
    case True
    then have d: "phase (chip_of d) = Ready" "outq (chip_of d) = []"
      using drv(2) mode unfolding clean_open_def by (metis fst_conv snd_conv)+
    obtain d1 where d1: "clear_junk drv d = Ret d1" "chip_of d1 = chip_of d" using clear_junk_idle[OF drv(1) d(2)] .
    obtain d2 where d2: "ft_write drv d1 setup_cmds = (0, of_nat (length setup_cmds), d2)"
      "chip_of d2 = (chip_of d)\<lparr>divisor := 29, tms_pin := True\<rparr>"
      using ideal_writeE[OF drv(1), of setup_cmds d1] setup_run[OF d(1)] d1(2) by (auto simp: setup_cmds_def)
    obtain d3 where d3: "clear_junk drv d2 = Ret d3" "chip_of d3 = chip_of d2"
      using clear_junk_idle[OF drv(1), of d2] d2(2) d(2) by auto
    have "chip_of (snd (ft_get_device_info drv d3)) = chip_of d3" using drv(2) by (simp add: clean_open_def)
    then show ?thesis using True mode d d1 d2 d3 by (simp add: enter_mpsse_def u32_small(1) setup_cmds_def)
  qed
qed

lemma open_handle_cases:
  assumes "open_handle drv serial index io = (code, io')"
  shows "mmem io' = mmem io \<and> (code = -1 \<and> mpsse_is_open (mctx io') = mpsse_is_open (mctx io) \<and>
      ft_handle (mctx io') = ft_handle (mctx io) \<and> \<not> device_present drv \<or> code = 0 \<and> mctx io' = (mctx io)\<lparr>ft_handle := True\<rparr>)"
proof -
  obtain st1 d1 where o1: "ft_open_ex drv (mdev io) (the serial) = (st1, d1)" by fastforce
  obtain st2 d2 where o2: "ft_open drv (mdev io) index = (st2, d2)" by fastforce
  have "device_present drv \<Longrightarrow> st1 = FT_OK \<and> st2 = FT_OK" using device_presentD(2,3) o1 o2 by metis
  then show ?thesis using assms o1 o2 by (auto simp: open_handle_def split: if_splits)
qed

lemma mpsse_open_ok:
  assumes drv: "ideal_driver clk chip_of drv" "clean_open chip_of drv"
    and c: "mpsse_adapter_create cmal = Some c" and io: "mctx io = c"
  shows "\<exists>code io'. mpsse_adapter_open mal drv serial index io = Ret (code, io') \<and> mmem io' = mmem io \<and>
    (code = 0 \<and> adapter_ready chip_of io' \<and> tap_state (mctx io') = TEST_LOGIC_RESET \<and> \<not> last_tdi (mctx io') \<and>
       tms_pin (chip_of (mdev io')) \<and> divisor (chip_of (mdev io')) = 29 \<or>
     code = -1 \<and> \<not> mpsse_is_open (mctx io') \<and> \<not> ft_handle (mctx io') \<and>
       \<not> (device_present drv \<and> mal 196608 \<noteq> None \<and> mal 131072 \<noteq> None))"
proof -
  have c0: "tx_buffer c = []" "rx_num_bytes c = 0" "rx_observers c = []" "pool_used c = 0" "\<not> mpsse_is_open c" "\<not> ft_handle c"
    using c by (auto simp: mpsse_adapter_create_def split: if_splits)
  obtain st n d where l: "ft_create_device_info_list drv (mdev io) = (st, n, d)" by (cases "ft_create_device_info_list drv (mdev io)")
  obtain code1 io1 where h: "open_handle drv serial index (io\<lparr>mdev := d\<rparr>) = (code1, io1)" by fastforce
  have io1: "mmem io1 = mmem io" "code1 = -1 \<and> \<not> mpsse_is_open (mctx io1) \<and> \<not> ft_handle (mctx io1) \<and> \<not> device_present drv \<or>
      code1 = 0 \<and> mctx io1 = c\<lparr>ft_handle := True\<rparr>"
    using open_handle_cases[OF h] c0 io by auto
  obtain code2 io2 where e: "enter_mpsse drv io1 = Ret (code2, io2)" "mmem io2 = mmem io1"
    "code2 = 0 \<and> mctx io2 = mctx io1 \<and> phase (chip_of (mdev io2)) = Ready \<and> outq (chip_of (mdev io2)) = [] \<and>
       divisor (chip_of (mdev io2)) = 29 \<and> tms_pin (chip_of (mdev io2)) \<or>
     code2 = -1 \<and> \<not> ft_handle (mctx io2) \<and> mpsse_is_open (mctx io2) = mpsse_is_open (mctx io1) \<and> \<not> device_present drv"
    using enter_mpsse_ideal[OF drv, of io1] by blast
  show ?thesis
  proof (cases "st = FT_OK \<and> n \<noteq> 0 \<and> code1 = 0 \<and> code2 = 0")
    case True
    then show ?thesis using l h io1 e c0
      by (cases "mal 196608"; cases "mal 131072")
        (auto simp: mpsse_adapter_open_def reallocate_buffers_def close_handle_def Let_def adapter_ready_def flushed_def is_shift_def)
  next
    case False
    then show ?thesis using l h io1 e c0 io device_presentD(1)[OF _ l] by (auto simp: mpsse_adapter_open_def)
  qed
qed

text \<open>
  C23. Opening a freshly created context on an ideal driver: if the device is there and can be
  opened, and both buffers can be allocated, the call returns 0. Whenever it returns 0 the adapter
  is ready to scan, TAP in Test-Logic-Reset, TMS high and the divisor for 1 MHz. Otherwise it
  returns -1 with the context closed and without a handle. The caller's memory is not touched.
\<close>

theorem mpsse_open_ready:
  assumes drv: "ideal_driver clk chip_of drv" "clean_open chip_of drv"
    and c: "mpsse_adapter_create cmal = Some c" and io: "mctx io = c"
  shows "\<exists>code io'. mpsse_adapter_open mal drv serial index io = Ret (code, io') \<and> mmem io' = mmem io \<and>
    (device_present drv \<and> mal (3 * 65536) \<noteq> None \<and> mal (2 * 65536) \<noteq> None \<longrightarrow> code = 0) \<and>
    (if code = 0
     then adapter_ready chip_of io' \<and> tap_state (mctx io') = TEST_LOGIC_RESET \<and> \<not> last_tdi (mctx io') \<and>
       tms_pin (chip_of (mdev io')) \<and> divisor (chip_of (mdev io')) = 29
     else code = -1 \<and> \<not> mpsse_is_open (mctx io') \<and> \<not> ft_handle (mctx io'))"
proof -
  obtain code io' where "mpsse_adapter_open mal drv serial index io = Ret (code, io')" "mmem io' = mmem io"
    "code = 0 \<and> adapter_ready chip_of io' \<and> tap_state (mctx io') = TEST_LOGIC_RESET \<and> \<not> last_tdi (mctx io') \<and>
       tms_pin (chip_of (mdev io')) \<and> divisor (chip_of (mdev io')) = 29 \<or>
     code = -1 \<and> \<not> mpsse_is_open (mctx io') \<and> \<not> ft_handle (mctx io') \<and> \<not> (device_present drv \<and> mal 196608 \<noteq> None \<and> mal 131072 \<noteq> None)"
    using mpsse_open_ok[OF drv c io, of mal serial index] by blast
  then show ?thesis by (intro exI[of _ code] exI[of _ io']) auto
qed

section \<open>Handles\<close>

text \<open>
  \<open>opened d\<close> is the number of handles the process holds: a successful \<open>FT_Open\<close> or \<open>FT_OpenEx\<close> adds
  one, \<open>FT_Close\<close> gives one back, nothing else changes it. Of any other behaviour of the driver
  nothing is assumed, so every one of its calls may fail.
\<close>

definition counts_handles :: "'d ft_driver \<Rightarrow> ('d \<Rightarrow> nat) \<Rightarrow> bool" where
  "counts_handles drv opened \<longleftrightarrow>
     (\<forall>d serial. opened (snd (ft_open_ex drv d serial)) = opened d + (if fst (ft_open_ex drv d serial) = FT_OK then 1 else 0)) \<and>
     (\<forall>d index. opened (snd (ft_open drv d index)) = opened d + (if fst (ft_open drv d index) = FT_OK then 1 else 0)) \<and>
     (\<forall>d. opened (ft_close drv d) = opened d - 1) \<and>
     (\<forall>d. opened (snd (snd (ft_create_device_info_list drv d))) = opened d) \<and> (\<forall>d call. opened (snd (ft_setup_call drv d call)) = opened d) \<and>
     (\<forall>d a b. opened (snd (ft_set_bit_mode drv d a b)) = opened d) \<and> (\<forall>d. opened (snd (ft_get_device_info drv d)) = opened d) \<and>
     (\<forall>d bs. opened (snd (snd (ft_write drv d bs))) = opened d) \<and> (\<forall>d. opened (snd (snd (ft_get_queue_status drv d))) = opened d) \<and>
     (\<forall>d n. opened (snd (snd (ft_read drv d n))) = opened d)"

lemma counts_handlesD:
  assumes "counts_handles drv opened"
  shows "ft_open_ex drv d serial = (st, d') \<Longrightarrow> opened d' = opened d + (if st = FT_OK then 1 else 0)"
    "ft_open drv d index = (st, d') \<Longrightarrow> opened d' = opened d + (if st = FT_OK then 1 else 0)"
    "opened (ft_close drv d) = opened d - 1" "ft_create_device_info_list drv d = (st, n, d') \<Longrightarrow> opened d' = opened d"
    "opened (snd (ft_setup_call drv d call)) = opened d" "opened (snd (ft_set_bit_mode drv d a b)) = opened d"
    "ft_set_bit_mode drv d a b = (st, d') \<Longrightarrow> opened d' = opened d" "opened (snd (ft_get_device_info drv d)) = opened d"
    "ft_write drv d bs = (st, w, d') \<Longrightarrow> opened d' = opened d" "ft_get_queue_status drv d = (st, n, d') \<Longrightarrow> opened d' = opened d"
    "ft_read drv d k = (st, data, d') \<Longrightarrow> opened d' = opened d"
  using assms unfolding counts_handles_def by (metis fst_conv snd_conv)+

lemma clear_junk_handles:
  assumes k: "counts_handles drv opened" and c: "clear_junk drv d = Ret d'"
  shows "opened d' = opened d"
proof -
  obtain st rx d1 where q: "ft_get_queue_status drv d = (st, rx, d1)" by (cases "ft_get_queue_status drv d")
  obtain st2 data d2 where r: "ft_read drv d1 (if sint rx < 256 then rx else 256) = (st2, data, d2)"
    by (cases "ft_read drv d1 (if sint rx < 256 then rx else 256)")
  show ?thesis
    using c q r counts_handlesD(10)[OF k q] counts_handlesD(11)[OF k r] by (simp add: clear_junk_def split: if_splits)
qed

lemma setup_calls_handles: "counts_handles drv opened \<Longrightarrow> opened (setup_calls drv d) = opened d"
  by (simp add: setup_calls_def counts_handlesD(5,6))

lemma enter_mpsse_handles:
  assumes k: "counts_handles drv opened" and e: "enter_mpsse drv io = Ret (code, io')" and h: "ft_handle (mctx io)"
  shows "code = -1 \<and> opened (mdev io') = opened (mdev io) - 1 \<and> \<not> ft_handle (mctx io') \<and> mpsse_is_open (mctx io') = mpsse_is_open (mctx io) \<or>
    code = 0 \<and> opened (mdev io') = opened (mdev io) \<and> mctx io' = mctx io"
proof -
  obtain st d where mode: "ft_set_bit_mode drv (setup_calls drv (mdev io)) 0 FT_BITMODE_MPSSE = (st, d)" by fastforce
  have d: "opened d = opened (mdev io)" using counts_handlesD(7)[OF k mode] setup_calls_handles[OF k] by simp
  show ?thesis
  proof (cases "st = FT_OK")
    case False
    then show ?thesis using e mode d by (auto simp: enter_mpsse_def close_handle_def counts_handlesD(3)[OF k])
  next
    case True
    then obtain d1 where d1: "clear_junk drv d = Ret d1" using e mode by (cases "clear_junk drv d") (auto simp: enter_mpsse_def)
    obtain st2 n d2 where d2: "ft_write drv d1 setup_cmds = (st2, n, d2)" by (cases "ft_write drv d1 setup_cmds")
    have o2: "opened d2 = opened (mdev io)" using counts_handlesD(9)[OF k d2] clear_junk_handles[OF k d1] d by simp
    show ?thesis using e True mode d1 d2 o2
      by (auto simp: enter_mpsse_def close_handle_def counts_handlesD(3,8)[OF k] bind_out_Ret_iff dest!: clear_junk_handles[OF k] split: if_splits)
  qed
qed

lemma open_handle_handles:
  assumes k: "counts_handles drv opened" and o: "open_handle drv serial index io = (code, io')"
  shows "code = -1 \<and> opened (mdev io') = opened (mdev io) \<or> code = 0 \<and> opened (mdev io') = opened (mdev io) + 1"
proof -
  obtain st1 d1 where o1: "ft_open_ex drv (mdev io) (the serial) = (st1, d1)" by fastforce
  obtain st2 d2 where o2: "ft_open drv (mdev io) index = (st2, d2)" by fastforce
  show ?thesis using o counts_handlesD(1)[OF k o1] counts_handlesD(2)[OF k o2] o1 o2 by (auto simp: open_handle_def split: if_splits)
qed

text \<open>Every way out of \<open>open\<close> but success has closed the handle again.\<close>

lemma mpsse_open_handles:
  assumes k: "counts_handles drv opened" and io: "\<not> ft_handle (mctx io)" "\<not> mpsse_is_open (mctx io)"
    and o: "mpsse_adapter_open mal drv serial index io = Ret (code, io')"
  shows "if code = 0 then opened (mdev io') = opened (mdev io) + 1 \<and> ft_handle (mctx io') \<and> mpsse_is_open (mctx io') \<and>
      length (tx_buffer (mctx io')) \<le> length (tx_buffer (mctx io)) \<and> rx_num_bytes (mctx io') = rx_num_bytes (mctx io)
    else code = -1 \<and> opened (mdev io') = opened (mdev io) \<and> \<not> ft_handle (mctx io') \<and> \<not> mpsse_is_open (mctx io')"
proof -
  obtain st n d where l: "ft_create_device_info_list drv (mdev io) = (st, n, d)" by (cases "ft_create_device_info_list drv (mdev io)")
  have d: "opened d = opened (mdev io)" by (rule counts_handlesD(4)[OF k l])
  obtain code1 io1 where h: "open_handle drv serial index (io\<lparr>mdev := d\<rparr>) = (code1, io1)" by fastforce
  note h1 = open_handle_handles[OF k h] open_handle_cases[OF h]
  show ?thesis
  proof (cases "st = FT_OK \<and> n \<noteq> 0 \<and> code1 = 0")
    case True
    then obtain code2 io2 where e: "enter_mpsse drv io1 = Ret (code2, io2)"
      using o l h by (cases "enter_mpsse drv io1") (auto simp: mpsse_adapter_open_def)
    have "ft_handle (mctx io1)" using h1(2) True by auto
    note e2 = enter_mpsse_handles[OF k e this]
    show ?thesis using o l h e e2 h1 d io True
      by (cases "mal 196608"; cases "mal 131072")
        (auto simp: mpsse_adapter_open_def reallocate_buffers_def close_handle_def Let_def counts_handlesD(3)[OF k] split: if_splits)
  next
    case False
    then show ?thesis using o l h h1 d io by (auto simp: mpsse_adapter_open_def split: if_splits)
  qed
qed

section \<open>Frequency\<close>

lemma tck_divisor_le: "tck_divisor f \<le> 65535"
  by (simp add: tck_divisor_def Let_def)

lemma divisor_command:
  assumes "phase C = Ready" "outq C = []" "d \<le> 65535"
  shows "takes_step clk [OP_DISABLE_CLK_DIVIDE_BY_5, OP_SET_TCK_DIVISOR, of_nat (d mod 256), of_nat (d div 256 mod 256)]
    None 0 C m (C\<lparr>divisor := d\<rparr>) m"
proof -
  have "unat (of_nat (d mod 256) :: u8) + 256 * unat (of_nat (d div 256 mod 256) :: u8) = d"
    using assms(3) by (simp only: unat_of_nat_u8 mod_less_divisor zero_less_numeral) simp
  then show ?thesis
    using assms by (simp add: takes_step_def Let_def chip_step.simps two_operands_def exec_command_def)
qed

lemma set_frequency_ok:
  assumes ready: "adapter_ready chip_of io" and drv: "ideal_driver clk chip_of drv"
  shows "\<exists>io'. mpsse_adapter_set_frequency drv f io = Ret (int (30000000 div (tck_divisor (unat f) + 1)), io') \<and>
    chip_of (mdev io') = (chip_of (mdev io))\<lparr>divisor := tck_divisor (unat f)\<rparr> \<and> adapter_ready chip_of io' \<and>
    mmem io' = mmem io \<and> tap_state (mctx io') = tap_state (mctx io) \<and> last_tdi (mctx io') = last_tdi (mctx io)"
proof -
  define d where "d = tck_divisor (unat f)"
  define C where "C = chip_of (mdev io)"
  have C: "phase C = Ready" "outq C = []" "mpsse_is_open (mctx io)" using ready by (auto simp: adapter_ready_def Let_def C_def)
  define cmd where "cmd = [OP_DISABLE_CLK_DIVIDE_BY_5, OP_SET_TCK_DIVISOR, of_nat (d mod 256), of_nat (d div 256 mod 256)]"
  have step: "takes_step clk cmd None 0 C (mmem io) (C\<lparr>divisor := d\<rparr>) (mmem io)"
    using divisor_command[OF C(1,2), of d] tck_divisor_le by (simp add: cmd_def d_def)
  obtain io1 where io1: "mpsse_buffer_append drv cmd None 0 io = Ret (0, io1)"
    "abstracts clk chip_of io1 (C\<lparr>divisor := d\<rparr>) (mmem io)" "cfg (mctx io1) = cfg (mctx io)" "pool_used (mctx io1) = 0"
    using append_abstracts[OF drv ready_abstracts[OF ready, folded C_def] step] ready
    by (auto simp: cmd_def adapter_ready_def Let_def)
  obtain io2 where io2: "mpsse_buffer_flush drv io1 = Ret (0, io2)" "flushed (mctx io2)" "chip_of (mdev io2) = C\<lparr>divisor := d\<rparr>"
    "mmem io2 = mmem io" "cfg (mctx io2) = cfg (mctx io)" "pool_used (mctx io2) = 0"
    using flush_abstracts[OF drv io1(2)] io1(3,4) by auto
  have "adapter_ready chip_of io2" "tap_state (mctx io2) = tap_state (mctx io)" "last_tdi (mctx io2) = last_tdi (mctx io)"
    using ready io2 by (auto simp: adapter_ready_def Let_def cfg_def C_def)
  moreover have "tck_actual d = 30000000 div (d + 1)"
    using div_mult2_eq[of 60000000 2 "d + 1"] by (simp add: tck_actual_def mult.commute)
  ultimately show ?thesis
    using io1(1)[unfolded cmd_def] io2 C(3) by (simp add: mpsse_adapter_set_frequency_def Let_def d_def [symmetric] C_def)
qed

text \<open>
  Setting the frequency of a ready adapter programs the divisor \<open>d \<le> 65535\<close>, returns the
  rate \<open>30000000 div (d + 1)\<close> the chip then has, and leaves everything else as it was.
\<close>

theorem set_frequency_programs:
  assumes ready: "adapter_ready chip_of io" and drv: "ideal_driver clk chip_of drv"
  shows "\<exists>io'. mpsse_adapter_set_frequency drv f io = Ret (int (30000000 div (tck_divisor (unat f) + 1)), io') \<and>
    chip_of (mdev io') = (chip_of (mdev io))\<lparr>divisor := tck_divisor (unat f)\<rparr> \<and> adapter_ready chip_of io' \<and>
    mmem io' = mmem io \<and> tap_state (mctx io') = tap_state (mctx io) \<and> last_tdi (mctx io') = last_tdi (mctx io)"
  by (rule set_frequency_ok[OF ready drv])

text \<open>The divisor set is the slowest rate that is not below the one asked for, within its 16 bits.\<close>

lemma tck_divisor_spec:
  assumes "f \<le> 30000000"
  shows "(tck_divisor f + 1) * f \<le> 30000000 \<and> (tck_divisor f = 65535 \<or> 30000000 < (tck_divisor f + 2) * f)"
proof (cases "f = 0")
  case False
  define q where "q = 30000000 div f"
  have q: "1 \<le> q" "q * f \<le> 30000000" "30000000 < (q + 1) * f"
    using assms False div_le_mono[of f 30000000 f] dividend_less_div_times[of f 30000000] by (simp_all add: q_def add.commute)
  have "60000000 div (2 * f) = q" using div_mult_mult1[of 2 30000000 f] by (simp add: q_def)
  then have d: "tck_divisor f = (if q - 1 > 65535 then 65535 else q - 1)"
    using assms False q(1) by (simp add: tck_divisor_def Let_def MPSSE_MAX_FREQUENCY_def)
  have "65536 * f \<le> 30000000" if "q - 1 > 65535"
    using that mult_le_mono1[of 65536 q f] q(2) by linarith
  moreover have "q - 1 + 1 = q" "q - 1 + 2 = q + 1" using q(1) by simp_all
  ultimately show ?thesis using q(2,3) unfolding d by (simp only: split: if_split) auto
qed (simp add: tck_divisor_def Let_def MPSSE_MAX_FREQUENCY_def)

lemma tck_rate_mid:
  "458 \<le> f \<Longrightarrow> f \<le> 30000000 \<Longrightarrow> f \<le> tck_actual (tck_divisor f) \<and> tck_actual (tck_divisor f) < 2 * f"
proof -
  assume f: "458 \<le> f" "f \<le> 30000000"
  define q where "q = 30000000 div f"
  have "60000000 div (2 * f) = q" using div_mult2_eq[of 60000000 2 f] by (simp add: q_def)
  moreover have q0: "0 < q" using f by (simp add: q_def div_greater_zero_iff)
  moreover have "q \<le> 30000000 div 458" unfolding q_def by (rule div_le_mono2) (use f in auto)
  ultimately have "tck_divisor f + 1 = q" using f by (simp add: tck_divisor_def Let_def MPSSE_MAX_FREQUENCY_def)
  then have act: "tck_actual (tck_divisor f) = 30000000 div q"
    using div_mult2_eq[of 60000000 2 q] by (simp add: tck_actual_def mult.commute add.commute)
  have le: "f * q \<le> 30000000" "30000000 < f * q + f"
    using f dividend_less_times_div[of f 30000000] by (simp_all add: q_def add.commute)
  have "30000000 div q < 2 * f"
  proof -
    have "f \<le> f * q" using q0 by simp
    then have "30000000 < 2 * (f * q)" using le by linarith
    then have "30000000 < 2 * f * q" by (simp only: mult.assoc)
    then show ?thesis using q0 by (simp add: div_less_iff_less_mult)
  qed
  moreover have "f \<le> 30000000 div q" using le q0 by (simp add: less_eq_div_iff_mult_less_eq mult.commute)
  ultimately show ?thesis by (simp add: act)
qed

lemma tck_rate_low: "f < 458 \<Longrightarrow> tck_actual (tck_divisor f) = 457"
proof -
  assume f: "f < 458"
  define g where "g = (if f < 1 then 1 else f)"
  have "30000000 div 457 \<le> 30000000 div g" using f by (intro div_le_mono2) (auto simp: g_def)
  moreover have "60000000 div (2 * g) = 30000000 div g" using div_mult2_eq[of 60000000 2 g] by simp
  ultimately have "60000000 div (2 * g) - 1 > 65535" by simp
  then have "tck_divisor f = 65535" using f by (simp add: tck_divisor_def Let_def MPSSE_MAX_FREQUENCY_def g_def)
  then show ?thesis by (simp add: tck_actual_def)
qed

text \<open>
  Between 458 Hz and 30 MHz the rate set is at least the requested one and less than twice
  it; higher requests give 30 MHz, lower ones 457 Hz.
\<close>

theorem tck_rate_bounds:
  "(458 \<le> f \<and> f \<le> 30000000 \<longrightarrow> f \<le> tck_actual (tck_divisor f) \<and> tck_actual (tck_divisor f) < 2 * f) \<and>
   (30000000 < f \<longrightarrow> tck_actual (tck_divisor f) = 30000000) \<and>
   (f < 458 \<longrightarrow> tck_actual (tck_divisor f) = 457)"
  using tck_rate_mid tck_rate_low by (auto simp: tck_divisor_def Let_def MPSSE_MAX_FREQUENCY_def tck_actual_def)

end
