(* ===== verification/Scan_Port.thy ===== *)
theory Scan_Port
  imports Mpsse_Adapter
begin

text \<open>
  The interface between the adapter and its clients. A scan port is anything with a scan
  operation that, when ready, drives the reference cycles and returns the reference TDO vector;
  the clients (the chunked scan, the shift command) are proved against this contract and the
  MPSSE adapter is an interpretation of it. The heap is explicit: \<open>mal\<close> stands for \<open>malloc\<close>
  and gives a block that was not live, with arbitrary contents.
\<close>

type_synonym allocator = "memory \<Rightarrow> nat \<Rightarrow> (nat \<times> u8 list) option"

definition malloc_ok :: "allocator \<Rightarrow> bool" where
  "malloc_ok mal \<longleftrightarrow> (\<forall>m n a b. mal m n = Some (a, b) \<longrightarrow> m a = None \<and> length b = n)"

definition malloc_succeeds :: "allocator \<Rightarrow> bool" where
  "malloc_succeeds mal \<longleftrightarrow> (\<forall>m n. finite (dom m) \<longrightarrow> mal m n \<noteq> None)"

section \<open>The chunk loop\<close>

text \<open>
  The loop of \<open>ftdi_adapter_scan_chunked\<close>, for any scan operation \<open>scan\<close> on a state whose heap
  is read by \<open>mem\<close> and written by \<open>put\<close>. Each round scans into a block of its own, copies it
  into the result and frees it, on the error path too. \<open>chunk_bits\<close> is positive in the program.
\<close>

function scan_chunks ::
  "allocator \<Rightarrow> (u8 list \<Rightarrow> u8 list \<Rightarrow> nat \<Rightarrow> int \<Rightarrow> 's \<Rightarrow> (int \<times> 's) outcome) \<Rightarrow> ('s \<Rightarrow> memory) \<Rightarrow> (memory \<Rightarrow> 's \<Rightarrow> 's) \<Rightarrow>
   u8 list \<Rightarrow> u8 list \<Rightarrow> nat \<Rightarrow> nat \<Rightarrow> nat \<Rightarrow> nat \<Rightarrow> 's \<Rightarrow> (int \<times> 's) outcome" where
  "scan_chunks mal scan mem put tms tdi tdo bits chunk_bits bits_processed s =
     (if bits_processed < bits \<and> chunk_bits > 0 then
        (let current_chunk_bits = (if bits_processed + chunk_bits > bits then bits - bits_processed else chunk_bits);
             byte_offset = bits_processed div 8;
             current_chunk_bytes = (current_chunk_bits + 7) div 8
         in case mal (mem s) current_chunk_bytes of
              None \<Rightarrow> Ret (-1, s)
            | Some (chunk_tdo, _) \<Rightarrow>
                bind_out (scan (drop byte_offset tms) (drop byte_offset tdi) chunk_tdo (int current_chunk_bits)
                            (put ((mem s)(chunk_tdo \<mapsto> replicate current_chunk_bytes 0)) s))
                  (\<lambda>(ret, s1).
                     if ret < 0 then Ret (-1, put ((mem s1)(chunk_tdo := None)) s1)
                     else case mem s1 chunk_tdo of
                            None \<Rightarrow> Undefined
                          | Some chunk \<Rightarrow>
                              bind_out (mem_copy tdo byte_offset (take current_chunk_bytes chunk) (mem s1))
                                (\<lambda>m. scan_chunks mal scan mem put tms tdi tdo bits chunk_bits
                                       (bits_processed + current_chunk_bits) (put (m(chunk_tdo := None)) s1))))
      else Ret (0, s))"
  by pat_completeness auto
termination
  by (relation "measure (\<lambda>(_, _, _, _, _, _, _, bits, _, p, _). bits - p)") (auto split: if_splits)

declare scan_chunks.simps [simp del]

section \<open>The reference on a suffix of the vectors\<close>

definition run_target :: "'t clocked \<Rightarrow> (bool \<times> bool) list \<Rightarrow> 't \<Rightarrow> 't" where
  "run_target clk cs t = fold (\<lambda>(tms, tdi) t. fst (clk t tms tdi)) cs t"

lemma run_target_append [simp]: "run_target clk (xs @ ys) t = run_target clk ys (run_target clk xs t)"
  by (simp add: run_target_def)

lemma target_clocks: "target (chip_clocks clk cs C) = run_target clk cs (target C)"
  by (induction cs arbitrary: C) (auto simp: run_target_def)

lemma samples_run: "samples clk t (xs @ ys) = samples clk t xs @ samples clk (run_target clk xs t) ys"
  by (induction xs arbitrary: t) (auto simp: run_target_def)

lemma get_bit_drop: "q \<le> length v \<Longrightarrow> get_bit (drop q v) i = get_bit v (8 * q + i)"
  by (simp add: get_bit_eq)

lemma state_at_drop:
  "q \<le> length tms \<Longrightarrow> state_at (drop q tms) (state_at tms s (8 * q)) i = state_at tms s (8 * q + i)"
  by (induction i) (simp_all add: state_at_Suc get_bit_drop)

lemma tdi_at_drop:
  "q \<le> length tms \<Longrightarrow> q \<le> length tdi \<Longrightarrow>
   tdi_at (drop q tms) (drop q tdi) (state_at tms s (8 * q)) (tdi_at tms tdi s h (8 * q)) i = tdi_at tms tdi s h (8 * q + i)"
  by (induction i) (simp_all add: state_at_drop get_bit_drop)

lemma wire_drop:
  assumes "q \<le> length tms" "q \<le> length tdi"
  shows "wire tms tdi s h (8 * q) @
      wire (drop q tms) (drop q tdi) (state_at tms s (8 * q)) (tdi_at tms tdi s h (8 * q)) n = wire tms tdi s h (8 * q + n)"
proof -
  have "wire (drop q tms) (drop q tdi) (state_at tms s (8 * q)) (tdi_at tms tdi s h (8 * q)) n =
      map (\<lambda>i. (get_bit tms i, tdi_at tms tdi s h (Suc i))) [8 * q..<8 * q + n]"
    by (rule map_upt_eqI) (use assms tdi_at_drop[OF assms, of s h "Suc _"] in \<open>simp_all add: wire_def get_bit_drop del: tdi_at.simps\<close>)
  then show ?thesis using wire_split[of "8 * q" "8 * q + n" tms tdi s h] by simp
qed

section \<open>Scan ports\<close>

locale scan_port =
  fixes clk :: "'t clocked"
    and scan :: "u8 list \<Rightarrow> u8 list \<Rightarrow> nat \<Rightarrow> int \<Rightarrow> 's \<Rightarrow> (int \<times> 's) outcome"
    and ready :: "'s \<Rightarrow> bool"
    and tgt :: "'s \<Rightarrow> 't" and tap :: "'s \<Rightarrow> jtag_state" and lvl :: "'s \<Rightarrow> bool"
    and mem :: "'s \<Rightarrow> memory" and put :: "memory \<Rightarrow> 's \<Rightarrow> 's"
  assumes put_laws: "mem (put m s) = m" "ready (put m s) = ready s" "tgt (put m s) = tgt s" "tap (put m s) = tap s"
      "lvl (put m s) = lvl s"
    and scan_law: "ready s \<Longrightarrow> mem s tdo = Some buf \<Longrightarrow> 0 < bits \<Longrightarrow> bits \<le> 524280 \<Longrightarrow> bits \<le> 8 * length tms \<Longrightarrow>
      bits \<le> 8 * length tdi \<Longrightarrow> bits \<le> 8 * length buf \<Longrightarrow>
      \<exists>s'. scan tms tdi tdo (int bits) s = Ret (0, s') \<and> ready s' \<and>
        tgt s' = run_target clk (wire tms tdi (tap s) (lvl s) bits) (tgt s) \<and>
        mem s' = (mem s)(tdo \<mapsto> tdo_after tms (tap s) (samples clk (tgt s) (wire tms tdi (tap s) (lvl s) bits)) buf) \<and>
        tap s' = state_at tms (tap s) bits \<and> lvl s' = tdi_at tms tdi (tap s) (lvl s) bits"
begin

text \<open>\<open>at_bit\<close>: the state after \<open>n\<close> bits of a scan that started with target \<open>t0\<close>, TAP state \<open>s0\<close>
  and TDI level \<open>h0\<close>.\<close>

definition at_bit :: "u8 list \<Rightarrow> u8 list \<Rightarrow> 't \<Rightarrow> jtag_state \<Rightarrow> bool \<Rightarrow> nat \<Rightarrow> 's \<Rightarrow> bool" where
  "at_bit tms tdi t0 s0 h0 n s \<longleftrightarrow> ready s \<and> tgt s = run_target clk (wire tms tdi s0 h0 n) t0 \<and>
     tap s = state_at tms s0 n \<and> lvl s = tdi_at tms tdi s0 h0 n"

lemma at_bit_put [simp]: "at_bit tms tdi t0 s0 h0 n (put m s) = at_bit tms tdi t0 s0 h0 n s"
  by (simp add: at_bit_def put_laws)

lemma at_bit_scan:
  assumes at: "at_bit tms tdi t0 s0 h0 (8 * q) s" and buf: "mem s a = Some (replicate n 0)"
    and k: "0 < k" "k \<le> 524280" "k \<le> 8 * n" "8 * q + k \<le> 8 * length tms" "8 * q + k \<le> 8 * length tdi"
  shows "\<exists>s' c. scan (drop q tms) (drop q tdi) a (int k) s = Ret (0, s') \<and> at_bit tms tdi t0 s0 h0 (8 * q + k) s' \<and>
    mem s' = (mem s)(a \<mapsto> c) \<and> length c = n \<and>
    (\<forall>j < 8 * n. get_bit c j = (j < k \<and> is_shift (state_at tms s0 (8 * q + j)) \<and>
        samples clk t0 (wire tms tdi s0 h0 (8 * q + k)) ! (8 * q + j)))"
proof -
  have q: "q \<le> length tms" "q \<le> length tdi" using k by linarith+
  define w where "w = wire (drop q tms) (drop q tdi) (tap s) (lvl s) k"
  have w: "wire tms tdi s0 h0 (8 * q + k) = wire tms tdi s0 h0 (8 * q) @ w"
    using wire_drop[OF q, of s0 h0 k] at by (simp add: w_def at_bit_def)
  define c where "c = tdo_after (drop q tms) (tap s) (samples clk (tgt s) w) (replicate n 0)"
  obtain s' where s': "scan (drop q tms) (drop q tdi) a (int k) s = Ret (0, s')" "ready s'" "tgt s' = run_target clk w (tgt s)"
     "mem s' = (mem s)(a \<mapsto> c)" "tap s' = state_at (drop q tms) (tap s) k" "lvl s' = tdi_at (drop q tms) (drop q tdi) (tap s) (lvl s) k"
  proof -
    have "ready s" "k \<le> 8 * length (drop q tms)" "k \<le> 8 * length (drop q tdi)" "k \<le> 8 * length (replicate n (0::u8))"
      using at k by (auto simp: at_bit_def)
    from scan_law[OF this(1) buf k(1,2) this(2,3,4)] that show ?thesis unfolding w_def c_def by blast
  qed
  have "at_bit tms tdi t0 s0 h0 (8 * q + k) s'"
    using s' at q by (simp add: at_bit_def w state_at_drop tdi_at_drop)
  moreover have "get_bit c j = (j < k \<and> is_shift (state_at tms s0 (8 * q + j)) \<and>
        samples clk t0 (wire tms tdi s0 h0 (8 * q + k)) ! (8 * q + j))" if "j < 8 * n" for j
  proof -
    have "get_bit (replicate n 0) j = False" using div8_less[OF that] by (simp add: get_bit_eq)
    moreover have "tap s = state_at tms s0 (8 * q)" "tgt s = run_target clk (wire tms tdi s0 h0 (8 * q)) t0"
      using at by (simp_all add: at_bit_def)
    ultimately show ?thesis using k q
      by (auto simp: c_def get_tdo_after w samples_run nth_append state_at_drop w_def)
  qed
  moreover have "length c = n" by (simp add: c_def)
  ultimately show ?thesis using s' by blast
qed

text \<open>
  The result vector after \<open>p\<close> bits, on a vector that starts out zero over the \<open>nz\<close> bytes
  the scan will fill.
\<close>

definition chunk_inv where
  "chunk_inv tms tdi tdo t0 s0 h0 Z m0 nz p s \<longleftrightarrow> at_bit tms tdi t0 s0 h0 p s \<and>
     mem s = m0(tdo \<mapsto> tdo_after tms s0 (samples clk t0 (wire tms tdi s0 h0 p)) Z) \<and>
     (\<forall>j < 8 * nz. \<not> get_bit Z j) \<and> nz \<le> length Z"

lemma splice_chunk:
  assumes c: "length c = n" "\<And>j. j < 8 * n \<Longrightarrow> get_bit c j = (j < k \<and> is_shift (state_at tms s0 (8 * q + j)) \<and>
        samples clk t0 (wire tms tdi s0 h0 (8 * q + k)) ! (8 * q + j))"
    and Z: "\<And>j. j < 8 * nz \<Longrightarrow> \<not> get_bit Z j" "nz \<le> length Z" and k: "k \<le> 8 * n" "q + n \<le> nz"
  defines "B \<equiv> (\<lambda>p. tdo_after tms s0 (samples clk t0 (wire tms tdi s0 h0 p)) Z)"
  shows "take q (B (8 * q)) @ c @ drop (q + n) (B (8 * q)) = B (8 * q + k)"
proof -
  have "take q (B (8 * q)) @ c @ drop (q + n) (B (8 * q)) = put_bits (B (8 * q)) (8 * q) (map (get_bit c) [0..<8 * n])"
    using splice_put_bits[of q c "B (8 * q)"] c(1) k(2) Z(2) by (simp add: B_def)
  also have "\<dots> = B (8 * q + k)"
  proof (rule put_bits_eqI)
    fix j assume j: "j < 8 * length (B (8 * q))"
    have len: "8 * q + k \<le> 8 * length Z" using k Z(2) by linarith
    have sm: "samples clk t0 (wire tms tdi s0 h0 (8 * q + k)) ! j = samples clk t0 (wire tms tdi s0 h0 (8 * q)) ! j" if "j < 8 * q"
      using that wire_split[of "8 * q" "8 * q + k" tms tdi s0 h0] by (simp add: samples_run nth_append)
    show "get_bit (B (8 * q + k)) j = (if 8 * q \<le> j \<and> j < 8 * q + length (map (get_bit c) [0..<8 * n])
        then map (get_bit c) [0..<8 * n] ! (j - 8 * q) else get_bit (B (8 * q)) j)"
    proof (cases "8 * q \<le> j \<and> j < 8 * q + 8 * n")
      case True
      then have "\<not> get_bit Z j" using Z(1)[of j] k(2) by linarith
      moreover have "j - 8 * q < 8 * n" "8 * q + (j - 8 * q) = j" using True by linarith+
      ultimately show ?thesis using True len c(2)[of "j - 8 * q"] by (auto simp: B_def get_tdo_after)
    next
      case False
      then show ?thesis using len k(1) sm by (auto simp: B_def get_tdo_after)
    qed
  qed (use k Z(2) in \<open>auto simp: B_def\<close>)
  finally show ?thesis .
qed

lemma chunk_step:
  assumes inv: "chunk_inv tms tdi tdo t0 s0 h0 Z m0 nz (8 * q) s"
    and mal: "malloc_ok mal" "mal (mem s) n = Some (a, b)"
    and k: "0 < k" "k \<le> 524280" "k \<le> 8 * n" "8 * q + k \<le> 8 * length tms" "8 * q + k \<le> 8 * length tdi" "q + n \<le> nz"
  shows "\<exists>s1 c m. scan (drop q tms) (drop q tdi) a (int k) (put ((mem s)(a \<mapsto> replicate n 0)) s) = Ret (0, s1) \<and>
    mem s1 a = Some c \<and> mem_copy tdo q (take n c) (mem s1) = Ret m \<and>
    chunk_inv tms tdi tdo t0 s0 h0 Z m0 nz (8 * q + k) (put (m(a := None)) s1)"
proof -
  define B where "B = (\<lambda>p. tdo_after tms s0 (samples clk t0 (wire tms tdi s0 h0 p)) Z)"
  have I: "at_bit tms tdi t0 s0 h0 (8 * q) s" "mem s = m0(tdo \<mapsto> B (8 * q))" "\<And>j. j < 8 * nz \<Longrightarrow> \<not> get_bit Z j" "nz \<le> length Z"
    using inv by (auto simp: chunk_inv_def B_def)
  have a: "a \<noteq> tdo" "m0 a = None" 
  proof -
    have "mem s a = None" using mal by (simp add: malloc_ok_def)
    then show "a \<noteq> tdo" "m0 a = None" unfolding I(2) by (auto split: if_splits)
  qed
  define s1' where "s1' = put ((mem s)(a \<mapsto> replicate n 0)) s"
  have s1': "at_bit tms tdi t0 s0 h0 (8 * q) s1'" "mem s1' a = Some (replicate n 0)" using I(1) by (simp_all add: s1'_def put_laws)
  obtain s1 c where s1: "scan (drop q tms) (drop q tdi) a (int k) s1' = Ret (0, s1)" "at_bit tms tdi t0 s0 h0 (8 * q + k) s1"
    "mem s1 = (mem s1')(a \<mapsto> c)" "length c = n"
    "\<And>j. j < 8 * n \<Longrightarrow> get_bit c j = (j < k \<and> is_shift (state_at tms s0 (8 * q + j)) \<and>
        samples clk t0 (wire tms tdi s0 h0 (8 * q + k)) ! (8 * q + j))"
    using at_bit_scan[OF s1' k(1-5)] by blast
  define D where "D = take q (B (8 * q)) @ c @ drop (q + n) (B (8 * q))"
  have copy: "mem_copy tdo q (take n c) (mem s1) = Ret ((mem s1)(tdo \<mapsto> D))"
    using s1(3,4) a I(2,4) k(6) by (simp add: mem_copy_def s1'_def put_laws D_def B_def)
  have D: "D = B (8 * q + k)"
    unfolding D_def B_def by (rule splice_chunk[OF s1(4,5) I(3,4) k(3,6)])
  have "chunk_inv tms tdi tdo t0 s0 h0 Z m0 nz (8 * q + k) (put (((mem s1)(tdo \<mapsto> D))(a := None)) s1)"
    using s1(2,3) I(2,3,4) a by (auto simp: chunk_inv_def put_laws s1'_def D B_def fun_eq_iff)
  with s1(1,3) copy show ?thesis by (simp add: s1'_def)
qed

lemma chunks_ok:
  assumes inv: "chunk_inv tms tdi tdo t0 s0 h0 Z m0 ((bits + 7) div 8) p s"
    and mal: "malloc_ok mal" "malloc_succeeds mal" and fin: "finite (dom m0)"
    and len: "bits \<le> 8 * length tms" "bits \<le> 8 * length tdi" and cb: "0 < cb" "8 * cb \<le> 524280"
    and p: "p mod 8 = 0 \<or> p = bits" "p \<le> bits"
  shows "\<exists>s'. scan_chunks mal scan mem put tms tdi tdo bits (8 * cb) p s = Ret (0, s') \<and>
    chunk_inv tms tdi tdo t0 s0 h0 Z m0 ((bits + 7) div 8) bits s'"
  using inv p
proof (induction "bits - p" arbitrary: p s rule: less_induct)
  case less
  show ?case
  proof (cases "p < bits")
    case False
    then show ?thesis using less.prems by (subst scan_chunks.simps) auto
  next
    case True
    then obtain q where q: "p = 8 * q" using less.prems(2) by auto
    define k where "k = (if p + 8 * cb > bits then bits - p else 8 * cb)"
    define n where "n = (k + 7) div 8"
    have k: "0 < k" "k \<le> 524280" "k \<le> 8 * n" "8 * q + k \<le> 8 * length tms" "8 * q + k \<le> 8 * length tdi"
      using True cb len q by (auto simp: k_def n_def)
    have kn: "q + n \<le> (bits + 7) div 8"
    proof -
      have "p + k \<le> bits" using True by (auto simp: k_def)
      then have "8 * q + (k + 7) \<le> bits + 7" using q by linarith
      then show ?thesis unfolding n_def by linarith
    qed
    have nx: "p + k \<le> bits" "(p + k) mod 8 = 0 \<or> p + k = bits" using True q by (auto simp: k_def)
    have "finite (dom (mem s))" using less.prems(1) fin by (simp add: chunk_inv_def)
    then obtain a b where ab: "mal (mem s) n = Some (a, b)" using mal(2) by (force simp: malloc_succeeds_def)
    obtain s1 c m where st: "scan (drop q tms) (drop q tdi) a (int k) (put ((mem s)(a \<mapsto> replicate n 0)) s) = Ret (0, s1)"
      "mem s1 a = Some c" "mem_copy tdo q (take n c) (mem s1) = Ret m"
      "chunk_inv tms tdi tdo t0 s0 h0 Z m0 ((bits + 7) div 8) (p + k) (put (m(a := None)) s1)"
      using chunk_step[OF less.prems(1)[unfolded q] mal(1) ab k kn] q by blast
    have "bits - (p + k) < bits - p" using k(1) True by linarith
    from less.hyps[OF this st(4) nx(2,1)] obtain s' where
      rest: "scan_chunks mal scan mem put tms tdi tdo bits (8 * cb) (p + k) (put (m(a := None)) s1) = Ret (0, s')"
      "chunk_inv tms tdi tdo t0 s0 h0 Z m0 ((bits + 7) div 8) bits s'" by blast
    have "p < bits \<and> 0 < 8 * cb" "p div 8 = q" using True cb(1) q by simp_all
    then have "scan_chunks mal scan mem put tms tdi tdo bits (8 * cb) p s = Ret (0, s')"
      by (subst scan_chunks.simps) (simp only: if_True Let_def k_def [symmetric] n_def [symmetric] ab st(1,2,3) rest(1)
          option.case prod.case bind_out.simps less_irrefl if_False simp_thms)
    with rest(2) show ?thesis by blast
  qed
qed

end

section \<open>The MPSSE adapter is a scan port\<close>

definition mpsse_ready :: "'t clocked \<Rightarrow> ('d \<Rightarrow> 't chip) \<Rightarrow> 'd ft_driver \<Rightarrow> 'd mpsse_io \<Rightarrow> bool" where
  "mpsse_ready clk chip_of drv io \<longleftrightarrow> ideal_driver clk chip_of drv \<and> adapter_ready chip_of io"

interpretation mport: scan_port clk "mpsse_adapter_scan drv" "mpsse_ready clk chip_of drv"
  "\<lambda>io. target (chip_of (mdev io))" "\<lambda>io. tap_state (mctx io)" "\<lambda>io. last_tdi (mctx io)" mmem "\<lambda>m io. io\<lparr>mmem := m\<rparr>"
  for clk :: "'t clocked" and chip_of :: "'d \<Rightarrow> 't chip" and drv :: "'d ft_driver"
proof unfold_locales
  fix io :: "'d mpsse_io" and tdo bits and buf tms tdi :: "u8 list"
  assume r: "mpsse_ready clk chip_of drv io" and a: "mmem io tdo = Some buf" "0 < bits" "bits \<le> 524280"
    "bits \<le> 8 * length tms" "bits \<le> 8 * length tdi" "bits \<le> 8 * length buf"
  from r have "adapter_ready chip_of io" "ideal_driver clk chip_of drv" by (auto simp: mpsse_ready_def)
  from mpsse_scan_ok[OF this a]
  show "\<exists>io'. mpsse_adapter_scan drv tms tdi tdo (int bits) io = Ret (0, io') \<and> mpsse_ready clk chip_of drv io' \<and>
        target (chip_of (mdev io')) = run_target clk (wire tms tdi (tap_state (mctx io)) (last_tdi (mctx io)) bits) (target (chip_of (mdev io))) \<and>
        mmem io' = (mmem io)(tdo \<mapsto> tdo_after tms (tap_state (mctx io))
          (samples clk (target (chip_of (mdev io))) (wire tms tdi (tap_state (mctx io)) (last_tdi (mctx io)) bits)) buf) \<and>
        tap_state (mctx io') = state_at tms (tap_state (mctx io)) bits \<and>
        last_tdi (mctx io') = tdi_at tms tdi (tap_state (mctx io)) (last_tdi (mctx io)) bits"
    using \<open>ideal_driver clk chip_of drv\<close> by (auto simp: mpsse_ready_def target_clocks)
qed (simp_all add: mpsse_ready_def adapter_ready_def)

end
