(* ===== verification/Ftdi_Adapter.thy ===== *)
theory Ftdi_Adapter
  imports Scan_Port
begin

text \<open>
  \<^verbatim>\<open>src/ftdi_adapter.c\<close>: the adapter the protocol layer calls, a wrapper around the MPSSE
  context with its own open flag, TCK periods in nanoseconds and the chunked scan. Null context
  pointers are not modelled; \<open>has_mpsse\<close> is whether the inner pointer is not NULL.
\<close>

record ftdi_context =
  has_mpsse :: bool
  ftdi_is_open :: bool
  ftdi_verbose :: int
  ftdi_err :: string

record 'd ftdi_io =
  fctx :: ftdi_context
  mio :: "'d mpsse_io"

definition block_of :: "allocator \<Rightarrow> memory \<Rightarrow> nat \<Rightarrow> u8 list option" where
  "block_of mal m n = map_option snd (mal m n)"

text \<open>Lifting an operation on the MPSSE context.\<close>

definition on_mpsse :: "('d mpsse_io \<Rightarrow> (int \<times> 'd mpsse_io) outcome) \<Rightarrow> 'd ftdi_io \<Rightarrow> (int \<times> 'd ftdi_io) outcome" where
  "on_mpsse f s = bind_out (f (mio s)) (\<lambda>(code, io). Ret (code, s\<lparr>mio := io\<rparr>))"

lemma on_mpsse_Ret [simp]: "f (mio s) = Ret (code, io) \<Longrightarrow> on_mpsse f s = Ret (code, s\<lparr>mio := io\<rparr>)"
  by (simp add: on_mpsse_def)

section \<open>Life cycle\<close>

text \<open>\<open>calloc_ok\<close>: whether the context itself could be allocated.\<close>

definition ftdi_adapter_create :: "allocator \<Rightarrow> bool \<Rightarrow> 'd \<Rightarrow> memory \<Rightarrow> 'd ftdi_io option" where
  "ftdi_adapter_create mal calloc_ok d m =
     (if \<not> calloc_ok then None
      else case mpsse_adapter_create (block_of mal m) of
             None \<Rightarrow> None
           | Some c \<Rightarrow> Some \<lparr>fctx = \<lparr>has_mpsse = True, ftdi_is_open = False, ftdi_verbose = 0, ftdi_err = []\<rparr>,
                              mio = \<lparr>mctx = c, mdev = d, mmem = m\<rparr>\<rparr>)"

datatype adapter_mode_t = ADAPTER_MODE_MPSSE | ADAPTER_MODE_BITBANG

definition ftdi_adapter_get_mode :: "ftdi_context \<Rightarrow> adapter_mode_t" where
  "ftdi_adapter_get_mode c = ADAPTER_MODE_MPSSE"

definition ftdi_adapter_open_with_mode ::
  "allocator \<Rightarrow> 'd ft_driver \<Rightarrow> string option \<Rightarrow> int \<Rightarrow> adapter_mode_t \<Rightarrow> 'd ftdi_io \<Rightarrow> (int \<times> 'd ftdi_io) outcome" where
  "ftdi_adapter_open_with_mode mal drv serial index mode s =
     (if \<not> has_mpsse (fctx s) then Ret (-1, s\<lparr>fctx := (fctx s)\<lparr>ftdi_err := ''MPSSE context not created''\<rparr>\<rparr>)
      else bind_out (mpsse_adapter_open (block_of mal (mmem (mio s))) drv serial index (mio s)) (\<lambda>(code, io).
        if code \<noteq> 0 then Ret (-1, s\<lparr>fctx := (fctx s)\<lparr>ftdi_err := mpsse_adapter_error (mctx io)\<rparr>, mio := io\<rparr>)
        else Ret (0, s\<lparr>fctx := (fctx s)\<lparr>ftdi_is_open := True\<rparr>, mio := io\<rparr>)))"

definition ftdi_adapter_open ::
  "allocator \<Rightarrow> 'd ft_driver \<Rightarrow> string option \<Rightarrow> int \<Rightarrow> 'd ftdi_io \<Rightarrow> (int \<times> 'd ftdi_io) outcome" where
  "ftdi_adapter_open mal drv serial index s = ftdi_adapter_open_with_mode mal drv serial index ADAPTER_MODE_MPSSE s"

definition ftdi_adapter_open_bus :: "int \<Rightarrow> int \<Rightarrow> int \<Rightarrow> 'd ftdi_io \<Rightarrow> int \<times> 'd ftdi_io" where
  "ftdi_adapter_open_bus bus device interface s =
     (-1, s\<lparr>fctx := (fctx s)\<lparr>ftdi_err := ''Bus-based opening not yet implemented''\<rparr>\<rparr>)"

definition ftdi_adapter_close :: "'d ft_driver \<Rightarrow> 'd ftdi_io \<Rightarrow> 'd ftdi_io outcome" where
  "ftdi_adapter_close drv s =
     (if \<not> ftdi_is_open (fctx s) then Ret s
      else bind_out (if has_mpsse (fctx s) then mpsse_adapter_close drv (mio s) else Ret (mio s)) (\<lambda>io.
        Ret (s\<lparr>fctx := (fctx s)\<lparr>ftdi_is_open := False\<rparr>, mio := io\<rparr>)))"

definition ftdi_adapter_destroy :: "'d ft_driver \<Rightarrow> 'd ftdi_io \<Rightarrow> ('d \<times> memory) outcome" where
  "ftdi_adapter_destroy drv s =
     bind_out (if ftdi_is_open (fctx s) then ftdi_adapter_close drv s else Ret s) (\<lambda>s1.
       if has_mpsse (fctx s1) then mpsse_adapter_destroy drv (mio s1) else Ret (mdev (mio s1), mmem (mio s1)))"

definition ftdi_adapter_is_open :: "ftdi_context \<Rightarrow> bool" where
  "ftdi_adapter_is_open c = ftdi_is_open c"

section \<open>TCK\<close>

definition ftdi_adapter_set_period :: "'d ft_driver \<Rightarrow> u32 \<Rightarrow> 'd ftdi_io \<Rightarrow> (int \<times> 'd ftdi_io) outcome" where
  "ftdi_adapter_set_period drv period_ns s =
     (if \<not> ftdi_is_open (fctx s) then Ret (-1, s)
      else let period = (if period_ns = 0 then 100 else period_ns);
               frequency_hz = of_nat (1000000000 div unat period) :: u32
           in bind_out (on_mpsse (mpsse_adapter_set_frequency drv frequency_hz) s) (\<lambda>(actual_freq, s1).
                if actual_freq < 0 then Ret (-1, s1)
                else if actual_freq = 0 then Undefined
                else Ret (1000000000 div actual_freq, s1)))"

definition ftdi_adapter_set_frequency :: "'d ft_driver \<Rightarrow> u32 \<Rightarrow> 'd ftdi_io \<Rightarrow> (int \<times> 'd ftdi_io) outcome" where
  "ftdi_adapter_set_frequency drv frequency_hz s =
     (if frequency_hz = 0 then Ret (-1, s)
      else bind_out (on_mpsse (mpsse_adapter_set_frequency drv frequency_hz) s) (\<lambda>(actual, s1).
        Ret (if actual > 0 then 0 else -1, s1)))"

section \<open>Scans\<close>

definition ftdi_adapter_scan ::
  "'d ft_driver \<Rightarrow> u8 list \<Rightarrow> u8 list \<Rightarrow> nat \<Rightarrow> int \<Rightarrow> 'd ftdi_io \<Rightarrow> (int \<times> 'd ftdi_io) outcome" where
  "ftdi_adapter_scan drv tms tdi tdo bits s =
     (if \<not> ftdi_is_open (fctx s) then Ret (-1, s) else on_mpsse (mpsse_adapter_scan drv tms tdi tdo bits) s)"

definition FTDI_MAX_WRITESIZE :: int where "FTDI_MAX_WRITESIZE = 4096"

definition put_mem :: "memory \<Rightarrow> 'd ftdi_io \<Rightarrow> 'd ftdi_io" where
  "put_mem m s = s\<lparr>mio := (mio s)\<lparr>mmem := m\<rparr>\<rparr>"

text \<open>\<open>(bits + 7) / 8\<close> overflows for the last seven positive values of \<open>int\<close>.\<close>

definition ftdi_adapter_scan_chunked ::
  "allocator \<Rightarrow> 'd ft_driver \<Rightarrow> u8 list \<Rightarrow> u8 list \<Rightarrow> nat \<Rightarrow> int \<Rightarrow> int \<Rightarrow> 'd ftdi_io \<Rightarrow> (int \<times> 'd ftdi_io) outcome" where
  "ftdi_adapter_scan_chunked mal drv tms tdi tdo bits chunk_bytes0 s =
     (if \<not> ftdi_is_open (fctx s) \<or> bits \<le> 0 then Ret (-1, s)
      else if bits + 7 \<ge> 2 ^ 31 then Undefined
      else
        let chunk_bytes = (if chunk_bytes0 \<le> 0 then FTDI_MAX_WRITESIZE else chunk_bytes0);
            total_bytes = (bits + 7) div 8
        in if total_bytes \<le> chunk_bytes then ftdi_adapter_scan drv tms tdi tdo bits s
           else bind_out (mem_copy tdo 0 (replicate (nat total_bytes) 0) (mmem (mio s))) (\<lambda>m.
                  scan_chunks mal (ftdi_adapter_scan drv) (\<lambda>s. mmem (mio s)) put_mem tms tdi tdo
                    (nat bits) (8 * nat chunk_bytes) 0 (put_mem m s)))"

definition ftdi_adapter_error :: "ftdi_context \<Rightarrow> string" where
  "ftdi_adapter_error c = (if ftdi_err c \<noteq> [] then ftdi_err c else ''No error'')"

definition ftdi_adapter_set_verbose :: "int \<Rightarrow> 'd ftdi_io \<Rightarrow> 'd ftdi_io" where
  "ftdi_adapter_set_verbose level s =
     (let s1 = s\<lparr>fctx := (fctx s)\<lparr>ftdi_verbose := level\<rparr>\<rparr>
      in if has_mpsse (fctx s) then s1\<lparr>mio := (mio s1)\<lparr>mctx := mpsse_adapter_set_verbose (mctx (mio s1)) level\<rparr>\<rparr> else s1)"

definition ftdi_adapter_set_latency :: "int \<Rightarrow> 'd ftdi_io \<Rightarrow> int" where
  "ftdi_adapter_set_latency latency_ms s = 0"

section \<open>The adapter is a scan port\<close>

definition ftdi_ready :: "'t clocked \<Rightarrow> ('d \<Rightarrow> 't chip) \<Rightarrow> 'd ft_driver \<Rightarrow> 'd ftdi_io \<Rightarrow> bool" where
  "ftdi_ready clk chip_of drv s \<longleftrightarrow> ftdi_is_open (fctx s) \<and> has_mpsse (fctx s) \<and> mpsse_ready clk chip_of drv (mio s)"

interpretation fport: scan_port clk "ftdi_adapter_scan drv" "ftdi_ready clk chip_of drv"
  "\<lambda>s. target (chip_of (mdev (mio s)))" "\<lambda>s. tap_state (mctx (mio s))" "\<lambda>s. last_tdi (mctx (mio s))"
  "\<lambda>s. mmem (mio s)" put_mem
  for clk :: "'t clocked" and chip_of :: "'d \<Rightarrow> 't chip" and drv :: "'d ft_driver"
proof unfold_locales
  fix s :: "'d ftdi_io" and tdo bits and buf tms tdi :: "u8 list"
  assume r: "ftdi_ready clk chip_of drv s" and a: "mmem (mio s) tdo = Some buf" "0 < bits" "bits \<le> 524280"
    "bits \<le> 8 * length tms" "bits \<le> 8 * length tdi" "bits \<le> 8 * length buf"
  from r have "mpsse_ready clk chip_of drv (mio s)" by (simp add: ftdi_ready_def)
  from mport.scan_law[OF this a] r
  show "\<exists>s'. ftdi_adapter_scan drv tms tdi tdo (int bits) s = Ret (0, s') \<and> ftdi_ready clk chip_of drv s' \<and>
        target (chip_of (mdev (mio s'))) =
          run_target clk (wire tms tdi (tap_state (mctx (mio s))) (last_tdi (mctx (mio s))) bits) (target (chip_of (mdev (mio s)))) \<and>
        mmem (mio s') = (mmem (mio s))(tdo \<mapsto> tdo_after tms (tap_state (mctx (mio s)))
          (samples clk (target (chip_of (mdev (mio s)))) (wire tms tdi (tap_state (mctx (mio s))) (last_tdi (mctx (mio s))) bits)) buf) \<and>
        tap_state (mctx (mio s')) = state_at tms (tap_state (mctx (mio s))) bits \<and>
        last_tdi (mctx (mio s')) = tdi_at tms tdi (tap_state (mctx (mio s))) (last_tdi (mctx (mio s))) bits"
    by (auto simp: ftdi_adapter_scan_def ftdi_ready_def)
qed (simp_all add: put_mem_def ftdi_ready_def mport.put_laws)

section \<open>Properties\<close>

lemma divisor_clocks: "divisor (chip_clocks clk cs C) = divisor C"
  by (induction cs arbitrary: C) (auto simp: chip_clocks_def chip_clock_def split: prod.splits)

lemma scan_keeps_rate:
  assumes "ftdi_ready clk chip_of drv s" "mmem (mio s) tdo = Some buf" "0 < bits" "bits \<le> 524280"
    "bits \<le> 8 * length tms" "bits \<le> 8 * length tdi" "bits \<le> 8 * length buf"
    and "ftdi_adapter_scan drv tms tdi tdo (int bits) s = Ret (0, s')"
  shows "divisor (chip_of (mdev (mio s'))) = divisor (chip_of (mdev (mio s)))"
  using mpsse_scan_ok[of chip_of "mio s" clk drv, OF _ _ assms(2-7)] assms(1,8)
  by (auto simp: ftdi_adapter_scan_def ftdi_ready_def mpsse_ready_def divisor_clocks)

lemma zeroed_block:
  assumes "m tdo = Some buf" "n \<le> length buf"
  shows "mem_copy tdo 0 (replicate n 0) m = Ret (m(tdo \<mapsto> replicate n 0 @ drop n buf))"
    and "\<forall>j < 8 * n. \<not> get_bit (replicate n 0 @ drop n buf) j"
  using assms div8_less[of _ n] by (auto simp: mem_copy_def get_bit_eq nth_append)


lemma set_period_ok:
  fixes period :: u32
  assumes ready: "ftdi_ready clk chip_of drv s"
    and f: "f = 1000000000 div unat (if period = 0 then 100 else period)"
  shows "\<exists>s'. ftdi_adapter_set_period drv period s = Ret (1000000000 div int (tck_actual (tck_divisor f)), s') \<and>
    33 \<le> 1000000000 div int (tck_actual (tck_divisor f)) \<and> 1000000000 div int (tck_actual (tck_divisor f)) \<le> 2188183 \<and>
    chip_of (mdev (mio s')) = (chip_of (mdev (mio s)))\<lparr>divisor := tck_divisor f\<rparr> \<and> ftdi_ready clk chip_of drv s' \<and>
    mmem (mio s') = mmem (mio s) \<and> tap_state (mctx (mio s')) = tap_state (mctx (mio s)) \<and> last_tdi (mctx (mio s')) = last_tdi (mctx (mio s))"
proof -
  define a where "a = 30000000 div (tck_divisor f + 1)"
  have a: "tck_actual (tck_divisor f) = a"
    using div_mult2_eq[of 60000000 2 "tck_divisor f + 1"] by (simp add: tck_actual_def a_def mult.commute)
  have "457 \<le> a" "a \<le> 30000000"
  proof -
    have "30000000 div 65536 \<le> a" unfolding a_def using tck_divisor_le[of f] by (intro div_le_mono2) auto
    then show "457 \<le> a" by simp
    show "a \<le> 30000000" unfolding a_def by (rule div_le_dividend)
  qed
  have "1000000000 div 30000000 \<le> 1000000000 div int a" "1000000000 div int a \<le> 1000000000 div 457"
    by (rule zdiv_mono2; use \<open>457 \<le> a\<close> \<open>a \<le> 30000000\<close> in linarith)+
  then have bounds: "33 \<le> 1000000000 div int a" "1000000000 div int a \<le> 2188183" by simp_all
  have f32: "unat (of_nat f :: u32) = f"
  proof -
    have "f \<le> 1000000000" unfolding f by (rule div_le_dividend)
    then show ?thesis by (intro u32_small(1)) simp
  qed
  obtain io' where "mpsse_adapter_set_frequency drv (of_nat f) (mio s) = Ret (int a, io')"
    "chip_of (mdev io') = (chip_of (mdev (mio s)))\<lparr>divisor := tck_divisor f\<rparr>" "adapter_ready chip_of io'"
    "mmem io' = mmem (mio s)" "tap_state (mctx io') = tap_state (mctx (mio s))" "last_tdi (mctx io') = last_tdi (mctx (mio s))"
    using set_frequency_ok[of chip_of "mio s" clk drv "of_nat f"] ready f32
    by (auto simp: ftdi_ready_def mpsse_ready_def a_def)
  then show ?thesis using ready bounds \<open>457 \<le> a\<close> unfolding a
    by (auto simp: ftdi_adapter_set_period_def ftdi_ready_def mpsse_ready_def Let_def f [symmetric])
qed

text \<open>
  C26. Setting a period on a ready adapter always succeeds and programs a 16-bit divisor \<open>d\<close>, which
  makes the chip clock at 30 MHz divided by \<open>d + 1\<close>. That rate is the slowest one not below the frequency
  of the period (a period of 0 means 100 ns), as far as the divisor reaches; above 30 MHz it is 30 MHz.
  Nothing else of the chip changes, and the call returns the period of the rate set, between 33 ns
  (30 MHz) and 2188183 ns (457 Hz).
\<close>

theorem set_period_actual:
  fixes period :: u32
  assumes ready: "ftdi_ready clk chip_of drv s"
  defines "f \<equiv> 1000000000 div unat (if period = 0 then 100 else period)"
  shows "\<exists>s' d a. ftdi_adapter_set_period drv period s = Ret (a, s') \<and> a = 1000000000 div (30000000 div (int d + 1)) \<and>
    33 \<le> a \<and> a \<le> 2188183 \<and> d \<le> 65535 \<and>
    (if f \<le> 30000000 then (d + 1) * f \<le> 30000000 \<and> (d = 65535 \<or> 30000000 < (d + 2) * f) else d = 0) \<and>
    chip_of (mdev (mio s')) = (chip_of (mdev (mio s)))\<lparr>divisor := d\<rparr> \<and> ftdi_ready clk chip_of drv s' \<and>
    mmem (mio s') = mmem (mio s) \<and> tap_state (mctx (mio s')) = tap_state (mctx (mio s)) \<and> last_tdi (mctx (mio s')) = last_tdi (mctx (mio s))"
proof -
  have a: "int (tck_actual (tck_divisor f)) = 30000000 div (int (tck_divisor f) + 1)"
    using div_mult2_eq[of 60000000 2 "tck_divisor f + 1"] by (simp add: tck_actual_def mult.commute zdiv_int add.commute)
  have "tck_divisor f = 0" if "\<not> f \<le> 30000000" using that by (simp add: tck_divisor_def Let_def MPSSE_MAX_FREQUENCY_def)
  then show ?thesis
    using set_period_ok[OF ready f_def[THEN meta_eq_to_obj_eq]] tck_divisor_le[of f] tck_divisor_spec[of f] unfolding a
    by (auto intro!: exI[of _ "tck_divisor f"])
qed

lemma ftdi_open_ok:
  assumes drv: "ideal_driver clk chip_of drv" "clean_open chip_of drv"
    and s: "ftdi_adapter_create cmal ok d m = Some s"
  shows "\<exists>code s'. ftdi_adapter_open mal drv serial index s = Ret (code, s') \<and> mmem (mio s') = m \<and>
    (code = 0 \<and> ftdi_ready clk chip_of drv s' \<and> tap_state (mctx (mio s')) = TEST_LOGIC_RESET \<and> \<not> last_tdi (mctx (mio s')) \<and>
       divisor (chip_of (mdev (mio s'))) = 29 \<or>
     code = -1 \<and> \<not> ftdi_is_open (fctx s') \<and> \<not> mpsse_is_open (mctx (mio s')) \<and> ftdi_err (fctx s') \<noteq> [] \<and>
       \<not> (device_present drv \<and> mal m 196608 \<noteq> None \<and> mal m 131072 \<noteq> None))"
proof -
  obtain c where c: "mpsse_adapter_create (block_of cmal m) = Some c"
    and s: "s = \<lparr>fctx = \<lparr>has_mpsse = True, ftdi_is_open = False, ftdi_verbose = 0, ftdi_err = []\<rparr>, mio = \<lparr>mctx = c, mdev = d, mmem = m\<rparr>\<rparr>"
    using s by (auto simp: ftdi_adapter_create_def split: if_splits option.splits)
  obtain code io' where o: "mpsse_adapter_open (block_of mal m) drv serial index \<lparr>mctx = c, mdev = d, mmem = m\<rparr> = Ret (code, io')"
    "mmem io' = m" "code = 0 \<and> adapter_ready chip_of io' \<and> tap_state (mctx io') = TEST_LOGIC_RESET \<and> \<not> last_tdi (mctx io') \<and> divisor (chip_of (mdev io')) = 29 \<or>
      code = -1 \<and> \<not> mpsse_is_open (mctx io') \<and> \<not> (device_present drv \<and> mal m 196608 \<noteq> None \<and> mal m 131072 \<noteq> None)"
    using mpsse_open_ok[OF drv c, of "\<lparr>mctx = c, mdev = d, mmem = m\<rparr>" "block_of mal m" serial index] by (auto simp: block_of_def)
  then show ?thesis using drv(1)
    by (auto simp: ftdi_adapter_open_def ftdi_adapter_open_with_mode_def s ftdi_ready_def mpsse_ready_def mpsse_adapter_error_def)
qed

text \<open>
  C24. Opening a freshly created adapter, on any driver, whichever of its calls or of the allocations
  fail: if \<open>open\<close> returns 0 the process holds one more handle and the adapter is open; otherwise it
  returns -1, the process holds as many handles as before, and both layers are closed with a
  non-empty error text. In either case destroying the adapter leaves as many handles as there were.
\<close>

theorem ftdi_open_releases:
  assumes k: "counts_handles drv opened" and s: "ftdi_adapter_create cmal ok d m = Some s"
    and o: "ftdi_adapter_open mal drv serial index s = Ret (code, s')"
  shows "(if code = 0 then opened (mdev (mio s')) = opened d + 1 \<and> ftdi_is_open (fctx s') \<and> mpsse_is_open (mctx (mio s'))
     else code = -1 \<and> opened (mdev (mio s')) = opened d \<and> \<not> ftdi_is_open (fctx s') \<and> \<not> mpsse_is_open (mctx (mio s')) \<and>
       \<not> ft_handle (mctx (mio s')) \<and> ftdi_err (fctx s') \<noteq> []) \<and>
    (\<forall>d' m'. ftdi_adapter_destroy drv s' = Ret (d', m') \<longrightarrow> opened d' = opened d)"
proof -
  obtain c where c0: "mpsse_adapter_create (block_of cmal m) = Some c"
    and s: "s = \<lparr>fctx = \<lparr>has_mpsse = True, ftdi_is_open = False, ftdi_verbose = 0, ftdi_err = []\<rparr>, mio = \<lparr>mctx = c, mdev = d, mmem = m\<rparr>\<rparr>"
    using s by (auto simp: ftdi_adapter_create_def split: if_splits option.splits)
  have c: "tx_buffer c = []" "rx_num_bytes c = 0" "\<not> ft_handle c" "\<not> mpsse_is_open c"
    using c0 by (auto simp: mpsse_adapter_create_def split: if_splits)
  obtain code1 io where o1: "mpsse_adapter_open (block_of mal m) drv serial index \<lparr>mctx = c, mdev = d, mmem = m\<rparr> = Ret (code1, io)"
    using o by (auto simp: ftdi_adapter_open_def ftdi_adapter_open_with_mode_def s bind_out_Ret_iff)
  have s': "(code, s') = (if code1 \<noteq> 0 then (-1, s\<lparr>fctx := (fctx s)\<lparr>ftdi_err := mpsse_adapter_error (mctx io)\<rparr>, mio := io\<rparr>)
      else (0, s\<lparr>fctx := (fctx s)\<lparr>ftdi_is_open := True\<rparr>, mio := io\<rparr>))"
    using o o1 by (simp add: ftdi_adapter_open_def ftdi_adapter_open_with_mode_def s split: if_splits)
  have h: "if code1 = 0 then opened (mdev io) = opened d + 1 \<and> ft_handle (mctx io) \<and> mpsse_is_open (mctx io) \<and>
      tx_buffer (mctx io) = [] \<and> rx_num_bytes (mctx io) = 0
    else code1 = -1 \<and> opened (mdev io) = opened d \<and> \<not> ft_handle (mctx io) \<and> \<not> mpsse_is_open (mctx io)"
    using mpsse_open_handles[OF k _ _ o1] c by (simp split: if_splits)
  show ?thesis
  proof (cases "code1 = 0")
    case False
    then show ?thesis using h s' s
      by (auto simp: ftdi_adapter_destroy_def mpsse_adapter_destroy_def mpsse_adapter_error_def bind_out_Ret_iff)
  next
    case True
    with h have "mpsse_buffer_flush drv io = Ret (0, io)" by (simp add: mpsse_buffer_flush_def flush_write_def flush_read_def Let_def)
    then show ?thesis using h s' s True
      by (auto simp: ftdi_adapter_destroy_def ftdi_adapter_close_def mpsse_adapter_close_def mpsse_adapter_destroy_def close_handle_def
          Let_def counts_handlesD(3,6)[OF k])
  qed
qed

end
