(* ===== verification/Xvc_Protocol.thy ===== *)
theory Xvc_Protocol
  imports Ftdi_Adapter
begin

text \<open>
  The XVC protocol handler, \<^verbatim>\<open>src/xvc_protocol.c\<close>: exact reads and writes on the socket,
  little-endian integers, buffer set-up and the command loop with \<open>getinfo:\<close>, \<open>settck:\<close> and
  \<open>shift:\<close>. The socket is a parameter (\<open>'n net\<close>). \<open>vector_buf\<close> holds its contents (\<open>None\<close> is
  NULL); \<open>result_buf\<close> is the address of a heap block, because the adapter writes to it. Log
  output, profiling and the \<open>TCP_QUICKACK\<close> option are left out.
\<close>

section \<open>Sockets\<close>

text \<open>
  The sockets are blocking and have no timeout. A read delivers bytes, the end of the stream or an
  error, or it does not return: the client keeps the connection open and sends nothing, and a signal
  only restarts the call (\<open>SA_RESTART\<close>). A write returns how much it took, or a value that is not
  positive; it does not return as long as the client reads nothing; on a connection the client has
  closed it raises \<open>SIGPIPE\<close>, which the program leaves at its default and which ends the process.
\<close>

datatype sock_read = Got "u8 list" | Closed | Read_Error | Read_Blocked
datatype sock_write = Wrote int | Sigpipe | Write_Blocked

record 'n net =
  net_read :: "'n \<Rightarrow> int \<Rightarrow> nat \<Rightarrow> sock_read \<times> 'n"
  net_write :: "'n \<Rightarrow> int \<Rightarrow> u8 list \<Rightarrow> sock_write \<times> 'n"

text \<open>
  \<open>acc\<close> is what has been stored so far; the result is the return value, the bytes stored and
  the network. More bytes than asked for would overrun the buffer.
\<close>

function xvc_read_exact :: "'n net \<Rightarrow> int \<Rightarrow> int \<Rightarrow> u8 list \<Rightarrow> 'n \<Rightarrow> (int \<times> u8 list \<times> 'n) outcome" where
  "xvc_read_exact net fd len acc n =
     (if len > 0 then
        (case net_read net n fd (nat len) of
           (Got data, n1) \<Rightarrow>
             if data = [] then Ret (0, acc, n1)
             else if int (length data) > len then Undefined
             else xvc_read_exact net fd (len - int (length data)) (acc @ data) n1
         | (Closed, n1) \<Rightarrow> Ret (0, acc, n1)
         | (Read_Error, n1) \<Rightarrow> Ret (-1, acc, n1)
         | (Read_Blocked, n1) \<Rightarrow> Diverges)
      else Ret (1, acc, n))"
  by pat_completeness auto
termination
  by (relation "measure (\<lambda>(net, fd, len, acc, n). nat len)") auto

declare xvc_read_exact.simps [simp del]

function xvc_write_exact :: "'n net \<Rightarrow> int \<Rightarrow> u8 list \<Rightarrow> 'n \<Rightarrow> (int \<times> 'n) outcome" where
  "xvc_write_exact net fd p n =
     (if length p > 0 then
        (case net_write net n fd p of
           (Wrote w, n1) \<Rightarrow> if w \<le> 0 then Ret (-1, n1) else xvc_write_exact net fd (drop (nat w) p) n1
         | (Sigpipe, n1) \<Rightarrow> Killed
         | (Write_Blocked, n1) \<Rightarrow> Diverges)
      else Ret (0, n))"
  by pat_completeness auto
termination
  by (relation "measure (\<lambda>(net, fd, p, n). length p)") auto

declare xvc_write_exact.simps [simp del]

section \<open>Integers on the wire\<close>

definition xvc_get_int32 :: "u8 list \<Rightarrow> i32" where
  "xvc_get_int32 data =
     ucast (data ! 0) OR push_bit 8 (ucast (data ! 1)) OR push_bit 16 (ucast (data ! 2)) OR push_bit 24 (ucast (data ! 3))"

definition xvc_put_int32 :: "i32 \<Rightarrow> u8 list" where
  "xvc_put_int32 v =
     [ucast (v AND 0xFF), ucast (drop_bit 8 v AND 0xFF), ucast (drop_bit 16 v AND 0xFF), ucast (drop_bit 24 v AND 0xFF)]"

section \<open>Context\<close>

definition XVC_DEFAULT_MAX_VECTOR_SIZE :: int where "XVC_DEFAULT_MAX_VECTOR_SIZE = 2048"
definition XVC_MAX_VECTOR_SIZE_LIMIT :: int where "XVC_MAX_VECTOR_SIZE_LIMIT = 262144"

record xvc_context =
  socket_fd :: int
  jtag_st :: jtag_state_t
  seen_tlr :: bool
  xvc_frequency :: u32
  max_vector_size :: int
  cmd_buf :: "u8 list"
  vector_buf :: "u8 list option"
  result_buf :: "nat option"
  bytes_rx :: u64
  bytes_tx :: u64
  xvc_commands :: u64

record ('n, 'd) xvc_io =
  xctx :: xvc_context
  xnet :: 'n
  xftdi :: "'d ftdi_io"

abbreviation xmem :: "('n, 'd) xvc_io \<Rightarrow> memory" where "xmem s \<equiv> mmem (mio (xftdi s))"

definition put_xmem :: "memory \<Rightarrow> ('n, 'd) xvc_io \<Rightarrow> ('n, 'd) xvc_io" where
  "put_xmem m s = s\<lparr>xftdi := put_mem m (xftdi s)\<rparr>"

text \<open>The size a request for \<open>n\<close> bytes gets.\<close>

definition clamp_vector_size :: "int \<Rightarrow> int" where
  "clamp_vector_size n =
     (if n \<le> 0 then XVC_DEFAULT_MAX_VECTOR_SIZE
      else if n > XVC_MAX_VECTOR_SIZE_LIMIT then XVC_MAX_VECTOR_SIZE_LIMIT else n)"

definition xvc_zero :: "int \<Rightarrow> int \<Rightarrow> xvc_context" where
  "xvc_zero fd size0 =
     \<lparr>socket_fd = fd, jtag_st = JTAG_TEST_LOGIC_RESET, seen_tlr = False, xvc_frequency = 0, max_vector_size = size0,
      cmd_buf = replicate 16 0, vector_buf = None, result_buf = None, bytes_rx = 0, bytes_tx = 0, xvc_commands = 0\<rparr>"

text \<open>\<open>memset\<close> forgets the old buffers without freeing them: their blocks stay live.\<close>

definition xvc_init :: "allocator \<Rightarrow> int \<Rightarrow> int \<Rightarrow> ('n, 'd) xvc_io \<Rightarrow> int \<times> ('n, 'd) xvc_io" where
  "xvc_init mal fd max_vector_size0 s =
     (let c = xvc_zero fd (clamp_vector_size max_vector_size0);
          n = nat (clamp_vector_size max_vector_size0)
      in case (mal (xmem s) (n * 2), mal (xmem s) n) of
           (Some (_, vec), Some (res, contents)) \<Rightarrow>
             (0, put_xmem ((xmem s)(res \<mapsto> contents)) (s\<lparr>xctx := c\<lparr>vector_buf := Some vec, result_buf := Some res\<rparr>\<rparr>))
         | _ \<Rightarrow> (-1, s\<lparr>xctx := c\<rparr>))"

definition xvc_free :: "('n, 'd) xvc_io \<Rightarrow> ('n, 'd) xvc_io" where
  "xvc_free s =
     (let s1 = (case result_buf (xctx s) of None \<Rightarrow> s | Some res \<Rightarrow> put_xmem ((xmem s)(res := None)) s)
      in s1\<lparr>xctx := (xctx s1)\<lparr>vector_buf := None, result_buf := None\<rparr>\<rparr>)"

text \<open>\<open>xvc_close\<close> only reports the counters.\<close>

definition xvc_close :: "('n, 'd) xvc_io \<Rightarrow> ('n, 'd) xvc_io" where
  "xvc_close s = s"

section \<open>Commands\<close>

text \<open>A command ends the call with a return value (\<open>Some\<close>) or reaches the loop condition.\<close>

type_synonym ('n, 'd) xvc_result = "(int option \<times> ('n, 'd) xvc_io) outcome"

text \<open>Reading \<open>n\<close> bytes to \<open>cmd_buf + off\<close>; anything short ends the call with 1.\<close>

definition read_cmd ::
  "'n net \<Rightarrow> nat \<Rightarrow> nat \<Rightarrow> ('n, 'd) xvc_io \<Rightarrow> (('n, 'd) xvc_io \<Rightarrow> ('n, 'd) xvc_result) \<Rightarrow> ('n, 'd) xvc_result" where
  "read_cmd net off n s k =
     bind_out (xvc_read_exact net (socket_fd (xctx s)) (int n) [] (xnet s)) (\<lambda>(r, data, n1).
       let buf = cmd_buf (xctx s);
           s1 = s\<lparr>xctx := (xctx s)\<lparr>cmd_buf := take off buf @ data @ drop (off + length data) buf\<rparr>, xnet := n1\<rparr>
       in if r \<noteq> 1 then Ret (Some 1, s1)
          else k (s1\<lparr>xctx := (xctx s1)\<lparr>bytes_rx := bytes_rx (xctx s1) + of_nat n\<rparr>\<rparr>))"

text \<open>Sending a reply and counting it; a failed write ends the call with -1.\<close>

definition send_reply ::
  "'n net \<Rightarrow> u8 list \<Rightarrow> ('n, 'd) xvc_io \<Rightarrow> (('n, 'd) xvc_io \<Rightarrow> ('n, 'd) xvc_result) \<Rightarrow> ('n, 'd) xvc_result" where
  "send_reply net reply s k =
     bind_out (xvc_write_exact net (socket_fd (xctx s)) reply (xnet s)) (\<lambda>(w, n1).
       if w < 0 then Ret (Some (-1), s\<lparr>xnet := n1\<rparr>)
       else k (s\<lparr>xctx := (xctx s)\<lparr>bytes_tx := bytes_tx (xctx s) + of_nat (length reply),
                                  xvc_commands := xvc_commands (xctx s) + 1\<rparr>, xnet := n1\<rparr>))"

definition chars :: "string \<Rightarrow> u8 list" where
  "chars s = map (\<lambda>c. of_nat (of_char c)) s"

definition xvc_info :: "xvc_context \<Rightarrow> u8 list" where
  "xvc_info c = chars (''xvcServer_v1.0:'' @ show_int (max_vector_size c)) @ [10]"

definition handle_getinfo :: "'n net \<Rightarrow> ('n, 'd) xvc_io \<Rightarrow> ('n, 'd) xvc_result" where
  "handle_getinfo net s =
     read_cmd net 2 6 s (\<lambda>s1. send_reply net (xvc_info (xctx s1)) s1 (\<lambda>s2. Ret (Some 0, s2)))"

text \<open>\<open>settck\<close> once the period is known: set it, store the actual one and reply.\<close>

definition settck_apply :: "'n net \<Rightarrow> 'd ft_driver \<Rightarrow> i32 \<Rightarrow> ('n, 'd) xvc_io \<Rightarrow> ('n, 'd) xvc_result" where
  "settck_apply net drv period s1 =
     bind_out (ftdi_adapter_set_period drv period (xftdi s1)) (\<lambda>(actual0, f).
       let s2 = s1\<lparr>xftdi := f\<rparr>; actual = (if actual0 < 0 then period else of_int actual0)
       in case result_buf (xctx s2) of
            None \<Rightarrow> Undefined
          | Some res \<Rightarrow>
              bind_out (mem_copy res 0 (xvc_put_int32 actual) (xmem s2)) (\<lambda>m.
                send_reply net (xvc_put_int32 actual) (put_xmem m s2) (\<lambda>s3. Ret (Some 0, s3))))"

definition handle_settck :: "'n net \<Rightarrow> 'd ft_driver \<Rightarrow> u32 \<Rightarrow> ('n, 'd) xvc_io \<Rightarrow> ('n, 'd) xvc_result" where
  "handle_settck net drv frequency s =
     read_cmd net 2 9 s (\<lambda>s1.
       settck_apply net drv
         (if frequency = 0 then xvc_get_int32 (drop 7 (cmd_buf (xctx s1))) else 1000000000 div frequency) s1)"

text \<open>Reading the vectors, as \<open>read_cmd\<close> but to \<open>vector_buf\<close>.\<close>

definition read_vectors ::
  "'n net \<Rightarrow> int \<Rightarrow> ('n, 'd) xvc_io \<Rightarrow> (('n, 'd) xvc_io \<Rightarrow> ('n, 'd) xvc_result) \<Rightarrow> ('n, 'd) xvc_result" where
  "read_vectors net n s k =
     (case vector_buf (xctx s) of
        None \<Rightarrow> Undefined
      | Some vec \<Rightarrow>
          bind_out (xvc_read_exact net (socket_fd (xctx s)) n [] (xnet s)) (\<lambda>(r, data, n1).
            if length data > length vec then Undefined
            else let s1 = s\<lparr>xctx := (xctx s)\<lparr>vector_buf := Some (data @ drop (length data) vec)\<rparr>, xnet := n1\<rparr>
                 in if r \<noteq> 1 then Ret (Some 1, s1)
                    else k (s1\<lparr>xctx := (xctx s1)\<lparr>bytes_rx := bytes_rx (xctx s1) + of_int n\<rparr>\<rparr>)))"

text \<open>The moves Xilinx iMPACT makes that must not reach the chain.\<close>

definition bogus_move :: "jtag_state_t \<Rightarrow> int \<Rightarrow> u8 list \<Rightarrow> bool" where
  "bogus_move st len vec \<longleftrightarrow>
     st = JTAG_EXIT1_IR \<and> len = 5 \<and> vec ! 0 = 0x17 \<or> st = JTAG_EXIT1_DR \<and> len = 4 \<and> vec ! 0 = 0x0b"

definition update_tlr :: "xvc_context \<Rightarrow> xvc_context" where
  "update_tlr c = c\<lparr>seen_tlr := (seen_tlr c \<or> jtag_st c = JTAG_TEST_LOGIC_RESET) \<and>
                               jtag_st c \<noteq> JTAG_CAPTURE_DR \<and> jtag_st c \<noteq> JTAG_CAPTURE_IR\<rparr>"

text \<open>The reply is read back from the result block.\<close>

definition send_result :: "'n net \<Rightarrow> nat \<Rightarrow> nat \<Rightarrow> ('n, 'd) xvc_io \<Rightarrow> ('n, 'd) xvc_result" where
  "send_result net res nr_bytes s =
     (case xmem s res of
        None \<Rightarrow> Undefined
      | Some d \<Rightarrow> if length d < nr_bytes then Undefined
                  else send_reply net (take nr_bytes d) s (\<lambda>s1. Ret (None, s1)))"

text \<open>From the vectors on: clear the result, track the TAP, scan and reply.\<close>

definition shift_vectors :: "'n net \<Rightarrow> 'd ft_driver \<Rightarrow> int \<Rightarrow> int \<Rightarrow> ('n, 'd) xvc_io \<Rightarrow> ('n, 'd) xvc_result" where
  "shift_vectors net drv len nr_bytes s =
     (if nr_bytes < 0 then Undefined
      else case (vector_buf (xctx s), result_buf (xctx s)) of
        (Some vec, Some res) \<Rightarrow>
          bind_out (mem_copy res 0 (replicate (nat nr_bytes) 0) (xmem s)) (\<lambda>m.
            let s1 = put_xmem m (s\<lparr>xctx := update_tlr (xctx s)\<rparr>)
            in if bogus_move (jtag_st (xctx s1)) len vec then send_result net res (nat nr_bytes) s1
               else
                 let s2 = s1\<lparr>xctx := (xctx s1)\<lparr>jtag_st := track_tms vec (nat len) (jtag_st (xctx s1))\<rparr>\<rparr>
                 in bind_out (ftdi_adapter_scan drv vec (drop (nat nr_bytes) vec) res len (xftdi s2)) (\<lambda>(code, f).
                      if code < 0 then Ret (Some (-1), s2\<lparr>xftdi := f\<rparr>)
                      else send_result net res (nat nr_bytes) (s2\<lparr>xftdi := f\<rparr>)))
      | _ \<Rightarrow> Undefined)"

text \<open>From the length field on.\<close>

definition shift_rest :: "'n net \<Rightarrow> 'd ft_driver \<Rightarrow> ('n, 'd) xvc_io \<Rightarrow> ('n, 'd) xvc_result" where
  "shift_rest net drv s =
     read_cmd net 6 4 s (\<lambda>s3.
       let len = sint (xvc_get_int32 (drop 6 (cmd_buf (xctx s3)))); nr_bytes = c_div (len + 7) 8
       in if len + 7 \<ge> 2 ^ 31 then Undefined
          else if nr_bytes > max_vector_size (xctx s3) then Ret (Some (-1), s3)
          else read_vectors net (nr_bytes * 2) s3 (shift_vectors net drv len nr_bytes))"

text \<open>The test for the old format \<open>shifte:\<close> looks at the fifth byte.\<close>

definition handle_shift :: "'n net \<Rightarrow> 'd ft_driver \<Rightarrow> ('n, 'd) xvc_io \<Rightarrow> ('n, 'd) xvc_result" where
  "handle_shift net drv s =
     read_cmd net 2 4 s (\<lambda>s1.
       if cmd_buf (xctx s1) ! 4 = of_char (CHR ''e'') \<or> cmd_buf (xctx s1) ! 4 = of_char (CHR ''E'') then
         bind_out (xvc_read_exact net (socket_fd (xctx s1)) 1 [] (xnet s1)) (\<lambda>(r, colon, n1).
           if r \<noteq> 1 then Ret (Some 1, s1\<lparr>xnet := n1\<rparr>)
           else shift_rest net drv (s1\<lparr>xctx := (xctx s1)\<lparr>bytes_rx := bytes_rx (xctx s1) + 1\<rparr>, xnet := n1\<rparr>))
       else shift_rest net drv s1)"

definition handle_command :: "'n net \<Rightarrow> 'd ft_driver \<Rightarrow> u32 \<Rightarrow> ('n, 'd) xvc_io \<Rightarrow> ('n, 'd) xvc_result" where
  "handle_command net drv frequency s =
     read_cmd net 0 2 s (\<lambda>s1.
       let cmd = take 2 (cmd_buf (xctx s1))
       in if cmd = chars ''ge'' then handle_getinfo net s1
          else if cmd = chars ''se'' then handle_settck net drv frequency s1
          else if cmd = chars ''sh'' then handle_shift net drv s1
          else Ret (Some (-1), s1))"

section \<open>The command loop\<close>

text \<open>
  The loop goes on while the client is in the middle of a JTAG operation; \<open>None\<close> is a client
  that never lets it end.
\<close>

partial_function (option) command_loop ::
  "'n net \<Rightarrow> 'd ft_driver \<Rightarrow> u32 \<Rightarrow> ('n, 'd) xvc_io \<Rightarrow> (int \<times> ('n, 'd) xvc_io) outcome option" where
  "command_loop net drv frequency s =
     (case handle_command net drv frequency s of
        Ret (Some code, s1) \<Rightarrow> Some (Ret (code, s1))
      | Ret (None, s1) \<Rightarrow>
          if seen_tlr (xctx s1) \<and> jtag_st (xctx s1) = JTAG_RUN_TEST_IDLE then Some (Ret (0, s1))
          else command_loop net drv frequency s1
      | Undefined \<Rightarrow> Some Undefined
      | Killed \<Rightarrow> Some Killed
      | Diverges \<Rightarrow> Some Diverges)"

definition xvc_handle ::
  "allocator \<Rightarrow> 'n net \<Rightarrow> 'd ft_driver \<Rightarrow> int \<Rightarrow> int \<Rightarrow> u32 \<Rightarrow> ('n, 'd) xvc_io \<Rightarrow> (int \<times> ('n, 'd) xvc_io) outcome" where
  "xvc_handle mal net drv fd xvc_buffer_size frequency s =
     (case (if vector_buf (xctx s) = None \<or> socket_fd (xctx s) \<noteq> fd
            then xvc_init mal fd (if xvc_buffer_size > 0 then xvc_buffer_size else max_vector_size (xctx s)) s
            else (0, s)) of
        (code, s1) \<Rightarrow>
          if code < 0 then Ret (-1, s1)
          else case command_loop net drv frequency s1 of None \<Rightarrow> Diverges | Some r \<Rightarrow> r)"

end
