(* ===== verification/Xvc_Session.thy ===== *)
theory Xvc_Session
  imports Xvc_Protocol
begin

text \<open>
  Properties of the protocol handler: integers and exact I/O, what each command answers over a
  connection that behaves as a byte stream, and that any client, however malformed its
  requests, gets the handler to return.
\<close>

section \<open>Integers on the wire\<close>

lemma bit_get_int32:
  assumes "length d = 4" "i < 32"
  shows "bit (xvc_get_int32 d) i = bit (d ! (i div 8)) (i mod 8)"
proof -
  have "i div 8 < 4" using assms(2) by linarith
  then consider "i div 8 = 0" | "i div 8 = 1" | "i div 8 = 2" | "i div 8 = 3" by linarith
  then show ?thesis
    by cases (use assms(2) in \<open>auto simp: xvc_get_int32_def bit_or_iff bit_push_bit_iff bit_ucast_iff possible_bit_word
        minus_div_mult_eq_mod [symmetric]\<close>)
qed

lemma bit_put_int32: "k < 4 \<Longrightarrow> j < 8 \<Longrightarrow> bit (xvc_put_int32 v ! k) j = bit v (8 * k + j)"
proof -
  have low: "bit (0xFF :: int) j = (j < 8)" for j
    using bit_mask_iff[of 8 j, where 'a = int] by (simp add: mask_eq_exp_minus_1)
  assume "k < 4" "j < 8"
  moreover from this have "k = 0 \<or> k = 1 \<or> k = 2 \<or> k = 3" by linarith
  ultimately show ?thesis
    by (auto simp: xvc_put_int32_def bit_ucast_iff bit_and_iff low bit_drop_bit_eq possible_bit_word)
qed

lemma length_put_int32 [simp]: "length (xvc_put_int32 v) = 4"
  by (simp add: xvc_put_int32_def)

lemma get_put_int32: "xvc_get_int32 (xvc_put_int32 v) = v"
proof (rule bit_word_eqI)
  fix i assume "i < LENGTH(32)"
  then have "i < 32" "i div 8 < 4" by auto
  then show "bit (xvc_get_int32 (xvc_put_int32 v)) i = bit v i"
    by (simp add: bit_get_int32 bit_put_int32)
qed

lemma put_get_int32: "length d = 4 \<Longrightarrow> xvc_put_int32 (xvc_get_int32 d) = d"
proof (rule nth_equalityI)
  fix k assume d: "length d = 4" and "k < length (xvc_put_int32 (xvc_get_int32 d))"
  then have "k < 4" by simp
  then show "xvc_put_int32 (xvc_get_int32 d) ! k = d ! k"
    by (auto simp: byte_eq_iff_bits bit_put_int32 bit_get_int32 d)
qed simp

text \<open>Reading an integer that was written gives it back, and writing one that was read gives its four bytes.\<close>

theorem int32_round_trip:
  "xvc_get_int32 (xvc_put_int32 v) = v \<and> (length d = 4 \<longrightarrow> xvc_put_int32 (xvc_get_int32 d) = d)"
  by (simp add: get_put_int32 put_get_int32)

section \<open>Exact reads and writes\<close>

text \<open>\<open>seen\<close> are the bytes the socket has delivered so far, in the order it delivered them.\<close>

definition logs_reads :: "'n net \<Rightarrow> ('n \<Rightarrow> u8 list) \<Rightarrow> bool" where
  "logs_reads net seen \<longleftrightarrow> (\<forall>n fd k. case net_read net n fd k of (Got data, n1) \<Rightarrow> seen n1 = seen n @ data | (_, n1) \<Rightarrow> seen n1 = seen n)"

lemma logs_readsD:
  assumes "logs_reads net seen" "net_read net n fd k = (r, n1)"
  shows "seen n1 = seen n @ (case r of Got data \<Rightarrow> data | _ \<Rightarrow> [])"
  using assms(1)[unfolded logs_reads_def, rule_format, of n fd k] assms(2) by (cases r) simp_all

text \<open>
  C27. Whatever the socket does, a read that returns has stored the bytes the socket delivered during
  the call and no others, in the order they were received; one that reports success stored exactly
  as many as asked for, and one that does not stored fewer and returns 0 or -1.
\<close>

theorem read_exact_bytes:
  "logs_reads net seen \<Longrightarrow> xvc_read_exact net fd len acc n = Ret (r, data, n') \<Longrightarrow>
     (\<exists>d. data = acc @ d \<and> seen n' = seen n @ d \<and>
        (if r = 1 then length d = nat len else length d < nat len \<and> (r = 0 \<or> r = -1)))"
proof (induction net fd len acc n rule: xvc_read_exact.induct)
  case (1 net fd len acc n)
  show ?case
  proof (cases "len > 0")
    case False
    then show ?thesis using 1(3) by (subst (asm) xvc_read_exact.simps) auto
  next
    case True
    obtain res n1 where rd: "net_read net n fd (nat len) = (res, n1)" by fastforce
    note seen = logs_readsD[OF 1(2) rd]
    show ?thesis
    proof (cases res)
      case (Got d)
      show ?thesis
      proof (cases "d = [] \<or> int (length d) > len")
        case True
        then show ?thesis using 1(3) rd Got seen \<open>len > 0\<close> by (subst (asm) xvc_read_exact.simps) (auto split: if_splits)
      next
        case False
        then have "xvc_read_exact net fd (len - int (length d)) (acc @ d) n1 = Ret (r, data, n')"
          using 1(3) rd Got \<open>len > 0\<close> by (subst (asm) xvc_read_exact.simps) auto
        from 1(1)[OF \<open>len > 0\<close> rd[symmetric] Got _ _ 1(2) this] False
        obtain e where e: "data = (acc @ d) @ e" "seen n' = seen n1 @ e" "if r = 1 then length e = nat (len - int (length d))
            else length e < nat (len - int (length d)) \<and> (r = 0 \<or> r = -1)" by auto
        moreover have "nat (len - int (length d)) + length d = nat len" using False by linarith
        ultimately show ?thesis using seen Got by (intro exI[of _ "d @ e"]) (auto split: if_splits)
      qed
    qed (use 1(3) rd True seen in \<open>(subst (asm) xvc_read_exact.simps, auto)+\<close>)
  qed
qed

section \<open>A byte stream\<close>

text \<open>
  Documented behaviour of a connected stream socket: \<open>incoming\<close> is what the client still sends
  before it closes, \<open>sent\<close> what was delivered to it. A read of up to \<open>k\<close> bytes gives at least
  one and at most \<open>k\<close> of the bytes that come next, or reports the end; a write takes at least one byte.
\<close>

definition stream_net :: "'n net \<Rightarrow> ('n \<Rightarrow> u8 list) \<Rightarrow> ('n \<Rightarrow> u8 list) \<Rightarrow> bool" where
  "stream_net net incoming sent \<longleftrightarrow>
     (\<forall>n fd k. 0 < k \<longrightarrow> (case net_read net n fd k of
         (Got data, n1) \<Rightarrow> data \<noteq> [] \<and> length data \<le> k \<and> incoming n = data @ incoming n1 \<and> sent n1 = sent n
       | (Closed, n1) \<Rightarrow> incoming n = [] \<and> incoming n1 = [] \<and> sent n1 = sent n
       | _ \<Rightarrow> False)) \<and>
     (\<forall>n fd p. p \<noteq> [] \<longrightarrow> (case net_write net n fd p of
         (Wrote w, n1) \<Rightarrow> 0 < w \<and> w \<le> int (length p) \<and> sent n1 = sent n @ take (nat w) p \<and> incoming n1 = incoming n
       | _ \<Rightarrow> False))"

lemma read_exact_stream:
  assumes "stream_net net incoming sent" "0 \<le> len"
  shows "\<exists>n'. sent n' = sent n \<and> incoming n' = drop (nat len) (incoming n) \<and>
    xvc_read_exact net fd len acc n = Ret (if nat len \<le> length (incoming n) then 1 else 0, acc @ take (nat len) (incoming n), n')"
  using assms(2)
proof (induction "nat len" arbitrary: len acc n rule: less_induct)
  case less
  show ?case
  proof (cases "len = 0")
    case True
    then show ?thesis by (subst xvc_read_exact.simps) auto
  next
    case False
    then have pos: "0 < len" "0 < nat len" using less.prems by auto
    obtain res n1 where rd: "net_read net n fd (nat len) = (res, n1)" by fastforce
    have spec: "case res of Got data \<Rightarrow> data \<noteq> [] \<and> length data \<le> nat len \<and> incoming n = data @ incoming n1 \<and> sent n1 = sent n
        | Closed \<Rightarrow> incoming n = [] \<and> incoming n1 = [] \<and> sent n1 = sent n | _ \<Rightarrow> False"
      using assms(1) pos(2) rd unfolding stream_net_def by (auto dest!: spec[of _ n] spec[of _ fd] spec[of _ "nat len"] split: sock_read.splits)
    show ?thesis
    proof (cases res)
      case (Got d)
      then have d: "d \<noteq> []" "length d \<le> nat len" "incoming n = d @ incoming n1" "sent n1 = sent n" using spec by auto
      have "nat (len - int (length d)) < nat len" "0 \<le> len - int (length d)" using d pos by auto
      from less.hyps[OF this, of n1 "acc @ d"] obtain n' where n': "sent n' = sent n1"
        "incoming n' = drop (nat (len - int (length d))) (incoming n1)"
        "xvc_read_exact net fd (len - int (length d)) (acc @ d) n1 =
          Ret (if nat (len - int (length d)) \<le> length (incoming n1) then 1 else 0, (acc @ d) @ take (nat (len - int (length d))) (incoming n1), n')"
        by blast
      have nat: "nat (len - int (length d)) = nat len - length d" by linarith
      show ?thesis using n' d pos rd Got
        by (intro exI[of _ n']) (subst xvc_read_exact.simps, auto simp: nat)
    next
      case Closed
      then show ?thesis using spec rd pos by (intro exI[of _ n1]) (subst xvc_read_exact.simps, auto)
    qed (use spec in simp_all)
  qed
qed

lemma write_exact_stream:
  assumes "stream_net net incoming sent"
  shows "\<exists>n'. xvc_write_exact net fd p n = Ret (0, n') \<and> sent n' = sent n @ p \<and> incoming n' = incoming n"
proof (induction "length p" arbitrary: p n rule: less_induct)
  case less
  show ?case
  proof (cases "p = []")
    case True
    then show ?thesis by (subst xvc_write_exact.simps) simp
  next
    case False
    obtain sw n1 where sw: "net_write net n fd p = (sw, n1)" by fastforce
    have "case sw of Wrote w \<Rightarrow> 0 < w \<and> w \<le> int (length p) \<and> sent n1 = sent n @ take (nat w) p \<and> incoming n1 = incoming n | _ \<Rightarrow> False"
      using assms[unfolded stream_net_def, THEN conjunct2, rule_format, OF False, of n fd] sw by (cases sw) simp_all
    then obtain w where w: "net_write net n fd p = (Wrote w, n1)" and s: "0 < w" "w \<le> int (length p)" "sent n1 = sent n @ take (nat w) p" "incoming n1 = incoming n"
      using sw by (cases sw) auto
    from less.hyps[of "drop (nat w) p" n1] s False obtain n' where
      "xvc_write_exact net fd (drop (nat w) p) n1 = Ret (0, n')" "sent n' = sent n1 @ drop (nat w) p" "incoming n' = incoming n1"
      by auto
    then show ?thesis using False w s by (subst xvc_write_exact.simps) simp
  qed
qed

section \<open>Reading and replying on a stream\<close>

text \<open>Between two reads only the command buffer and the byte counter of the context change.\<close>

definition after_read :: "('n \<Rightarrow> u8 list) \<Rightarrow> ('n, 'd) xvc_io \<Rightarrow> ('n, 'd) xvc_io \<Rightarrow> bool" where
  "after_read sent s s1 \<longleftrightarrow> xftdi s1 = xftdi s \<and> sent (xnet s1) = sent (xnet s) \<and>
     (\<exists>b r. xctx s1 = (xctx s)\<lparr>cmd_buf := b, bytes_rx := r\<rparr> \<and> length b = length (cmd_buf (xctx s)))"

lemma after_read_refl: "after_read sent s s"
  by (auto simp: after_read_def intro!: exI[of _ "cmd_buf (xctx s)"] exI[of _ "bytes_rx (xctx s)"])

lemma after_read_trans: "after_read sent s s1 \<Longrightarrow> after_read sent s1 s2 \<Longrightarrow> after_read sent s s2"
  by (auto simp: after_read_def; blast)

lemma after_readD:
  assumes "after_read sent s s1"
  shows "xftdi s1 = xftdi s" "sent (xnet s1) = sent (xnet s)" "jtag_st (xctx s1) = jtag_st (xctx s)"
    "seen_tlr (xctx s1) = seen_tlr (xctx s)" "max_vector_size (xctx s1) = max_vector_size (xctx s)"
    "vector_buf (xctx s1) = vector_buf (xctx s)" "result_buf (xctx s1) = result_buf (xctx s)"
    "socket_fd (xctx s1) = socket_fd (xctx s)" "length (cmd_buf (xctx s1)) = length (cmd_buf (xctx s))"
    "bytes_tx (xctx s1) = bytes_tx (xctx s)" "xvc_commands (xctx s1) = xvc_commands (xctx s)"
  using assms by (auto simp: after_read_def)

text \<open>What has been counted as received and what is still to come: reading moves bytes from one to the other.\<close>

definition rx_total :: "('n \<Rightarrow> u8 list) \<Rightarrow> ('n, 'd) xvc_io \<Rightarrow> u64" where
  "rx_total incoming s = bytes_rx (xctx s) + of_nat (length (incoming (xnet s)))"

lemma rx_total_read:
  assumes "bytes_rx (xctx s1) = bytes_rx (xctx s) + of_nat n" "incoming (xnet s1) = drop n (incoming (xnet s))" "n \<le> length (incoming (xnet s))"
  shows "rx_total incoming s1 = rx_total incoming s"
  using assms by (simp add: rx_total_def of_nat_diff)

lemma read_cmd_ok:
  assumes "stream_net net incoming sent" "n \<le> length (incoming (xnet s))" "off + n \<le> length (cmd_buf (xctx s))"
  obtains s1 where "\<And>k. read_cmd net off n s k = k s1" "after_read sent s s1" "incoming (xnet s1) = drop n (incoming (xnet s))"
    "cmd_buf (xctx s1) = take off (cmd_buf (xctx s)) @ take n (incoming (xnet s)) @ drop (off + n) (cmd_buf (xctx s))"
    "rx_total incoming s1 = rx_total incoming s"
proof -
  obtain n' where n': "sent n' = sent (xnet s)" "incoming n' = drop n (incoming (xnet s))"
    "xvc_read_exact net (socket_fd (xctx s)) (int n) [] (xnet s) = Ret (1, take n (incoming (xnet s)), n')"
    using read_exact_stream[OF assms(1), of "int n" "xnet s" "socket_fd (xctx s)" "[]"] assms(2) by auto
  define b where "b = take off (cmd_buf (xctx s)) @ take n (incoming (xnet s)) @ drop (off + n) (cmd_buf (xctx s))"
  define s1 where "s1 = s\<lparr>xnet := n', xctx := (xctx s)\<lparr>cmd_buf := b, bytes_rx := bytes_rx (xctx s) + of_nat n\<rparr>\<rparr>"
  have b: "length b = length (cmd_buf (xctx s))" using assms(2,3) by (simp add: b_def)
  show thesis
  proof (rule that[of s1])
    show "read_cmd net off n s k = k s1" for k
      using n' assms(2) by (simp add: read_cmd_def s1_def b_def Let_def)
    show "after_read sent s s1" using n' b by (auto simp: after_read_def s1_def)
    show "rx_total incoming s1 = rx_total incoming s" using n' assms(2) by (intro rx_total_read[of s1 s n]) (simp_all add: s1_def)
  qed (use n' in \<open>simp_all add: s1_def b_def\<close>)
qed

lemma read_cmd_short:
  assumes "stream_net net incoming sent" "\<not> n \<le> length (incoming (xnet s))"
  shows "\<exists>s1. read_cmd net off n s k = Ret (Some 1, s1)"
proof -
  obtain n' where "xvc_read_exact net (socket_fd (xctx s)) (int n) [] (xnet s) = Ret (0, incoming (xnet s), n')"
    using read_exact_stream[OF assms(1), of "int n" "xnet s" "socket_fd (xctx s)" "[]"] assms(2) by auto
  then show ?thesis by (simp add: read_cmd_def Let_def)
qed

definition replied :: "u8 list \<Rightarrow> ('n, 'd) xvc_io \<Rightarrow> 'n \<Rightarrow> ('n, 'd) xvc_io" where
  "replied reply s n1 = s\<lparr>xctx := (xctx s)\<lparr>bytes_tx := bytes_tx (xctx s) + of_nat (length reply),
      xvc_commands := xvc_commands (xctx s) + 1\<rparr>, xnet := n1\<rparr>"

lemma replied_simps [simp]:
  "xnet (replied r s n1) = n1" "xftdi (replied r s n1) = xftdi s" "jtag_st (xctx (replied r s n1)) = jtag_st (xctx s)"
  "seen_tlr (xctx (replied r s n1)) = seen_tlr (xctx s)" "max_vector_size (xctx (replied r s n1)) = max_vector_size (xctx s)"
  "vector_buf (xctx (replied r s n1)) = vector_buf (xctx s)" "result_buf (xctx (replied r s n1)) = result_buf (xctx s)"
  "cmd_buf (xctx (replied r s n1)) = cmd_buf (xctx s)" "socket_fd (xctx (replied r s n1)) = socket_fd (xctx s)"
  "bytes_rx (xctx (replied r s n1)) = bytes_rx (xctx s)" "bytes_tx (xctx (replied r s n1)) = bytes_tx (xctx s) + of_nat (length r)"
  "xvc_commands (xctx (replied r s n1)) = xvc_commands (xctx s) + 1"
  by (simp_all add: replied_def)

lemma send_reply_ok:
  assumes "stream_net net incoming sent"
  obtains n1 where "\<And>k. send_reply net reply s k = k (replied reply s n1)"
    "sent n1 = sent (xnet s) @ reply" "incoming n1 = incoming (xnet s)"
  using write_exact_stream[OF assms, of "socket_fd (xctx s)" reply "xnet s"] that by (auto simp: send_reply_def replied_def)

definition xvc_wf :: "('n, 'd) xvc_io \<Rightarrow> bool" where
  "xvc_wf s \<longleftrightarrow> length (cmd_buf (xctx s)) = 16 \<and> 4 \<le> max_vector_size (xctx s) \<and> max_vector_size (xctx s) \<le> 262144 \<and>
     (\<exists>vec res d. vector_buf (xctx s) = Some vec \<and> length vec = 2 * nat (max_vector_size (xctx s)) \<and>
        result_buf (xctx s) = Some res \<and> xmem s res = Some d \<and> length d = nat (max_vector_size (xctx s)))"

lemma wf_after_read: "after_read sent s s1 \<Longrightarrow> xvc_wf s \<Longrightarrow> xvc_wf s1"
  unfolding xvc_wf_def by (simp add: after_readD)

lemma wf_replied [simp]: "xvc_wf (replied r s n1) = xvc_wf s"
  by (simp add: xvc_wf_def)

section \<open>The commands on a stream\<close>

lemma chars_simps [simp]: "length (chars s) = length s"
  by (simp add: chars_def)

text \<open>The first two bytes select the command.\<close>

lemma dispatch:
  assumes "stream_net net incoming sent" "xvc_wf s" "incoming (xnet s) = [a, b] @ rest"
  obtains s1 where "after_read sent s s1" "incoming (xnet s1) = rest" "xvc_wf s1" "take 2 (cmd_buf (xctx s1)) = [a, b]"
    "rx_total incoming s1 = rx_total incoming s"
    "handle_command net drv f s = (if [a, b] = chars ''ge'' then handle_getinfo net s1
       else if [a, b] = chars ''se'' then handle_settck net drv f s1
       else if [a, b] = chars ''sh'' then handle_shift net drv s1 else Ret (Some (-1), s1))"
proof -
  have len: "2 \<le> length (incoming (xnet s))" "0 + 2 \<le> length (cmd_buf (xctx s))" using assms(2,3) by (auto simp: xvc_wf_def)
  obtain s1 where s1: "\<And>k. read_cmd net 0 2 s k = k s1" "after_read sent s s1" "incoming (xnet s1) = drop 2 (incoming (xnet s))"
    "cmd_buf (xctx s1) = take 0 (cmd_buf (xctx s)) @ take 2 (incoming (xnet s)) @ drop (0 + 2) (cmd_buf (xctx s))"
    "rx_total incoming s1 = rx_total incoming s"
    using read_cmd_ok[OF assms(1) len] by metis
  then have "take 2 (cmd_buf (xctx s1)) = [a, b]" using assms(3) by simp
  with s1 show thesis using assms(3)
    by (intro that[of s1] wf_after_read[OF s1(2) assms(2)]) (simp_all add: handle_command_def Let_def)
qed

lemma getinfo_ok:
  assumes net: "stream_net net incoming sent" and wf: "xvc_wf s"
    and msg: "incoming (xnet s) = chars ''getinfo:'' @ rest"
  shows "\<exists>s'. handle_command net drv f s = Ret (Some 0, s') \<and> incoming (xnet s') = rest \<and>
    sent (xnet s') = sent (xnet s) @ chars ''xvcServer_v1.0:'' @ chars (show_int (max_vector_size (xctx s))) @ [10] \<and>
    xftdi s' = xftdi s \<and> xvc_wf s' \<and> jtag_st (xctx s') = jtag_st (xctx s) \<and> seen_tlr (xctx s') = seen_tlr (xctx s) \<and>
    max_vector_size (xctx s') = max_vector_size (xctx s) \<and> socket_fd (xctx s') = socket_fd (xctx s)"
proof -
  have msg2: "incoming (xnet s) = [103, 101] @ (chars ''tinfo:'' @ rest)" "[103, 101] = chars ''ge''" using msg by (simp_all add: chars_def)
  obtain s1 where s1: "after_read sent s s1" "incoming (xnet s1) = chars ''tinfo:'' @ rest" "xvc_wf s1"
    "handle_command net drv f s = handle_getinfo net s1"
    using dispatch[OF net wf msg2(1), of drv f] msg2(2) by metis
  obtain s2 where s2: "\<And>k. read_cmd net 2 6 s1 k = k s2" "after_read sent s1 s2" "incoming (xnet s2) = rest"
    using read_cmd_ok[OF net, of 6 s1 2] s1(2,3) by (auto simp: xvc_wf_def)
  obtain n3 where n3: "\<And>k. send_reply net (xvc_info (xctx s2)) s2 k = k (replied (xvc_info (xctx s2)) s2 n3)"
    "sent n3 = sent (xnet s2) @ xvc_info (xctx s2)" "incoming n3 = incoming (xnet s2)"
    using send_reply_ok[OF net, of "xvc_info (xctx s2)" s2] by metis
  have "handle_command net drv f s = Ret (Some 0, replied (xvc_info (xctx s2)) s2 n3)"
    by (simp add: s1(4) handle_getinfo_def s2(1) n3(1))
  then show ?thesis using n3 s2(3) after_readD[OF after_read_trans[OF s1(1) s2(2)]] wf_after_read[OF s2(2) s1(3)]
    by (simp add: xvc_info_def chars_def)
qed

text \<open>
  \<open>getinfo:\<close> is answered with the version and the vector size, and neither the adapter nor
  the tracked TAP state changes.
\<close>

theorem getinfo_reply:
  assumes net: "stream_net net incoming sent" and wf: "xvc_wf s"
    and msg: "incoming (xnet s) = chars ''getinfo:'' @ rest"
  shows "\<exists>s'. handle_command net drv f s = Ret (Some 0, s') \<and> incoming (xnet s') = rest \<and>
    sent (xnet s') = sent (xnet s) @ chars ''xvcServer_v1.0:'' @ chars (show_int (max_vector_size (xctx s))) @ [10] \<and>
    xftdi s' = xftdi s \<and> xvc_wf s' \<and> jtag_st (xctx s') = jtag_st (xctx s) \<and> seen_tlr (xctx s') = seen_tlr (xctx s)"
  using getinfo_ok[OF assms, of drv f] by blast

lemma get_int32_append: "length d = 4 \<Longrightarrow> xvc_get_int32 (d @ r) = xvc_get_int32 d"
  by (simp add: xvc_get_int32_def nth_append)

lemma settck_apply_ok:
  assumes net: "stream_net net incoming sent" and wf: "xvc_wf s" and ready: "ftdi_ready clk chip_of drv (xftdi s)"
    and f: "f = 1000000000 div unat (if period = 0 then 100 else period)"
  shows "\<exists>s'. settck_apply net drv period s = Ret (Some 0, s') \<and> incoming (xnet s') = incoming (xnet s) \<and>
    sent (xnet s') = sent (xnet s) @ xvc_put_int32 (of_int (1000000000 div int (tck_actual (tck_divisor f)))) \<and>
    chip_of (mdev (mio (xftdi s'))) = (chip_of (mdev (mio (xftdi s))))\<lparr>divisor := tck_divisor f\<rparr> \<and> ftdi_ready clk chip_of drv (xftdi s') \<and>
    tap_state (mctx (mio (xftdi s'))) = tap_state (mctx (mio (xftdi s))) \<and> last_tdi (mctx (mio (xftdi s'))) = last_tdi (mctx (mio (xftdi s))) \<and>
    xvc_wf s' \<and> jtag_st (xctx s') = jtag_st (xctx s) \<and> seen_tlr (xctx s') = seen_tlr (xctx s) \<and>
    max_vector_size (xctx s') = max_vector_size (xctx s) \<and> socket_fd (xctx s') = socket_fd (xctx s)"
proof -
  obtain res b where res: "result_buf (xctx s) = Some res" "xmem s res = Some b" "4 \<le> length b"
    using wf by (auto simp: xvc_wf_def)
  define a where "a = 1000000000 div int (tck_actual (tck_divisor f))"
  obtain g where g: "ftdi_adapter_set_period drv period (xftdi s) = Ret (a, g)" "33 \<le> a"
    "chip_of (mdev (mio g)) = (chip_of (mdev (mio (xftdi s))))\<lparr>divisor := tck_divisor f\<rparr>" "ftdi_ready clk chip_of drv g" "mmem (mio g) = xmem s"
    "tap_state (mctx (mio g)) = tap_state (mctx (mio (xftdi s)))" "last_tdi (mctx (mio g)) = last_tdi (mctx (mio (xftdi s)))"
    using set_period_ok[OF ready f] by (auto simp: a_def)
  define s3 where "s3 = put_xmem ((xmem s)(res \<mapsto> xvc_put_int32 (of_int a) @ drop 4 b)) (s\<lparr>xftdi := g\<rparr>)"
  obtain n3 where n3: "\<And>k. send_reply net (xvc_put_int32 (of_int a)) s3 k = k (replied (xvc_put_int32 (of_int a)) s3 n3)"
    "sent n3 = sent (xnet s3) @ xvc_put_int32 (of_int a)" "incoming n3 = incoming (xnet s3)"
    using send_reply_ok[OF net, of "xvc_put_int32 (of_int a)" s3] by metis
  have "settck_apply net drv period s = Ret (Some 0, replied (xvc_put_int32 (of_int a)) s3 n3)"
    using g(1,2,5) res by (simp add: settck_apply_def Let_def mem_copy_def s3_def [symmetric] n3(1))
  moreover have "xvc_wf s3" using wf res by (auto simp: s3_def xvc_wf_def put_xmem_def put_mem_def)
  moreover have "xnet s3 = xnet s" "xctx s3 = xctx s" "chip_of (mdev (mio (xftdi s3))) = chip_of (mdev (mio g))"
    "ftdi_ready clk chip_of drv (xftdi s3)" "mctx (mio (xftdi s3)) = mctx (mio g)"
    using g(4) fport.put_laws(2)[of clk chip_of drv _ g] by (simp_all add: s3_def put_xmem_def put_mem_def)
  ultimately show ?thesis using n3(2,3) g(3,6,7) by (simp add: a_def)
qed

lemma settck_ok:
  assumes net: "stream_net net incoming sent" and wf: "xvc_wf s" and ready: "ftdi_ready clk chip_of drv (xftdi s)"
    and msg: "incoming (xnet s) = chars ''settck:'' @ d @ rest" "length d = 4"
    and period: "period = (if frequency = 0 then xvc_get_int32 d else 1000000000 div frequency)"
    and f: "f = 1000000000 div unat (if period = 0 then 100 else period)"
  shows "\<exists>s'. handle_command net drv frequency s = Ret (Some 0, s') \<and> incoming (xnet s') = rest \<and>
    sent (xnet s') = sent (xnet s) @ xvc_put_int32 (of_int (1000000000 div int (tck_actual (tck_divisor f)))) \<and>
    chip_of (mdev (mio (xftdi s'))) = (chip_of (mdev (mio (xftdi s))))\<lparr>divisor := tck_divisor f\<rparr> \<and> ftdi_ready clk chip_of drv (xftdi s') \<and>
    tap_state (mctx (mio (xftdi s'))) = tap_state (mctx (mio (xftdi s))) \<and> last_tdi (mctx (mio (xftdi s'))) = last_tdi (mctx (mio (xftdi s))) \<and>
    xvc_wf s' \<and> jtag_st (xctx s') = jtag_st (xctx s) \<and> seen_tlr (xctx s') = seen_tlr (xctx s) \<and>
    max_vector_size (xctx s') = max_vector_size (xctx s) \<and> socket_fd (xctx s') = socket_fd (xctx s)"
proof -
  have msg2: "incoming (xnet s) = [115, 101] @ (chars ''ttck:'' @ d @ rest)" "[115, 101] \<noteq> chars ''ge''" "[115, 101] = chars ''se''"
    using msg by (simp_all add: chars_def)
  obtain s1 where s1: "after_read sent s s1" "incoming (xnet s1) = chars ''ttck:'' @ d @ rest" "xvc_wf s1" "take 2 (cmd_buf (xctx s1)) = [115, 101]"
    "handle_command net drv frequency s = handle_settck net drv frequency s1"
    using dispatch[OF net wf msg2(1), of drv frequency] msg2(2,3) by metis
  obtain s2 where s2: "\<And>k. read_cmd net 2 9 s1 k = k s2" "after_read sent s1 s2" "incoming (xnet s2) = rest"
    "cmd_buf (xctx s2) = take 2 (cmd_buf (xctx s1)) @ (chars ''ttck:'' @ d) @ drop 11 (cmd_buf (xctx s1))"
    using read_cmd_ok[OF net, of 9 s1 2] s1(2,3) msg(2) by (auto simp: xvc_wf_def)
  have per: "(if frequency = 0 then xvc_get_int32 (drop 7 (cmd_buf (xctx s2))) else 1000000000 div frequency) = period"
    using s2(4) s1(4) msg(2) by (simp add: chars_def get_int32_append period)
  note same = after_readD[OF after_read_trans[OF s1(1) s2(2)]]
  have "handle_command net drv frequency s = settck_apply net drv period s2"
    by (simp only: s1(5) handle_settck_def s2(1) per)
  then show ?thesis
    using settck_apply_ok[OF net wf_after_read[OF s2(2) s1(3)] _ f, of clk chip_of drv] ready same s2(3) by simp
qed

text \<open>
  C25. \<open>settck:\<close> sets the period the client asked for, or the configured frequency if there is
  one, and answers with the period of the rate the chip now has.
\<close>

theorem settck_reply:
  assumes net: "stream_net net incoming sent" and wf: "xvc_wf s" and ready: "ftdi_ready clk chip_of drv (xftdi s)"
    and msg: "incoming (xnet s) = chars ''settck:'' @ d @ rest" "length d = 4"
    and period: "period = (if frequency = 0 then xvc_get_int32 d else 1000000000 div frequency)"
    and f: "f = 1000000000 div unat (if period = 0 then 100 else period)"
  shows "\<exists>s'. handle_command net drv frequency s = Ret (Some 0, s') \<and> incoming (xnet s') = rest \<and>
    sent (xnet s') = sent (xnet s) @ xvc_put_int32 (of_int (1000000000 div int (tck_actual (tck_divisor f)))) \<and>
    divisor (chip_of (mdev (mio (xftdi s')))) = tck_divisor f \<and> ftdi_ready clk chip_of drv (xftdi s') \<and> xvc_wf s' \<and>
    jtag_st (xctx s') = jtag_st (xctx s)"
  using settck_ok[OF assms] by auto

section \<open>Shift\<close>

text \<open>The reference looks at the first \<open>n\<close> bits of the vectors only.\<close>

lemma state_at_cong:
  assumes "\<And>i. i < n \<Longrightarrow> get_bit a i = get_bit b i"
  shows "i \<le> n \<Longrightarrow> state_at a s i = state_at b s i"
  by (induction i) (use assms in \<open>auto simp: state_at_Suc\<close>)

lemma tdi_at_cong:
  assumes "\<And>i. i < n \<Longrightarrow> get_bit a i = get_bit b i" "\<And>i. i < n \<Longrightarrow> get_bit c i = get_bit d i"
  shows "i \<le> n \<Longrightarrow> tdi_at a c s h i = tdi_at b d s h i"
  by (induction i) (use assms state_at_cong[of n a b] in auto)

lemma wire_cong:
  assumes "\<And>i. i < n \<Longrightarrow> get_bit a i = get_bit b i" "\<And>i. i < n \<Longrightarrow> get_bit c i = get_bit d i"
  shows "wire a c s h n = wire b d s h n"
  unfolding wire_def using assms(1) tdi_at_cong[OF assms] by (auto simp del: tdi_at.simps)

lemma take_tdo_after:
  assumes "length ss \<le> 8 * n" "n \<le> length buf" "\<And>i. i < length ss \<Longrightarrow> state_at a s i = state_at b s i"
    and "\<And>i. i < 8 * n \<Longrightarrow> \<not> get_bit buf i"
  shows "take n (tdo_after a s ss buf) = tdo_after b s ss (replicate n 0)"
proof (rule byte_list_eqI)
  fix j assume "j < 8 * length (take n (tdo_after a s ss buf))"
  then have j: "j < 8 * n" using assms(2) by simp
  have "get_bit (take n (tdo_after a s ss buf)) j = get_bit (tdo_after a s ss buf) j"
    using div8_less[OF j] by (simp add: get_bit_eq)
  moreover have "\<not> get_bit (replicate n 0) j" using div8_less[OF j] by (simp add: get_bit_eq)
  ultimately show "get_bit (take n (tdo_after a s ss buf)) j = get_bit (tdo_after b s ss (replicate n 0)) j"
    using assms j by (auto simp: get_tdo_after)
qed (use assms in simp)

lemma vec_bits_get_bit: "vec_bits v n = map (get_bit v) [0..<n]"
  by (simp add: vec_bits_def get_bit_eq)

text \<open>The scan of a shift command: both vectors lie behind each other in one buffer, the result starts cleared.\<close>

lemma joined_scan:
  assumes ready: "ftdi_ready clk chip_of drv f" and mem: "mmem (mio f) res = Some (replicate n 0 @ drop n b)" "n \<le> length b"
    and vec: "length tms = n" "length tdi = n" and n: "n = (bits + 7) div 8" and bits: "0 < bits" "bits \<le> 524280"
  defines "t0 \<equiv> target (chip_of (mdev (mio f)))" and "tap \<equiv> tap_state (mctx (mio f))" and "h \<equiv> last_tdi (mctx (mio f))"
  assumes v: "v = tms @ tdi @ x"
  shows "\<exists>g T. ftdi_adapter_scan drv v (drop n v) res (int bits) f = Ret (0, g) \<and> ftdi_ready clk chip_of drv g \<and>
    target (chip_of (mdev (mio g))) = run_target clk (wire tms tdi tap h bits) t0 \<and> mmem (mio g) = (mmem (mio f))(res \<mapsto> T) \<and>
    take n T = tdo_after tms tap (samples clk t0 (wire tms tdi tap h bits)) (replicate n 0) \<and> length T = length b \<and>
    tap_state (mctx (mio g)) = state_at tms tap bits \<and> last_tdi (mctx (mio g)) = tdi_at tms tdi tap h bits \<and>
    divisor (chip_of (mdev (mio g))) = divisor (chip_of (mdev (mio f)))"
proof -
  define Z where "Z = replicate n 0 @ drop n b"
  have bn: "bits \<le> 8 * n" using n by linarith
  have cong: "\<And>i. i < bits \<Longrightarrow> get_bit v i = get_bit tms i" "\<And>i. i < bits \<Longrightarrow> get_bit (drop n v) i = get_bit tdi i"
    using bn vec by (simp_all add: v get_bit_append)
  have len: "bits \<le> 8 * length v" "bits \<le> 8 * length (drop n v)" "bits \<le> 8 * length Z"
    using bn vec mem(2) by (simp_all add: v Z_def)
  have weq: "wire v (drop n v) tap h bits = wire tms tdi tap h bits" by (rule wire_cong) (use cong in auto)
  define w where "w = wire tms tdi tap h bits"
  define T where "T = tdo_after v tap (samples clk t0 w) Z"
  obtain g where g: "ftdi_adapter_scan drv v (drop n v) res (int bits) f = Ret (0, g)" "ftdi_ready clk chip_of drv g"
    "target (chip_of (mdev (mio g))) = run_target clk w t0" "mmem (mio g) = (mmem (mio f))(res \<mapsto> T)"
    "tap_state (mctx (mio g)) = state_at v tap bits" "last_tdi (mctx (mio g)) = tdi_at v (drop n v) tap h bits"
    using fport.scan_law[OF ready mem(1)[folded Z_def] bits len] unfolding T_def w_def t0_def tap_def h_def
    by (auto simp: weq[unfolded tap_def h_def])
  have z: "\<forall>j < 8 * n. \<not> get_bit Z j" using zeroed_block(2)[of "Map.empty(0 \<mapsto> b)" 0 b n] mem(2) by (simp add: Z_def)
  have "take n T = tdo_after tms tap (samples clk t0 w) (replicate n 0)" "length T = length b"
    unfolding T_def
    using take_tdo_after[of "samples clk t0 w" n Z v tap tms] bn mem(2) z state_at_cong[of bits v tms _ tap] cong
    by (auto simp: Z_def w_def)
  moreover have "state_at v tap bits = state_at tms tap bits" using state_at_cong[of bits v tms bits tap] cong(1) by simp
  moreover have "tdi_at v (drop n v) tap h bits = tdi_at tms tdi tap h bits" using tdi_at_cong[OF cong, of bits] by simp
  moreover note scan_keeps_rate[OF ready mem(1)[folded Z_def] bits len g(1)]
  ultimately show ?thesis using g unfolding w_def by auto
qed

lemma shift_vectors_ok:
  assumes net: "stream_net net incoming sent" and wf: "xvc_wf s" and ready: "ftdi_ready clk chip_of drv (xftdi s)"
    and vec: "vector_buf (xctx s) = Some (tms @ tdi @ x)" "length tms = n" "length tdi = n"
    and n: "n = (bits + 7) div 8" "int n \<le> max_vector_size (xctx s)" and bits: "0 < bits" "bits \<le> 524280"
    and nb: "\<not> bogus_move (jtag_st (xctx s)) (int bits) (tms @ tdi @ x)"
    and t0: "t0 = target (chip_of (mdev (mio (xftdi s))))" and tap: "tap = tap_state (mctx (mio (xftdi s)))"
    and w: "w = wire tms tdi tap (last_tdi (mctx (mio (xftdi s)))) bits"
  shows "\<exists>s'. shift_vectors net drv (int bits) (int n) s = Ret (None, s') \<and> incoming (xnet s') = incoming (xnet s) \<and>
    sent (xnet s') = sent (xnet s) @ tdo_after tms tap (samples clk t0 w) (replicate n 0) \<and>
    ftdi_ready clk chip_of drv (xftdi s') \<and> target (chip_of (mdev (mio (xftdi s')))) = run_target clk w t0 \<and>
    tap_state (mctx (mio (xftdi s'))) = state_at tms tap bits \<and> xvc_wf s' \<and>
    last_tdi (mctx (mio (xftdi s'))) = tdi_at tms tdi tap (last_tdi (mctx (mio (xftdi s)))) bits \<and>
    jtag_st (xctx s') = prot.run (jtag_st (xctx s)) (vec_bits tms bits) \<and>
    seen_tlr (xctx s') = seen_tlr (update_tlr (xctx s)) \<and> max_vector_size (xctx s') = max_vector_size (xctx s) \<and>
    socket_fd (xctx s') = socket_fd (xctx s) \<and>
    divisor (chip_of (mdev (mio (xftdi s')))) = divisor (chip_of (mdev (mio (xftdi s)))) \<and>
    bytes_rx (xctx s') = bytes_rx (xctx s) \<and> bytes_tx (xctx s') = bytes_tx (xctx s) + of_nat n \<and>
    xvc_commands (xctx s') = xvc_commands (xctx s) + 1"
proof -
  define v where "v = tms @ tdi @ x"
  obtain res b where res: "result_buf (xctx s) = Some res" "xmem s res = Some b" "n \<le> length b" "length b = nat (max_vector_size (xctx s))"
    using wf n(2) by (auto simp: xvc_wf_def)
  define Z where "Z = replicate n 0 @ drop n b"
  note Z = zeroed_block[of "xmem s" res b n, OF res(2,3), folded Z_def]
  define s1 where "s1 = put_xmem ((xmem s)(res \<mapsto> Z)) (s\<lparr>xctx := update_tlr (xctx s)\<rparr>)"
  define s2 where "s2 = s1\<lparr>xctx := (xctx s1)\<lparr>jtag_st := track_tms v bits (jtag_st (xctx s1))\<rparr>\<rparr>"
  have f2: "xftdi s2 = put_mem ((xmem s)(res \<mapsto> Z)) (xftdi s)" by (simp add: s2_def s1_def put_xmem_def)
  have s2: "ftdi_ready clk chip_of drv (xftdi s2)" "xmem s2 res = Some (replicate n 0 @ drop n b)"
    "target (chip_of (mdev (mio (xftdi s2)))) = t0" "tap_state (mctx (mio (xftdi s2))) = tap" "last_tdi (mctx (mio (xftdi s2))) = last_tdi (mctx (mio (xftdi s)))"
    using ready by (simp_all add: f2 fport.put_laws t0 tap Z_def)
  have r2: "mdev (mio (xftdi s2)) = mdev (mio (xftdi s))" by (simp add: f2 put_mem_def)
  obtain g T where g: "ftdi_adapter_scan drv v (drop n v) res (int bits) (xftdi s2) = Ret (0, g)" "ftdi_ready clk chip_of drv g"
    "target (chip_of (mdev (mio g))) = run_target clk w t0" "mmem (mio g) = (xmem s2)(res \<mapsto> T)"
    "tap_state (mctx (mio g)) = state_at tms tap bits" "last_tdi (mctx (mio g)) = tdi_at tms tdi tap (last_tdi (mctx (mio (xftdi s)))) bits"
    "divisor (chip_of (mdev (mio g))) = divisor (chip_of (mdev (mio (xftdi s))))"
    and T: "take n T = tdo_after tms tap (samples clk t0 w) (replicate n 0)" "length T = length b"
    using joined_scan[OF s2(1,2) res(3) vec(2,3) n(1) bits v_def] unfolding s2(3-5) unfolding r2 w by blast
  define s3 where "s3 = s2\<lparr>xftdi := g\<rparr>"
  obtain n3 where n3: "\<And>k. send_reply net (take n T) s3 k = k (replied (take n T) s3 n3)"
    "sent n3 = sent (xnet s3) @ take n T" "incoming n3 = incoming (xnet s3)"
    using send_reply_ok[OF net, of "take n T" s3] by metis
  have x3: "xmem s3 res = Some T" using g(4) by (simp add: s3_def)
  have "\<not> bogus_move (jtag_st (xctx s1)) (int bits) v" using nb by (simp add: s1_def put_xmem_def update_tlr_def v_def)
  moreover have sr: "send_result net res n s3 = Ret (None, replied (take n T) s3 n3)"
    using x3 T(2) res(3) by (simp add: send_result_def n3(1))
  ultimately have "shift_vectors net drv (int bits) (int n) s = Ret (None, replied (take n T) s3 n3)"
    using Z(1) g(1) res
    by (simp add: shift_vectors_def vec(1) v_def [symmetric] Let_def s1_def [symmetric] s2_def [symmetric] s3_def [symmetric])
  moreover have "vec_bits v bits = vec_bits tms bits" unfolding vec_bits_get_bit using n(1) vec(2) by (auto simp: v_def get_bit_append)
  moreover have "xvc_wf s3" using wf res T(2) x3 vec unfolding xvc_wf_def by (simp add: s3_def s2_def s1_def put_xmem_def update_tlr_def)
  ultimately show ?thesis using n3 g(2,3,5-7) T(1) T(2) res(3)
    by (simp add: s3_def s2_def s1_def put_xmem_def update_tlr_def track_tms_ok)
qed

text \<open>A suppressed move: the result is cleared and sent.\<close>

lemma bogus_vectors_ok:
  assumes net: "stream_net net incoming sent" and wf: "xvc_wf s" and ready: "ftdi_ready clk chip_of drv (xftdi s)"
    and vec: "vector_buf (xctx s) = Some v" and n: "int n \<le> max_vector_size (xctx s)"
    and b: "bogus_move (jtag_st (xctx s)) bits v"
  shows "\<exists>s'. shift_vectors net drv bits (int n) s = Ret (None, s') \<and> incoming (xnet s') = incoming (xnet s) \<and>
    sent (xnet s') = sent (xnet s) @ replicate n 0 \<and> ftdi_ready clk chip_of drv (xftdi s') \<and> xvc_wf s' \<and>
    (\<exists>m. xftdi s' = put_mem m (xftdi s)) \<and> jtag_st (xctx s') = jtag_st (xctx s) \<and> seen_tlr (xctx s') = seen_tlr (update_tlr (xctx s)) \<and>
    max_vector_size (xctx s') = max_vector_size (xctx s) \<and> socket_fd (xctx s') = socket_fd (xctx s)"
proof -
  obtain res d where res: "result_buf (xctx s) = Some res" "xmem s res = Some d" "n \<le> length d" "length d = nat (max_vector_size (xctx s))"
    using wf n by (auto simp: xvc_wf_def)
  define Z where "Z = replicate n 0 @ drop n d"
  define s1 where "s1 = put_xmem ((xmem s)(res \<mapsto> Z)) (s\<lparr>xctx := update_tlr (xctx s)\<rparr>)"
  have s1: "xnet s1 = xnet s" "xctx s1 = update_tlr (xctx s)" "xftdi s1 = put_mem ((xmem s)(res \<mapsto> Z)) (xftdi s)" "xmem s1 res = Some Z"
    by (simp_all add: s1_def put_xmem_def put_mem_def)
  obtain n3 where n3: "\<And>k. send_reply net (replicate n 0) s1 k = k (replied (replicate n 0) s1 n3)"
    "sent n3 = sent (xnet s1) @ replicate n 0" "incoming n3 = incoming (xnet s1)"
    using send_reply_ok[OF net, of "replicate n 0" s1] by metis
  have "mem_copy res 0 (replicate n 0) (xmem s) = Ret ((xmem s)(res \<mapsto> Z))" using zeroed_block(1)[of "xmem s" res d n, OF res(2,3)] by (simp add: Z_def)
  moreover have "bogus_move (jtag_st (xctx s1)) bits v" using b s1(2) by (simp add: update_tlr_def)
  moreover have "send_result net res n s1 = Ret (None, replied (replicate n 0) s1 n3)"
    using s1(4) res(3) n3(1) by (simp add: send_result_def Z_def)
  ultimately have "shift_vectors net drv bits (int n) s = Ret (None, replied (replicate n 0) s1 n3)"
    using vec res(1) by (simp add: shift_vectors_def Let_def s1_def [symmetric])
  moreover have "xvc_wf s1" using wf res s1(4) unfolding xvc_wf_def s1(2) by (simp add: update_tlr_def Z_def)
  moreover have "ftdi_ready clk chip_of drv (xftdi s1)" using ready by (simp add: s1(3) fport.put_laws)
  ultimately show ?thesis using n3(2,3) s1
    by (auto simp: update_tlr_def)
qed

lemma read_vectors_ok:
  assumes net: "stream_net net incoming sent" and wf: "xvc_wf s"
    and n: "int n \<le> max_vector_size (xctx s)" "2 * n \<le> length (incoming (xnet s))"
  obtains s1 x where "\<And>k. read_vectors net (int n * 2) s k = k s1" "xftdi s1 = xftdi s" "sent (xnet s1) = sent (xnet s)"
    "incoming (xnet s1) = drop (2 * n) (incoming (xnet s))" "vector_buf (xctx s1) = Some (take (2 * n) (incoming (xnet s)) @ x)"
    "jtag_st (xctx s1) = jtag_st (xctx s)" "seen_tlr (xctx s1) = seen_tlr (xctx s)" "max_vector_size (xctx s1) = max_vector_size (xctx s)"
    "socket_fd (xctx s1) = socket_fd (xctx s)" "xvc_wf s1" "rx_total incoming s1 = rx_total incoming s"
    "bytes_tx (xctx s1) = bytes_tx (xctx s)" "xvc_commands (xctx s1) = xvc_commands (xctx s)"
proof -
  obtain vec where vec: "vector_buf (xctx s) = Some vec" "length vec = 2 * nat (max_vector_size (xctx s))"
    using wf by (auto simp: xvc_wf_def)
  have two: "nat (int n * 2) = 2 * n" by simp
  obtain n' where n': "sent n' = sent (xnet s)" "incoming n' = drop (2 * n) (incoming (xnet s))"
    "xvc_read_exact net (socket_fd (xctx s)) (int n * 2) [] (xnet s) = Ret (1, take (2 * n) (incoming (xnet s)), n')"
    using read_exact_stream[OF net, of "int n * 2" "xnet s" "socket_fd (xctx s)" "[]"] n(2) by (auto simp: two)
  define s1 where "s1 = s\<lparr>xnet := n', xctx := (xctx s)\<lparr>vector_buf := Some (take (2 * n) (incoming (xnet s)) @ drop (2 * n) vec),
      bytes_rx := bytes_rx (xctx s) + of_int (int n * 2)\<rparr>\<rparr>"
  have le: "2 * n \<le> length vec" using n(1) vec(2) by linarith
  show thesis
  proof (rule that[of s1])
    show "read_vectors net (int n * 2) s k = k s1" for k
      using n' n(2) le by (simp add: read_vectors_def vec(1) s1_def Let_def)
    show "xvc_wf s1" using wf vec le n(2) by (auto simp: xvc_wf_def s1_def)
    show "rx_total incoming s1 = rx_total incoming s"
      using n' n(2) by (intro rx_total_read[of s1 s "2 * n"]) (simp_all add: s1_def mult.commute)
  qed (use n' in \<open>simp_all add: s1_def\<close>)
qed

text \<open>The command and its length field, up to the vectors.\<close>

lemma shift_header:
  assumes net: "stream_net net incoming sent" and wf: "xvc_wf s" and bits: "bits \<le> 524280"
    and msg: "incoming (xnet s) = chars ''shift:'' @ xvc_put_int32 (of_nat bits) @ vs"
  shows "\<exists>s3. after_read sent s s3 \<and> xvc_wf s3 \<and> incoming (xnet s3) = vs \<and> rx_total incoming s3 = rx_total incoming s \<and>
    handle_command net drv f s =
      (if int ((bits + 7) div 8) > max_vector_size (xctx s3) then Ret (Some (-1), s3)
       else read_vectors net (int ((bits + 7) div 8) * 2) s3 (shift_vectors net drv (int bits) (int ((bits + 7) div 8))))"
proof -
  have msg2: "incoming (xnet s) = [115, 104] @ (chars ''ift:'' @ xvc_put_int32 (of_nat bits) @ vs)"
    "[115, 104] \<noteq> chars ''ge''" "[115, 104] \<noteq> chars ''se''" "[115, 104] = chars ''sh''"
    using msg by (simp_all add: chars_def)
  obtain s1 where s1: "after_read sent s s1" "incoming (xnet s1) = chars ''ift:'' @ xvc_put_int32 (of_nat bits) @ vs"
    "xvc_wf s1" "take 2 (cmd_buf (xctx s1)) = [115, 104]" "handle_command net drv f s = handle_shift net drv s1"
    "rx_total incoming s1 = rx_total incoming s"
    using dispatch[OF net wf msg2(1), of drv f] msg2(2-4) by metis
  obtain s2 where s2: "\<And>k. read_cmd net 2 4 s1 k = k s2" "after_read sent s1 s2"
    "incoming (xnet s2) = xvc_put_int32 (of_nat bits) @ vs"
    "cmd_buf (xctx s2) = [115, 104] @ chars ''ift:'' @ drop 6 (cmd_buf (xctx s1))" "rx_total incoming s2 = rx_total incoming s1"
    using read_cmd_ok[OF net, of 4 s1 2] s1(2,3,4) by (auto simp: xvc_wf_def)
  have wf2: "xvc_wf s2" by (rule wf_after_read[OF s2(2) s1(3)])
  obtain s3 where s3: "\<And>k. read_cmd net 6 4 s2 k = k s3" "after_read sent s2 s3" "incoming (xnet s3) = vs"
    "cmd_buf (xctx s3) = take 6 (cmd_buf (xctx s2)) @ xvc_put_int32 (of_nat bits) @ drop 10 (cmd_buf (xctx s2))"
    "rx_total incoming s3 = rx_total incoming s2"
    using read_cmd_ok[OF net, of 4 s2 6] s2(3) wf2 by (auto simp: xvc_wf_def)
  have "take 6 (cmd_buf (xctx s2)) = [115, 104] @ chars ''ift:''" "length (take 6 (cmd_buf (xctx s2))) = 6"
    using s2(4) by (simp_all add: chars_def)
  then have "xvc_get_int32 (drop 6 (cmd_buf (xctx s3))) = of_nat bits"
    unfolding s3(4) by (simp add: get_int32_append get_put_int32)
  moreover have "sint (of_nat bits :: i32) = int bits" using bits by (intro u32_small(2)) simp
  moreover have "\<not> (cmd_buf (xctx s2) ! 4 = of_char (CHR ''e'') \<or> cmd_buf (xctx s2) ! 4 = of_char (CHR ''E''))"
    using s2(4) by (simp add: chars_def)
  moreover have "\<not> int bits + 7 \<ge> 2 ^ 31" "c_div (int bits + 7) 8 = int ((bits + 7) div 8)" using bits by (simp_all add: zdiv_int)
  ultimately show ?thesis
    using after_read_trans[OF after_read_trans[OF s1(1) s2(2)] s3(2)] wf_after_read[OF s3(2) wf2] s3(3) s1(5,6) s2(5) s3(5)
    by (auto simp: handle_shift_def s2(1) shift_rest_def s3(1) Let_def)
qed

lemma shift_received:
  assumes net: "stream_net net incoming sent" and wf: "xvc_wf s" and bits: "bits \<le> 524280" and m: "m = (bits + 7) div 8"
    and msg: "incoming (xnet s) = chars ''shift:'' @ xvc_put_int32 (of_nat bits) @ tms @ tdi @ rest"
    and n: "length tms = m" "length tdi = m" "int m \<le> max_vector_size (xctx s)"
  obtains s4 x where "handle_command net drv f s = shift_vectors net drv (int bits) (int m) s4"
    "vector_buf (xctx s4) = Some (tms @ tdi @ x)" "incoming (xnet s4) = rest" "sent (xnet s4) = sent (xnet s)" "xftdi s4 = xftdi s"
    "jtag_st (xctx s4) = jtag_st (xctx s)" "seen_tlr (xctx s4) = seen_tlr (xctx s)" "max_vector_size (xctx s4) = max_vector_size (xctx s)" "xvc_wf s4"
    "socket_fd (xctx s4) = socket_fd (xctx s)" "rx_total incoming s4 = rx_total incoming s"
    "bytes_tx (xctx s4) = bytes_tx (xctx s)" "xvc_commands (xctx s4) = xvc_commands (xctx s)"
proof -
  obtain s3 where s3: "after_read sent s s3" "xvc_wf s3" "incoming (xnet s3) = tms @ tdi @ rest" "rx_total incoming s3 = rx_total incoming s"
    and h: "handle_command net drv f s = (if int m > max_vector_size (xctx s3) then Ret (Some (-1), s3)
       else read_vectors net (int m * 2) s3 (shift_vectors net drv (int bits) (int m)))"
    using shift_header[OF net wf bits msg, of drv f] unfolding m by blast
  note same = after_readD[OF s3(1)]
  have mm: "int m \<le> max_vector_size (xctx s3)" "2 * m \<le> length (incoming (xnet s3))" using n same s3(3) by simp_all
  obtain s4 x where s4: "\<And>k. read_vectors net (int m * 2) s3 k = k s4" "xftdi s4 = xftdi s3" "sent (xnet s4) = sent (xnet s3)"
    "incoming (xnet s4) = drop (2 * m) (incoming (xnet s3))" "vector_buf (xctx s4) = Some (take (2 * m) (incoming (xnet s3)) @ x)"
    "jtag_st (xctx s4) = jtag_st (xctx s3)" "seen_tlr (xctx s4) = seen_tlr (xctx s3)" "max_vector_size (xctx s4) = max_vector_size (xctx s3)" "xvc_wf s4"
    "socket_fd (xctx s4) = socket_fd (xctx s3)" "rx_total incoming s4 = rx_total incoming s3"
    "bytes_tx (xctx s4) = bytes_tx (xctx s3)" "xvc_commands (xctx s4) = xvc_commands (xctx s3)"
    using read_vectors_ok[OF net s3(2) mm] by metis
  show thesis
    by (rule that[of s4 x]) (use s4 s3(3,4) n h mm(1) same in simp_all)
qed

lemma shift_command_ok:
  assumes net: "stream_net net incoming sent" and wf: "xvc_wf s" and ready: "ftdi_ready clk chip_of drv (xftdi s)"
    and msg: "incoming (xnet s) = chars ''shift:'' @ xvc_put_int32 (of_nat bits) @ tms @ tdi @ rest"
    and n: "length tms = (bits + 7) div 8" "length tdi = (bits + 7) div 8" "int ((bits + 7) div 8) \<le> max_vector_size (xctx s)"
    and bits: "0 < bits" "bits \<le> 524280" and nb: "\<not> bogus_move (jtag_st (xctx s)) (int bits) tms"
    and t0: "t0 = target (chip_of (mdev (mio (xftdi s))))" and tap: "tap = tap_state (mctx (mio (xftdi s)))"
    and w: "w = wire tms tdi tap (last_tdi (mctx (mio (xftdi s)))) bits"
  shows "\<exists>s'. handle_command net drv f s = Ret (None, s') \<and> incoming (xnet s') = rest \<and>
    sent (xnet s') = sent (xnet s) @ tdo_after tms tap (samples clk t0 w) (replicate ((bits + 7) div 8) 0) \<and>
    ftdi_ready clk chip_of drv (xftdi s') \<and> target (chip_of (mdev (mio (xftdi s')))) = run_target clk w t0 \<and>
    tap_state (mctx (mio (xftdi s'))) = state_at tms tap bits \<and> xvc_wf s' \<and>
    jtag_st (xctx s') = prot.run (jtag_st (xctx s)) (vec_bits tms bits) \<and>
    seen_tlr (xctx s') = seen_tlr (update_tlr (xctx s)) \<and>
    last_tdi (mctx (mio (xftdi s'))) = tdi_at tms tdi tap (last_tdi (mctx (mio (xftdi s)))) bits \<and>
    max_vector_size (xctx s') = max_vector_size (xctx s) \<and> socket_fd (xctx s') = socket_fd (xctx s) \<and>
    divisor (chip_of (mdev (mio (xftdi s')))) = divisor (chip_of (mdev (mio (xftdi s)))) \<and>
    bytes_rx (xctx s') = bytes_rx (xctx s) + of_nat (10 + 2 * ((bits + 7) div 8)) \<and>
    bytes_tx (xctx s') = bytes_tx (xctx s) + of_nat ((bits + 7) div 8) \<and> xvc_commands (xctx s') = xvc_commands (xctx s) + 1"
proof -
  define m where "m = (bits + 7) div 8"
  have lens: "length tms = m" "length tdi = m" "int m \<le> max_vector_size (xctx s)" using n by (simp_all add: m_def)
  obtain s4 x where s4: "handle_command net drv f s = shift_vectors net drv (int bits) (int m) s4"
    "vector_buf (xctx s4) = Some (tms @ tdi @ x)" "incoming (xnet s4) = rest" "sent (xnet s4) = sent (xnet s)" "xftdi s4 = xftdi s"
    "jtag_st (xctx s4) = jtag_st (xctx s)" "seen_tlr (xctx s4) = seen_tlr (xctx s)" "max_vector_size (xctx s4) = max_vector_size (xctx s)" "xvc_wf s4"
    "socket_fd (xctx s4) = socket_fd (xctx s)" "rx_total incoming s4 = rx_total incoming s"
    "bytes_tx (xctx s4) = bytes_tx (xctx s)" "xvc_commands (xctx s4) = xvc_commands (xctx s)"
    by (rule shift_received[OF net wf bits(2) m_def msg lens])
  have "tms \<noteq> []" using bits(1) n(1) by (cases tms) (auto simp: div_eq_0_iff)
  then have "(tms @ tdi @ x) ! 0 = tms ! 0" by (simp add: nth_append)
  then have nb4: "\<not> bogus_move (jtag_st (xctx s4)) (int bits) (tms @ tdi @ x)" using nb s4(6) by (simp add: bogus_move_def)
  have m4: "int m \<le> max_vector_size (xctx s4)" using lens(3) s4(8) by simp
  have "seen_tlr (update_tlr (xctx s4)) = seen_tlr (update_tlr (xctx s))" using s4(6,7) by (simp add: update_tlr_def)
  moreover have "bytes_rx (xctx s4) = bytes_rx (xctx s) + of_nat (10 + 2 * m)"
    using s4(11) unfolding rx_total_def msg s4(3) by (simp add: lens)
  ultimately show ?thesis
    using shift_vectors_ok[OF net s4(9) ready[folded s4(5)] s4(2) lens(1,2) m_def m4 bits nb4 t0[folded s4(5)] tap[folded s4(5)] w[folded s4(5)]]
      s4(1,3-8,10,12,13) by (simp only: m_def [symmetric]) blast
qed

text \<open>
  C11. \<open>shift:\<close> with a length of \<open>bits\<close> and the two vectors: the chain is clocked the reference
  cycles, the client receives the reference TDO vector (zero where the TAP did not shift), the TAP
  state the protocol layer tracks advances along the TMS bits, and the command and its bytes in both
  directions are counted. This is for lengths up to the vector size and at most 524280 bits, on a
  connection without errors, and for moves the handler does not suppress.
\<close>

theorem shift_reply:
  assumes net: "stream_net net incoming sent" and wf: "xvc_wf s" and ready: "ftdi_ready clk chip_of drv (xftdi s)"
    and msg: "incoming (xnet s) = chars ''shift:'' @ xvc_put_int32 (of_nat bits) @ tms @ tdi @ rest"
    and n: "length tms = (bits + 7) div 8" "length tdi = (bits + 7) div 8" "int ((bits + 7) div 8) \<le> max_vector_size (xctx s)"
    and bits: "0 < bits" "bits \<le> 524280" and nb: "\<not> bogus_move (jtag_st (xctx s)) (int bits) tms"
    and t0: "t0 = target (chip_of (mdev (mio (xftdi s))))" and tap: "tap = tap_state (mctx (mio (xftdi s)))"
    and w: "w = wire tms tdi tap (last_tdi (mctx (mio (xftdi s)))) bits"
  shows "\<exists>s'. handle_command net drv f s = Ret (None, s') \<and> incoming (xnet s') = rest \<and>
    sent (xnet s') = sent (xnet s) @ tdo_after tms tap (samples clk t0 w) (replicate ((bits + 7) div 8) 0) \<and>
    ftdi_ready clk chip_of drv (xftdi s') \<and> target (chip_of (mdev (mio (xftdi s')))) = run_target clk w t0 \<and>
    tap_state (mctx (mio (xftdi s'))) = state_at tms tap bits \<and> xvc_wf s' \<and>
    jtag_st (xctx s') = prot.run (jtag_st (xctx s)) (vec_bits tms bits) \<and>
    seen_tlr (xctx s') = seen_tlr (update_tlr (xctx s)) \<and>
    bytes_rx (xctx s') = bytes_rx (xctx s) + of_nat (10 + 2 * ((bits + 7) div 8)) \<and>
    bytes_tx (xctx s') = bytes_tx (xctx s) + of_nat ((bits + 7) div 8) \<and> xvc_commands (xctx s') = xvc_commands (xctx s) + 1"
  using shift_command_ok[OF assms, of f] by blast

section \<open>Any client\<close>

text \<open>
  Lengths the handler does not survive: \<open>len + 7\<close> overflows, or the byte count is negative and
  \<open>memset\<close> gets it as a huge size.
\<close>

definition bad_length :: "int \<Rightarrow> bool" where
  "bad_length l \<longleftrightarrow> l < -14 \<or> l > 2147483640"

definition shift_length_bad :: "u8 list \<Rightarrow> bool" where
  "shift_length_bad inc \<longleftrightarrow> take 2 inc = chars ''sh'' \<and>
     (\<exists>i \<in> {6, 7}. i + 4 \<le> length inc \<and> bad_length (sint (xvc_get_int32 (take 4 (drop i inc)))))"

text \<open>
  Lengths beyond what one scan of the adapter handles, of vectors that the configured size admits:
  nothing is said of them.
\<close>

definition long_length :: "int \<Rightarrow> int \<Rightarrow> bool" where
  "long_length limit l \<longleftrightarrow> l > 524280 \<and> c_div (l + 7) 8 \<le> limit"

definition shift_length_long :: "int \<Rightarrow> u8 list \<Rightarrow> bool" where
  "shift_length_long limit inc \<longleftrightarrow> take 2 inc = chars ''sh'' \<and>
     (\<exists>i \<in> {6, 7}. i + 4 \<le> length inc \<and> long_length limit (sint (xvc_get_int32 (take 4 (drop i inc)))))"

text \<open>How a command may end: the call returns, the loop goes on with less input, or the length was bad.\<close>

definition command_result ::
  "'t clocked \<Rightarrow> ('d \<Rightarrow> 't chip) \<Rightarrow> 'd ft_driver \<Rightarrow> ('n \<Rightarrow> u8 list) \<Rightarrow> ('n, 'd) xvc_io \<Rightarrow> bool \<Rightarrow> ('n, 'd) xvc_result \<Rightarrow> bool" where
  "command_result clk chip_of drv incoming s bad r \<longleftrightarrow>
     (\<exists>c s'. r = Ret (Some c, s')) \<or>
     (\<exists>s'. r = Ret (None, s') \<and> xvc_wf s' \<and> ftdi_ready clk chip_of drv (xftdi s') \<and>
        max_vector_size (xctx s') = max_vector_size (xctx s) \<and> length (incoming (xnet s')) \<le> length (incoming (xnet s))) \<or>
     (r = Undefined \<and> bad)"

lemma command_result_mono:
  assumes "command_result clk chip_of drv incoming s1 b r" "b \<longrightarrow> b'" "max_vector_size (xctx s1) = max_vector_size (xctx s)"
    "length (incoming (xnet s1)) \<le> length (incoming (xnet s))"
  shows "command_result clk chip_of drv incoming s b' r"
  using assms unfolding command_result_def by fastforce

lemma bogus_length: "bogus_move st len v \<Longrightarrow> 0 < len"
  by (auto simp: bogus_move_def)

lemma shift_vectors_empty:
  assumes wf: "xvc_wf s" and len: "len \<le> 0" "-14 \<le> len"
  shows "\<exists>s'. shift_vectors net drv len (c_div (len + 7) 8) s = Ret (Some (-1), s')"
proof -
  have n0: "c_div (len + 7) 8 = 0" using len by (auto simp: c_div_def)
  obtain vec res b where v: "vector_buf (xctx s) = Some vec" "result_buf (xctx s) = Some res" "xmem s res = Some b"
    using wf by (auto simp: xvc_wf_def)
  define s1 where "s1 = put_xmem ((xmem s)(res \<mapsto> b)) (s\<lparr>xctx := update_tlr (xctx s)\<rparr>)"
  obtain f' where "ftdi_adapter_scan drv vec vec res len (xftdi s1) = Ret (-1, f')"
    using len(1) by (cases "ftdi_is_open (fctx (xftdi s1))") (auto simp: ftdi_adapter_scan_def mpsse_adapter_scan_def on_mpsse_def)
  moreover have "mem_copy res 0 [] (xmem s) = Ret ((xmem s)(res \<mapsto> b))" using v(3) by (simp add: mem_copy_def)
  moreover have "\<not> bogus_move st len vec" for st using len(1) bogus_length[of st len vec] by linarith
  ultimately show ?thesis using v by (simp add: shift_vectors_def n0 Let_def s1_def [symmetric])
qed

lemma shift_vectors_any:
  assumes net: "stream_net net incoming sent" and wf: "xvc_wf s" and ready: "ftdi_ready clk chip_of drv (xftdi s)"
    and len: "-14 \<le> len" "c_div (len + 7) 8 \<le> max_vector_size (xctx s)" "len \<le> 524280"
  shows "command_result clk chip_of drv incoming s False (shift_vectors net drv len (c_div (len + 7) 8) s)"
proof (cases "0 < len")
  case False
  then have "len \<le> 0" by simp
  from shift_vectors_empty[OF wf this len(1), of net drv] show ?thesis by (auto simp: command_result_def)
next
  case True
  define bits where "bits = nat len"
  define n where "n = (bits + 7) div 8"
  have l: "len = int bits" "0 < bits" using True by (auto simp: bits_def)
  have n: "c_div (len + 7) 8 = int n" by (simp add: l(1) n_def zdiv_int)
  obtain vec where v: "vector_buf (xctx s) = Some vec" "length vec = 2 * nat (max_vector_size (xctx s))"
    using wf by (auto simp: xvc_wf_def)
  have nm: "int n \<le> max_vector_size (xctx s)" "2 * n \<le> length vec" using len(2) v by (auto simp: n)
  show ?thesis
  proof (cases "bogus_move (jtag_st (xctx s)) len vec")
    case False
    define tms tdi x where "tms = take n vec" and "tdi = take n (drop n vec)" and "x = drop (2 * n) vec"
    have vec: "vec = tms @ tdi @ x" by (simp add: tms_def tdi_def x_def flip: take_add drop_drop) (metis append_take_drop_id drop_drop mult_2)
    have lens: "length tms = n" "length tdi = n" using nm by (simp_all add: tms_def tdi_def)
    have "bits \<le> 524280" using len(3) l(1) by linarith
    from shift_vectors_ok[OF net wf ready v(1)[unfolded vec] lens n_def nm(1) l(2) this False[unfolded vec l(1)] refl refl refl]
    show ?thesis unfolding n unfolding l(1) command_result_def by auto
  next
    case True
    from bogus_vectors_ok[OF net wf ready v(1) nm(1) True] show ?thesis unfolding n command_result_def by auto
  qed
qed

lemma read_vectors_any:
  assumes net: "stream_net net incoming sent" and wf: "xvc_wf s" and ready: "ftdi_ready clk chip_of drv (xftdi s)"
    and len: "-14 \<le> len" "c_div (len + 7) 8 \<le> max_vector_size (xctx s)" "len \<le> 524280"
  shows "command_result clk chip_of drv incoming s False
    (read_vectors net (c_div (len + 7) 8 * 2) s (shift_vectors net drv len (c_div (len + 7) 8)))"
proof -
  have "0 \<le> c_div (len + 7) 8" using len(1) by (auto simp: c_div_def)
  then obtain n where n: "c_div (len + 7) 8 = int n" using nonneg_int_cases by blast
  show ?thesis
  proof (cases "2 * n \<le> length (incoming (xnet s))")
    case True
    have "int n \<le> max_vector_size (xctx s)" using len(2) n by simp
    then obtain s1 where s1: "\<And>k. read_vectors net (int n * 2) s k = k s1" "xftdi s1 = xftdi s"
      "incoming (xnet s1) = drop (2 * n) (incoming (xnet s))" "max_vector_size (xctx s1) = max_vector_size (xctx s)" "xvc_wf s1"
      using read_vectors_ok[OF net wf _ True] by metis
    have "command_result clk chip_of drv incoming s1 False (shift_vectors net drv len (c_div (len + 7) 8) s1)"
      using shift_vectors_any[OF net s1(5) _ len(1)] ready len s1 by simp
    then have "command_result clk chip_of drv incoming s False (shift_vectors net drv len (c_div (len + 7) 8) s1)"
      by (rule command_result_mono) (simp_all add: s1)
    then show ?thesis by (simp add: n s1(1))
  next
    case False
    have two: "nat (int n * 2) = 2 * n" by simp
    obtain vec where vec: "vector_buf (xctx s) = Some vec" "length vec = 2 * nat (max_vector_size (xctx s))" using wf by (auto simp: xvc_wf_def)
    obtain n' where n': "xvc_read_exact net (socket_fd (xctx s)) (int n * 2) [] (xnet s) = Ret (0, incoming (xnet s), n')"
      using read_exact_stream[OF net, of "int n * 2" "xnet s" "socket_fd (xctx s)" "[]"] False by (auto simp: two)
    have "length (incoming (xnet s)) \<le> length vec" using False len(2) vec(2) n by linarith
    then show ?thesis using n' vec(1) by (simp add: n read_vectors_def command_result_def Let_def)
  qed
qed

lemma negative_count:
  assumes "xvc_wf s" "n < 0"
  shows "read_vectors net (n * 2) s (shift_vectors net drv len n) = Undefined"
proof -
  obtain vec where "vector_buf (xctx s) = Some vec" using assms(1) by (auto simp: xvc_wf_def)
  moreover have "xvc_read_exact net fd (n * 2) [] m = Ret (1, [], m)" for fd m
    using assms(2) by (subst xvc_read_exact.simps) simp
  ultimately show ?thesis using assms(2) by (simp add: read_vectors_def shift_vectors_def Let_def)
qed

lemma shift_rest_any:
  assumes net: "stream_net net incoming sent" and wf: "xvc_wf s" and ready: "ftdi_ready clk chip_of drv (xftdi s)"
    and short: "\<not> (4 \<le> length (incoming (xnet s)) \<and> long_length (max_vector_size (xctx s)) (sint (xvc_get_int32 (take 4 (incoming (xnet s))))))"
  shows "command_result clk chip_of drv incoming s
    (4 \<le> length (incoming (xnet s)) \<and> bad_length (sint (xvc_get_int32 (take 4 (incoming (xnet s)))))) (shift_rest net drv s)"
proof (cases "4 \<le> length (incoming (xnet s))")
  case False
  then show ?thesis
    using read_cmd_short[OF net False] unfolding shift_rest_def command_result_def by blast
next
  case True
  have "6 + 4 \<le> length (cmd_buf (xctx s))" using wf by (simp add: xvc_wf_def)
  then obtain s3 where s3: "\<And>k. read_cmd net 6 4 s k = k s3" "after_read sent s s3" "incoming (xnet s3) = drop 4 (incoming (xnet s))"
    "cmd_buf (xctx s3) = take 6 (cmd_buf (xctx s)) @ take 4 (incoming (xnet s)) @ drop 10 (cmd_buf (xctx s))"
    using read_cmd_ok[OF net True, of 6] by auto
  define len where "len = sint (xvc_get_int32 (take 4 (incoming (xnet s))))"
  have "length (take 6 (cmd_buf (xctx s))) = 6" using wf by (simp add: xvc_wf_def)
  then have len: "sint (xvc_get_int32 (drop 6 (cmd_buf (xctx s3)))) = len"
    unfolding s3(4) len_def using True by (simp add: get_int32_append)
  have wf3: "xvc_wf s3" by (rule wf_after_read[OF s3(2) wf])
  note same = after_readD[OF s3(2)]
  show ?thesis
  proof (cases "bad_length len \<or> c_div (len + 7) 8 > max_vector_size (xctx s3)")
    case True
    have neg: "shift_rest net drv s = Undefined" if "len < -14"
    proof -
      have "c_div (len + 7) 8 < 0" using that by (simp add: c_div_def)
      then show ?thesis using that negative_count[OF wf3] wf3 by (simp add: shift_rest_def s3(1) Let_def len xvc_wf_def)
    qed
    show ?thesis
    proof (cases "bad_length len")
      case bad: True
      then have "shift_rest net drv s = Undefined"
        using neg by (cases "len < -14") (simp_all add: shift_rest_def s3(1) Let_def len bad_length_def)
      then show ?thesis using bad \<open>4 \<le> length (incoming (xnet s))\<close> by (simp add: command_result_def len_def)
    next
      case False
      then have "\<not> len + 7 \<ge> 2 ^ 31" by (simp add: bad_length_def)
      then show ?thesis using False True by (simp add: shift_rest_def s3(1) Let_def len command_result_def)
    qed
  next
    case False
    then have "len \<le> 524280" using short True same(5) by (auto simp: long_length_def len_def)
    with False have "command_result clk chip_of drv incoming s3 False (shift_rest net drv s)"
      using read_vectors_any[OF net wf3, of clk chip_of drv len] ready same
      by (simp add: shift_rest_def s3(1) Let_def len bad_length_def)
    then show ?thesis by (rule command_result_mono) (simp_all add: same s3(3))
  qed
qed

lemma old_shift_any:
  assumes net: "stream_net net incoming sent" and wf: "xvc_wf s1" and ready: "ftdi_ready clk chip_of drv (xftdi s1)"
    and short: "\<not> (5 \<le> length (incoming (xnet s1)) \<and> long_length (max_vector_size (xctx s1)) (sint (xvc_get_int32 (take 4 (drop 1 (incoming (xnet s1)))))))"
  shows "command_result clk chip_of drv incoming s1
    (5 \<le> length (incoming (xnet s1)) \<and> bad_length (sint (xvc_get_int32 (take 4 (drop 1 (incoming (xnet s1)))))))
    (bind_out (xvc_read_exact net (socket_fd (xctx s1)) 1 [] (xnet s1)) (\<lambda>(r, colon, n1).
       if r \<noteq> 1 then Ret (Some 1, s1\<lparr>xnet := n1\<rparr>)
       else shift_rest net drv (s1\<lparr>xctx := (xctx s1)\<lparr>bytes_rx := bytes_rx (xctx s1) + 1\<rparr>, xnet := n1\<rparr>)))"
proof -
  obtain n1 where n1: "incoming n1 = drop 1 (incoming (xnet s1))" "sent n1 = sent (xnet s1)"
    "xvc_read_exact net (socket_fd (xctx s1)) 1 [] (xnet s1) = Ret (if 1 \<le> length (incoming (xnet s1)) then 1 else 0, take 1 (incoming (xnet s1)), n1)"
    using read_exact_stream[OF net, of 1 "xnet s1" "socket_fd (xctx s1)" "[]"] by auto
  define s2 where "s2 = s1\<lparr>xctx := (xctx s1)\<lparr>bytes_rx := bytes_rx (xctx s1) + 1\<rparr>, xnet := n1\<rparr>"
  have wf2: "xvc_wf s2" "xftdi s2 = xftdi s1" "max_vector_size (xctx s2) = max_vector_size (xctx s1)" "incoming (xnet s2) = drop 1 (incoming (xnet s1))"
    using wf n1(1) by (simp_all add: xvc_wf_def s2_def)
  have "command_result clk chip_of drv incoming s2 (4 \<le> length (incoming (xnet s2)) \<and>
      bad_length (sint (xvc_get_int32 (take 4 (incoming (xnet s2)))))) (shift_rest net drv s2)"
    using shift_rest_any[OF net wf2(1)] ready short wf2 by simp
  then have res: "command_result clk chip_of drv incoming s1 (5 \<le> length (incoming (xnet s1)) \<and>
      bad_length (sint (xvc_get_int32 (take 4 (drop 1 (incoming (xnet s1))))))) (shift_rest net drv s2)"
    by (rule command_result_mono) (auto simp: wf2)
  show ?thesis
  proof (cases "1 \<le> length (incoming (xnet s1))")
    case True
    then show ?thesis using res by (simp add: n1(3) s2_def)
  next
    case False
    then show ?thesis by (simp add: n1(3) command_result_def)
  qed
qed

lemma shift_any:
  assumes net: "stream_net net incoming sent" and wf: "xvc_wf s" and ready: "ftdi_ready clk chip_of drv (xftdi s)"
    and short: "\<not> (\<exists>i \<in> {4, 5}. i + 4 \<le> length (incoming (xnet s)) \<and>
      long_length (max_vector_size (xctx s)) (sint (xvc_get_int32 (take 4 (drop i (incoming (xnet s)))))))"
  shows "command_result clk chip_of drv incoming s
    (\<exists>i \<in> {4, 5}. i + 4 \<le> length (incoming (xnet s)) \<and> bad_length (sint (xvc_get_int32 (take 4 (drop i (incoming (xnet s)))))))
    (handle_shift net drv s)"
proof (cases "4 \<le> length (incoming (xnet s))")
  case False
  then show ?thesis using read_cmd_short[OF net False] unfolding handle_shift_def command_result_def by blast
next
  case True
  have "2 + 4 \<le> length (cmd_buf (xctx s))" using wf by (simp add: xvc_wf_def)
  then obtain s1 where s1: "\<And>k. read_cmd net 2 4 s k = k s1" "after_read sent s s1" "incoming (xnet s1) = drop 4 (incoming (xnet s))"
    using read_cmd_ok[OF net True, of 2] by metis
  define old where "old = (cmd_buf (xctx s1) ! 4 = of_char (CHR ''e'') \<or> cmd_buf (xctx s1) ! 4 = of_char (CHR ''E''))"
  have wf1: "xvc_wf s1" by (rule wf_after_read[OF s1(2) wf])
  note same = after_readD[OF s1(2)]
  have hs: "handle_shift net drv s = (if old then bind_out (xvc_read_exact net (socket_fd (xctx s1)) 1 [] (xnet s1)) (\<lambda>(r, colon, n1).
       if r \<noteq> 1 then Ret (Some 1, s1\<lparr>xnet := n1\<rparr>)
       else shift_rest net drv (s1\<lparr>xctx := (xctx s1)\<lparr>bytes_rx := bytes_rx (xctx s1) + 1\<rparr>, xnet := n1\<rparr>)) else shift_rest net drv s1)"
    unfolding handle_shift_def s1(1) old_def ..
  show ?thesis
  proof (cases old)
    case False
    have "command_result clk chip_of drv incoming s1 (4 \<le> length (incoming (xnet s1)) \<and>
        bad_length (sint (xvc_get_int32 (take 4 (incoming (xnet s1)))))) (shift_rest net drv s1)"
      using shift_rest_any[OF net wf1] ready short same s1(3) by simp
    then show ?thesis unfolding hs using False by (auto elim!: command_result_mono simp: same s1(3))
  next
    case True
    have "xvc_wf s1" "ftdi_ready clk chip_of drv (xftdi s1)" "\<not> (5 \<le> length (incoming (xnet s1)) \<and> long_length (max_vector_size (xctx s1)) (sint (xvc_get_int32 (take 4 (drop 1 (incoming (xnet s1)))))))"
      using wf1 ready short same s1(3) by simp_all
    from old_shift_any[OF net this] show ?thesis
      unfolding hs using True by (auto elim!: command_result_mono simp: same s1(3))
  qed
qed

lemma getinfo_any:
  assumes net: "stream_net net incoming sent" and wf: "xvc_wf s"
  shows "\<exists>c s'. handle_getinfo net s = Ret (Some c, s')"
proof (cases "6 \<le> length (incoming (xnet s))")
  case False
  then show ?thesis using read_cmd_short[OF net False] unfolding handle_getinfo_def by blast
next
  case True
  obtain s1 where s1: "\<And>k. read_cmd net 2 6 s k = k s1" using read_cmd_ok[OF net True, of 2] wf by (auto simp: xvc_wf_def)
  obtain n1 where "\<And>k. send_reply net (xvc_info (xctx s1)) s1 k = k (replied (xvc_info (xctx s1)) s1 n1)"
    using send_reply_ok[OF net, of "xvc_info (xctx s1)" s1] by metis
  then show ?thesis by (simp add: handle_getinfo_def s1)
qed

lemma settck_any:
  assumes net: "stream_net net incoming sent" and wf: "xvc_wf s" and ready: "ftdi_ready clk chip_of drv (xftdi s)"
  shows "\<exists>c s'. handle_settck net drv f s = Ret (Some c, s')"
proof (cases "9 \<le> length (incoming (xnet s))")
  case False
  then show ?thesis using read_cmd_short[OF net False] unfolding handle_settck_def by blast
next
  case True
  obtain s1 where s1: "\<And>k. read_cmd net 2 9 s k = k s1" "after_read sent s s1"
    using read_cmd_ok[OF net True, of 2] wf by (auto simp: xvc_wf_def)
  have "ftdi_ready clk chip_of drv (xftdi s1)" using ready after_readD(1)[OF s1(2)] by simp
  from settck_apply_ok[OF net wf_after_read[OF s1(2) wf] this refl] show ?thesis
    unfolding handle_settck_def s1(1) by blast
qed

lemma command_any:
  assumes net: "stream_net net incoming sent" and wf: "xvc_wf s" and ready: "ftdi_ready clk chip_of drv (xftdi s)"
    and short: "\<not> shift_length_long (max_vector_size (xctx s)) (incoming (xnet s))"
  shows "(\<exists>c s'. handle_command net drv f s = Ret (Some c, s')) \<or>
    (\<exists>s'. handle_command net drv f s = Ret (None, s') \<and> xvc_wf s' \<and> ftdi_ready clk chip_of drv (xftdi s') \<and>
       max_vector_size (xctx s') = max_vector_size (xctx s) \<and> length (incoming (xnet s')) < length (incoming (xnet s))) \<or>
    handle_command net drv f s = Undefined \<and> shift_length_bad (incoming (xnet s))"
proof (cases "2 \<le> length (incoming (xnet s))")
  case False
  then show ?thesis using read_cmd_short[OF net False] unfolding handle_command_def by blast
next
  case True
  then obtain a b rest where inc: "incoming (xnet s) = [a, b] @ rest"
    by (cases "incoming (xnet s)" rule: list.exhaust; cases "tl (incoming (xnet s))" rule: list.exhaust) auto
  obtain s1 where s1: "after_read sent s s1" "incoming (xnet s1) = rest" "xvc_wf s1"
    "handle_command net drv f s = (if [a, b] = chars ''ge'' then handle_getinfo net s1
       else if [a, b] = chars ''se'' then handle_settck net drv f s1
       else if [a, b] = chars ''sh'' then handle_shift net drv s1 else Ret (Some (-1), s1))"
    using dispatch[OF net wf inc] by metis
  note same = after_readD[OF s1(1)]
  have info: "\<exists>c s'. handle_getinfo net s1 = Ret (Some c, s')" by (rule getinfo_any[OF net s1(3)])
  have tck: "\<exists>c s'. handle_settck net drv f s1 = Ret (Some c, s')"
    using settck_any[OF net s1(3)] ready same(1) by simp
  have "command_result clk chip_of drv incoming s1 (\<exists>i \<in> {4, 5}. i + 4 \<le> length rest \<and>
      bad_length (sint (xvc_get_int32 (take 4 (drop i rest))))) (handle_shift net drv s1)"
    if "[a, b] = chars ''sh''"
    using shift_any[OF net s1(3), of clk chip_of drv] ready short[unfolded shift_length_long_def inc] same s1(2) that by auto
  then show ?thesis
    using info tck unfolding s1(4) command_result_def shift_length_bad_def inc by (auto simp: s1(2) same)
qed


lemma xvc_init_wf:
  assumes "malloc_ok mal" "xvc_init mal fd size0 s = (0, s1)" "4 \<le> clamp_vector_size size0"
  shows "xvc_wf s1 \<and> max_vector_size (xctx s1) = clamp_vector_size size0 \<and> xnet s1 = xnet s \<and>
    (\<exists>m. xftdi s1 = put_mem m (xftdi s)) \<and> jtag_st (xctx s1) = JTAG_TEST_LOGIC_RESET"
proof -
  define n where "n = nat (clamp_vector_size size0)"
  obtain a vec res b where m: "mal (xmem s) (n * 2) = Some (a, vec)" "mal (xmem s) n = Some (res, b)"
    and s1: "s1 = put_xmem ((xmem s)(res \<mapsto> b)) (s\<lparr>xctx := (xvc_zero fd (clamp_vector_size size0))\<lparr>vector_buf := Some vec, result_buf := Some res\<rparr>\<rparr>)"
    using assms(2) by (auto simp: xvc_init_def Let_def n_def split: option.splits prod.splits)
  have "length vec = n * 2" "length b = n" using assms(1) m by (auto simp: malloc_ok_def)
  moreover have "clamp_vector_size size0 \<le> 262144" by (simp add: clamp_vector_size_def XVC_DEFAULT_MAX_VECTOR_SIZE_def XVC_MAX_VECTOR_SIZE_LIMIT_def)
  ultimately show ?thesis using assms(3)
    by (auto simp: s1 xvc_wf_def put_xmem_def put_mem_def xvc_zero_def n_def)
qed

end
