(* ===== verification/Xvc_Refinement.thy ===== *)
theory Xvc_Refinement
  imports Xvc_Session
begin

text \<open>
  A whole session against an abstract server: the reference holds the JTAG chain, the state of
  its TAP, the level of TDI, the divisor of the clock and the two variables by which the handler
  decides to return to the connection loop. It consumes commands and produces replies without
  buffers, blocks or command streams. The handler refines it on every sequence of commands.
\<close>

section \<open>The abstract server\<close>

datatype xvc_cmd = Getinfo | Settck i32 | Shift nat "u8 list" "u8 list"

fun cmd_bytes :: "xvc_cmd \<Rightarrow> u8 list" where
  "cmd_bytes Getinfo = chars ''getinfo:''"
| "cmd_bytes (Settck period) = chars ''settck:'' @ xvc_put_int32 period"
| "cmd_bytes (Shift bits tms tdi) = chars ''shift:'' @ xvc_put_int32 (of_nat bits) @ tms @ tdi"

fun valid_cmd :: "int \<Rightarrow> xvc_cmd \<Rightarrow> bool" where
  "valid_cmd limit (Shift bits tms tdi) \<longleftrightarrow> 0 < bits \<and> bits \<le> 524280 \<and> int ((bits + 7) div 8) \<le> limit \<and>
     length tms = (bits + 7) div 8 \<and> length tdi = (bits + 7) div 8"
| "valid_cmd limit _ \<longleftrightarrow> True"

record 't server =
  chain :: 't
  chain_tap :: jtag_state
  tdi_level :: bool
  clock_div :: nat
  tracked :: jtag_state_t
  tlr_seen :: bool

text \<open>The two moves the handler takes for artefacts of the client clock nothing.\<close>

definition serve_shift :: "'t clocked \<Rightarrow> nat \<Rightarrow> u8 list \<Rightarrow> u8 list \<Rightarrow> 't server \<Rightarrow> u8 list \<times> 't server" where
  "serve_shift clk bits tms tdi r =
    (let n = (bits + 7) div 8;
         seen = ((tlr_seen r \<or> tracked r = JTAG_TEST_LOGIC_RESET) \<and> tracked r \<noteq> JTAG_CAPTURE_DR \<and> tracked r \<noteq> JTAG_CAPTURE_IR);
         w = wire tms tdi (chain_tap r) (tdi_level r) bits
     in if bogus_move (tracked r) (int bits) tms then (replicate n 0, r\<lparr>tlr_seen := seen\<rparr>)
        else (tdo_after tms (chain_tap r) (samples clk (chain r) w) (replicate n 0),
              r\<lparr>chain := run_target clk w (chain r), chain_tap := state_at tms (chain_tap r) bits,
                tdi_level := tdi_at tms tdi (chain_tap r) (tdi_level r) bits,
                tracked := prot.run (tracked r) (vec_bits tms bits), tlr_seen := seen\<rparr>))"

text \<open>
  The rate a client gets: the configured one if there is one, otherwise what it asks for; the
  answer is the period of the divisor set.
\<close>

definition wanted_div :: "u32 \<Rightarrow> i32 \<Rightarrow> nat" where
  "wanted_div freq p =
    (let period = (if freq = 0 then p else 1000000000 div freq)
     in tck_divisor (1000000000 div unat (if period = 0 then 100 else period)))"

definition actual_period :: "nat \<Rightarrow> i32" where
  "actual_period d = of_int (1000000000 div int (tck_actual d))"

fun serve :: "'t clocked \<Rightarrow> int \<Rightarrow> u32 \<Rightarrow> xvc_cmd \<Rightarrow> 't server \<Rightarrow> u8 list \<times> 't server" where
  "serve clk limit freq Getinfo r = (chars ''xvcServer_v1.0:'' @ chars (show_int limit) @ [10], r)"
| "serve clk limit freq (Settck p) r = (xvc_put_int32 (actual_period (wanted_div freq p)), r\<lparr>clock_div := wanted_div freq p\<rparr>)"
| "serve clk limit freq (Shift bits tms tdi) r = serve_shift clk bits tms tdi r"

definition idle :: "'t server \<Rightarrow> bool" where
  "idle r \<longleftrightarrow> tlr_seen r \<and> tracked r = JTAG_RUN_TEST_IDLE"

text \<open>Whether a call of the handler ends with the command that led to \<open>r\<close>.\<close>

fun ends_call :: "xvc_cmd \<Rightarrow> 't server \<Rightarrow> bool" where
  "ends_call (Shift _ _ _) r = idle r"
| "ends_call _ r = True"

text \<open>
  A call of the handler: the return code (0 to be called again, 1 when the client is gone), the
  replies, the commands left for the next call and the server.
\<close>

fun session :: "'t clocked \<Rightarrow> int \<Rightarrow> u32 \<Rightarrow> xvc_cmd list \<Rightarrow> 't server \<Rightarrow> int \<times> u8 list \<times> xvc_cmd list \<times> 't server" where
  "session clk limit freq [] r = (1, [], [], r)"
| "session clk limit freq (c # cs) r =
    (case serve clk limit freq c r of (reply, r1) \<Rightarrow>
     if ends_call c r1 then (0, reply, cs, r1)
     else case session clk limit freq cs r1 of (code, replies, rest, r2) \<Rightarrow> (code, reply @ replies, rest, r2))"

definition server_of :: "('d \<Rightarrow> 't chip) \<Rightarrow> ('n, 'd) xvc_io \<Rightarrow> 't server" where
  "server_of chip_of s = \<lparr>chain = target (chip_of (mdev (mio (xftdi s)))), chain_tap = tap_state (mctx (mio (xftdi s))),
     tdi_level = last_tdi (mctx (mio (xftdi s))), clock_div = divisor (chip_of (mdev (mio (xftdi s)))),
     tracked = jtag_st (xctx s), tlr_seen = seen_tlr (xctx s)\<rparr>"

section \<open>One command\<close>

text \<open>What the handler has answered, left unread and become, compared with the reference.\<close>

definition refines ::
  "'t clocked \<Rightarrow> ('d \<Rightarrow> 't chip) \<Rightarrow> 'd ft_driver \<Rightarrow> ('n \<Rightarrow> u8 list) \<Rightarrow> ('n \<Rightarrow> u8 list) \<Rightarrow> ('n, 'd) xvc_io \<Rightarrow>
   u8 list \<Rightarrow> u8 list \<Rightarrow> 't server \<Rightarrow> ('n, 'd) xvc_io \<Rightarrow> bool" where
  "refines clk chip_of drv incoming sent s replies rest r s' \<longleftrightarrow>
     sent (xnet s') = sent (xnet s) @ replies \<and> incoming (xnet s') = rest \<and>
     server_of chip_of s' = r \<and> ftdi_ready clk chip_of drv (xftdi s') \<and> xvc_wf s' \<and>
     max_vector_size (xctx s') = max_vector_size (xctx s) \<and> socket_fd (xctx s') = socket_fd (xctx s)"

lemma refines_trans:
  "refines clk chip_of drv incoming sent s a x r1 s1 \<Longrightarrow> refines clk chip_of drv incoming sent s1 b y r2 s2 \<Longrightarrow>
   refines clk chip_of drv incoming sent s (a @ b) y r2 s2"
  by (simp add: refines_def)

lemma shift_refines:
  assumes net: "stream_net net incoming sent" and wf: "xvc_wf s" and ready: "ftdi_ready clk chip_of drv (xftdi s)"
    and c: "valid_cmd (max_vector_size (xctx s)) (Shift bits tms tdi)" and msg: "incoming (xnet s) = cmd_bytes (Shift bits tms tdi) @ rest"
    and r: "serve_shift clk bits tms tdi (server_of chip_of s) = (reply, r1)"
  shows "\<exists>s'. handle_command net drv f s = Ret (None, s') \<and> refines clk chip_of drv incoming sent s reply rest r1 s'"
proof -
  define m where "m = (bits + 7) div 8"
  have msg: "incoming (xnet s) = chars ''shift:'' @ xvc_put_int32 (of_nat bits) @ tms @ tdi @ rest" using msg by simp
  have v: "0 < bits" "bits \<le> 524280" "length tms = m" "length tdi = m" "int m \<le> max_vector_size (xctx s)"
    using c by (simp_all add: m_def)
  have tr: "tracked (server_of chip_of s) = jtag_st (xctx s)" by (simp add: server_of_def)
  show ?thesis
  proof (cases "bogus_move (jtag_st (xctx s)) (int bits) tms")
    case False
    from shift_command_ok[OF net wf ready msg v(3,4)[unfolded m_def] v(5)[unfolded m_def] v(1,2) False refl refl refl, of f]
    show ?thesis using r False by (auto simp: serve_shift_def refines_def tr Let_def m_def server_of_def update_tlr_def)
  next
    case True
    obtain s4 x where s4: "handle_command net drv f s = shift_vectors net drv (int bits) (int m) s4"
      "vector_buf (xctx s4) = Some (tms @ tdi @ x)" "incoming (xnet s4) = rest" "sent (xnet s4) = sent (xnet s)" "xftdi s4 = xftdi s"
      "jtag_st (xctx s4) = jtag_st (xctx s)" "seen_tlr (xctx s4) = seen_tlr (xctx s)" "max_vector_size (xctx s4) = max_vector_size (xctx s)" "xvc_wf s4"
      "socket_fd (xctx s4) = socket_fd (xctx s)"
      by (rule shift_received[OF net wf v(2) m_def msg v(3-5)])
    have "tms \<noteq> []" using v(1,3) by (cases tms) (auto simp: div_eq_0_iff m_def)
    then have "(tms @ tdi @ x) ! 0 = tms ! 0" by (simp add: nth_append)
    then have b: "bogus_move (jtag_st (xctx s4)) (int bits) (tms @ tdi @ x)" using True s4(6) by (simp add: bogus_move_def)
    have "int m \<le> max_vector_size (xctx s4)" "ftdi_ready clk chip_of drv (xftdi s4)" using v(5) s4(5,8) ready by simp_all
    from bogus_vectors_ok[OF net s4(9) this(2) s4(2) this(1) b] s4(1,3-8,10) r True
    show ?thesis by (auto simp: serve_shift_def refines_def tr Let_def m_def server_of_def update_tlr_def put_mem_def)
  qed
qed

text \<open>One command of any kind; \<open>getinfo:\<close> and \<open>settck:\<close> leave the loop, a shift reaches its condition.\<close>

lemma serve_refines:
  assumes net: "stream_net net incoming sent" and wf: "xvc_wf s" and ready: "ftdi_ready clk chip_of drv (xftdi s)"
    and c: "valid_cmd (max_vector_size (xctx s)) c" and msg: "incoming (xnet s) = cmd_bytes c @ rest"
    and r: "serve clk (max_vector_size (xctx s)) f c (server_of chip_of s) = (reply, r1)"
  shows "\<exists>s'. handle_command net drv f s = Ret (case c of Shift _ _ _ \<Rightarrow> None | _ \<Rightarrow> Some 0, s') \<and>
    refines clk chip_of drv incoming sent s reply rest r1 s'"
proof (cases c)
  case Getinfo
  from getinfo_ok[OF net wf, of rest drv f] ready r msg show ?thesis
    by (auto simp: Getinfo refines_def server_of_def)
next
  case (Settck p)
  have p: "(if f = 0 then xvc_get_int32 (xvc_put_int32 p) else 1000000000 div f) = (if f = 0 then p else 1000000000 div f)"
    by (simp add: get_put_int32)
  from settck_ok[OF net wf ready _ length_put_int32 p[symmetric] refl, of rest] r msg show ?thesis
    by (auto simp: Settck refines_def server_of_def wanted_div_def actual_period_def Let_def)
next
  case (Shift bits tms tdi)
  with shift_refines[OF net wf ready, of bits tms tdi rest reply r1 f] c msg r show ?thesis by simp
qed

section \<open>A session\<close>

lemma client_gone:
  assumes net: "stream_net net incoming sent" and e: "incoming (xnet s) = []" and wf: "xvc_wf s" and ready: "ftdi_ready clk chip_of drv (xftdi s)"
  shows "\<exists>s'. handle_command net drv f s = Ret (Some 1, s') \<and> refines clk chip_of drv incoming sent s [] [] (server_of chip_of s) s'"
proof -
  obtain n' where n': "sent n' = sent (xnet s)" "incoming n' = []"
    "xvc_read_exact net (socket_fd (xctx s)) 2 [] (xnet s) = Ret (0, [], n')"
    using read_exact_stream[OF net, of 2 "xnet s" "socket_fd (xctx s)" "[]"] e by auto
  have "handle_command net drv f s = Ret (Some 1, s\<lparr>xnet := n'\<rparr>)"
    using n'(3) by (simp add: handle_command_def read_cmd_def)
  moreover have "refines clk chip_of drv incoming sent s [] [] (server_of chip_of s) (s\<lparr>xnet := n'\<rparr>)"
    using n' wf ready by (simp add: refines_def server_of_def xvc_wf_def)
  ultimately show ?thesis by blast
qed

lemma session_loop:
  assumes net: "stream_net net incoming sent"
  shows "xvc_wf s \<Longrightarrow> ftdi_ready clk chip_of drv (xftdi s) \<Longrightarrow> list_all (valid_cmd (max_vector_size (xctx s))) cs \<Longrightarrow>
    incoming (xnet s) = concat (map cmd_bytes cs) \<Longrightarrow>
    session clk (max_vector_size (xctx s)) f cs (server_of chip_of s) = (code, replies, rest, r) \<Longrightarrow>
    \<exists>s'. command_loop net drv f s = Some (Ret (code, s')) \<and>
      refines clk chip_of drv incoming sent s replies (concat (map cmd_bytes rest)) r s'"
proof (induction cs arbitrary: s replies)
  case Nil
  from client_gone[OF net _ Nil(1,2), of f] Nil(4,5) show ?case by (auto simp: command_loop.simps[of net drv f s])
next
  case (Cons c cs)
  obtain reply r1 where v: "serve clk (max_vector_size (xctx s)) f c (server_of chip_of s) = (reply, r1)" by fastforce
  obtain s1 where s1: "handle_command net drv f s = Ret (case c of Shift _ _ _ \<Rightarrow> None | _ \<Rightarrow> Some 0, s1)"
    "refines clk chip_of drv incoming sent s reply (concat (map cmd_bytes cs)) r1 s1"
    using serve_refines[OF net Cons.prems(1,2) _ _ v, of "concat (map cmd_bytes cs)"] Cons.prems(3,4) by auto
  then have "idle r1 \<longleftrightarrow> seen_tlr (xctx s1) \<and> jtag_st (xctx s1) = JTAG_RUN_TEST_IDLE"
    by (auto simp: idle_def server_of_def refines_def)
  then have l: "command_loop net drv f s = (if ends_call c r1 then Some (Ret (0, s1)) else command_loop net drv f s1)"
    by (cases c) (simp_all add: command_loop.simps[of net drv f s] s1(1))
  show ?case
  proof (cases "ends_call c r1")
    case True
    then show ?thesis using Cons.prems(5) v l s1 by auto
  next
    case False
    have m: "max_vector_size (xctx s1) = max_vector_size (xctx s)" using s1(2) by (simp add: refines_def)
    obtain replies1 where 1: "session clk (max_vector_size (xctx s1)) f cs (server_of chip_of s1) = (code, replies1, rest, r)" "replies = reply @ replies1"
      using Cons.prems(5) v s1(2) False m by (auto simp: refines_def split: prod.splits)
    have "list_all (valid_cmd (max_vector_size (xctx s1))) cs" "xvc_wf s1" "ftdi_ready clk chip_of drv (xftdi s1)"
      "incoming (xnet s1) = concat (map cmd_bytes cs)"
      using Cons.prems(3) s1(2) m by (simp_all add: refines_def)
    from Cons.IH[OF this(2,3,1,4) 1(1)] show ?thesis using l False s1(2) 1(2) by (auto intro: refines_trans)
  qed
qed

lemma handle_session:
  assumes "stream_net net incoming sent" "xvc_wf s" "ftdi_ready clk chip_of drv (xftdi s)" "socket_fd (xctx s) = fd"
    "list_all (valid_cmd (max_vector_size (xctx s))) cs" "incoming (xnet s) = concat (map cmd_bytes cs)"
    "session clk (max_vector_size (xctx s)) f cs (server_of chip_of s) = (code, replies, rest, r)"
  shows "\<exists>s'. xvc_handle mal net drv fd size0 f s = Ret (code, s') \<and>
    refines clk chip_of drv incoming sent s replies (concat (map cmd_bytes rest)) r s'"
proof -
  have "vector_buf (xctx s) \<noteq> None" using assms(2) by (auto simp: xvc_wf_def)
  then show ?thesis using session_loop[OF assms(1-3,5-7)] assms(4) by (auto simp: xvc_handle_def)
qed

text \<open>
  C3. A whole call of the protocol handler on an open connection refines the abstract server:
  for every sequence of \<open>getinfo:\<close>, \<open>settck:\<close> and valid shift commands that the client sends
  before it closes the connection, the call returns, with 0 after \<open>getinfo:\<close> and \<open>settck:\<close> and as
  soon as the TAP is back in Run-Test/Idle after a reset, and with 1 if the client is gone first;
  the bytes sent are the reference's replies in order, the commands after the one that ended the
  call are still unread, and the chain, its TAP, the TDI level, the clock divisor and the tracked
  state are the reference's.
\<close>

theorem session_refines:
  assumes "stream_net net incoming sent" "xvc_wf s" "ftdi_ready clk chip_of drv (xftdi s)" "socket_fd (xctx s) = fd"
    "list_all (valid_cmd (max_vector_size (xctx s))) cs" "incoming (xnet s) = concat (map cmd_bytes cs)"
    "session clk (max_vector_size (xctx s)) f cs (server_of chip_of s) = (code, replies, rest, r)"
  shows "\<exists>s'. xvc_handle mal net drv fd size0 f s = Ret (code, s') \<and>
    refines clk chip_of drv incoming sent s replies (concat (map cmd_bytes rest)) r s'"
  by (rule handle_session[OF assms])

end
