(* ===== verification/Mpsse_Bounds.thy ===== *)
theory Mpsse_Bounds
  imports Mpsse_Scan
begin

text \<open>
  Memory safety of the command buffer over a whole scan, for any driver: the invariant
  \<open>mpsse_wf\<close> is kept by every segment, round and error path of \<open>mpsse_adapter_scan\<close>.
\<close>

section \<open>The buffers stay within bounds\<close>

text \<open>Whatever the driver does: sizes, offsets and the pool level of the context, over a whole scan.\<close>

definition in_bounds :: "'d mpsse_io \<Rightarrow> 'd mpsse_io \<Rightarrow> bool" where
  "in_bounds io io' \<longleftrightarrow> (mpsse_wf (mctx io) \<longrightarrow> mpsse_wf (mctx io') \<and> chip_buffer_size (mctx io') = chip_buffer_size (mctx io) \<and>
     max_tx_buffer_bytes (mctx io') = max_tx_buffer_bytes (mctx io) \<and> max_rx_buffer_bytes (mctx io') = max_rx_buffer_bytes (mctx io))"

lemma in_bounds_refl [simp]: "in_bounds io io"
  by (simp add: in_bounds_def)

lemma in_bounds_trans: "in_bounds io io1 \<Longrightarrow> in_bounds io1 io2 \<Longrightarrow> in_bounds io io2"
  by (auto simp: in_bounds_def)

lemma in_bounds_last_tdi [simp]: "in_bounds io (io\<lparr>mctx := (mctx io)\<lparr>last_tdi := v\<rparr>\<rparr>)"
  by (simp add: in_bounds_def mpsse_wf_def)

lemma keeps_in_bounds: "keeps f \<Longrightarrow> f io = Ret (code, io') \<Longrightarrow> in_bounds io io'"
  using keepsD[of f io code io'] by (auto simp: in_bounds_def cfg_def)

lemma ok_then_RetE:
  assumes "ok_then r f = Ret (code, s')"
  obtains c s where "r = Ret (c, s)" "c < 0" "s' = s" | c s where "r = Ret (c, s)" "f s = Ret (code, s')"
  using assms by (cases r) (auto split: if_splits)

lemma carry_RetD: "carry x r = Ret (code, y, io) \<Longrightarrow> r = Ret (code, io)"
  by (cases r) (auto simp: carry_def)

definition steps_in_bounds :: "('a \<times> 'd mpsse_io \<Rightarrow> (int \<times> 'a \<times> 'd mpsse_io) outcome) \<Rightarrow> bool" where
  "steps_in_bounds f \<longleftrightarrow> (\<forall>s code s'. f s = Ret (code, s') \<longrightarrow> in_bounds (snd s) (snd s'))"

lemma steps_ok_then:
  assumes "steps_in_bounds f" "steps_in_bounds g"
  shows "steps_in_bounds (\<lambda>s. ok_then (f s) g)"
  unfolding steps_in_bounds_def
proof (intro allI impI)
  fix s code s' assume "ok_then (f s) g = Ret (code, s')"
  then show "in_bounds (snd s) (snd s')"
    by (rule ok_then_RetE) (use assms in_bounds_trans in \<open>unfold steps_in_bounds_def, blast+\<close>)
qed

lemma bits_command_bounds: "bits_command drv cmd fb tdo tb nb io = Ret (code, io') \<Longrightarrow> in_bounds io io'"
  using keeps_in_bounds[OF keeps_with_alloc[OF keeps_readback]] unfolding bits_command_def by blast

lemma carried:
  assumes "ok_then (carry x r) f = Ret (code, y, io')" "\<And>code io1. r = Ret (code, io1) \<Longrightarrow> in_bounds io io1"
    and "\<And>x io1 code y io2. f (x, io1) = Ret (code, y, io2) \<Longrightarrow> in_bounds io1 io2"
  shows "in_bounds io io'"
  using assms(1)
proof (rule ok_then_RetE)
  fix c s assume "carry x r = Ret (c, s)" "f s = Ret (code, y, io')"
  then show ?thesis using assms(2,3) by (cases s) (auto dest!: carry_RetD intro: in_bounds_trans)
qed (use assms(2) in \<open>auto dest: carry_RetD\<close>)

lemma tdi_leading_bounds: "steps_in_bounds (tdi_leading drv tdi tdo p)"
  unfolding steps_in_bounds_def tdi_leading_def
  by (auto split: if_splits elim!: carried dest!: bits_command_bounds)

lemma tdi_trailing_bounds: "steps_in_bounds (tdi_trailing drv tdi tdo p)"
  unfolding steps_in_bounds_def tdi_trailing_def
  by (auto split: if_splits elim!: carried dest!: bits_command_bounds)

lemma tdi_last_bit_bounds: "steps_in_bounds (tdi_last_bit drv tdi tdo p h)"
  unfolding steps_in_bounds_def tdi_last_bit_def Let_def
  by (auto split: if_splits elim!: carried dest!: bits_command_bounds)

lemma tdi_whole_bounds: "steps_in_bounds (tdi_whole drv tdi tdo p)"
  unfolding steps_in_bounds_def tdi_whole_def Let_def
  by (auto split: if_splits elim!: carried dest!: keeps_in_bounds[OF keeps_append] keeps_in_bounds[OF keeps_readback]
      keeps_in_bounds[OF keeps_simple])

lemma tdi_body_bounds: "steps_in_bounds (tdi_body drv tdi tdo p h)"
  unfolding tdi_body_def
  by (intro steps_ok_then tdi_leading_bounds tdi_whole_bounds tdi_trailing_bounds tdi_last_bit_bounds)

lemma tdi_loop_bounds:
  assumes "tdi_loop drv tdi tdo p h s = Some r"
  shows "\<forall>code s'. r = Ret (code, s') \<longrightarrow> in_bounds (snd s) (snd s')"
proof (rule tdi_loop.raw_induct[OF _ assms, where P = "\<lambda>drv tdi tdo p h s r. \<forall>code s'. r = Ret (code, s') \<longrightarrow> in_bounds (snd s) (snd s')"], intro allI impI)
  fix loop drv tdi tdo p h s r code s'
  assume IH: "\<And>drv tdi tdo p h s r. loop drv tdi tdo p h s = Some r \<Longrightarrow> \<forall>code s'. r = Ret (code, s') \<longrightarrow> in_bounds (snd s) (snd s')"
    and step: "(if fst s < to_idx p then case tdi_body drv tdi tdo p h s of
        Ret r \<Rightarrow> if fst r < 0 then Some (Ret (-1, snd r)) else loop drv tdi tdo p h (snd r) | Undefined \<Rightarrow> Some Undefined | Killed \<Rightarrow> Some Killed | Diverges \<Rightarrow> Some Diverges
      else Some (Ret (0, s))) = Some r" and r: "r = Ret (code, s')"
  show "in_bounds (snd s) (snd s')"
  proof (cases "fst s < to_idx p")
    case True
    with step r obtain c s1 where b: "tdi_body drv tdi tdo p h s = Ret (c, s1)"
      by (cases "tdi_body drv tdi tdo p h s") auto
    then have "in_bounds (snd s) (snd s1)" using tdi_body_bounds unfolding steps_in_bounds_def by blast
    moreover have "in_bounds (snd s1) (snd s')" using IH[of drv tdi tdo p h s1 r] step True b r by (cases s') (auto split: if_splits)
    ultimately show ?thesis by (rule in_bounds_trans)
  qed (use step r in auto)
qed

lemma append_tdi_shift_bounds: "append_tdi_shift drv tdi tdo f t h io = Ret (code, io') \<Longrightarrow> in_bounds io io'"
proof -
  assume a: "append_tdi_shift drv tdi tdo f t h io = Ret (code, io')"
  define p where "p = tdi_plan_of f t"
  define alloc where "alloc = (if total_inner_bytes p > 0 then pool_alloc sizeof_bulk_byte_copier_extra (mctx io) else Some (mctx io))"
  show ?thesis
  proof (cases alloc)
    case None
    then show ?thesis using a unfolding append_tdi_shift_def Let_def p_def [symmetric] alloc_def [symmetric] by simp
  next
    case (Some c)
    then have "in_bounds io (io\<lparr>mctx := c\<rparr>)"
      by (auto simp: alloc_def pool_alloc_def in_bounds_def mpsse_wf_def split: if_splits)
    moreover obtain x where "tdi_loop drv tdi tdo p h (f, io\<lparr>mctx := c\<rparr>) = Some (Ret (code, x, io'))"
      using a Some unfolding append_tdi_shift_def Let_def p_def [symmetric] alloc_def [symmetric]
      by (auto simp: bind_out_Ret_iff split: option.splits)
    ultimately show ?thesis using tdi_loop_bounds by (metis in_bounds_trans snd_conv)
  qed
qed

lemma append_tms_shift_bounds: "append_tms_shift drv tms f t io = Ret (code, io') \<Longrightarrow> in_bounds io io'"
proof (induction drv tms f t io arbitrary: rule: append_tms_shift.induct)
  case (1 drv tms f t io)
  show ?case
  proof (cases "f < t")
    case True
    with 1(2) show ?thesis
      by (subst (asm) append_tms_shift.simps)
        (auto simp: Let_def elim!: ok_then_RetE dest!: 1(1)[OF True refl refl] keeps_in_bounds[OF keeps_append] intro: in_bounds_trans)
  qed (use 1(2) in \<open>subst (asm) append_tms_shift.simps, auto\<close>)
qed

lemma scan_round_bounds:
  "scan_round drv tms tdi tdo bits e i b s f io = Ret (code, x, io') \<Longrightarrow> in_bounds io io'"
proof (induction "e - i" arbitrary: i b s f io rule: less_induct)
  case less
  show ?case
  proof (cases "i < e")
    case False
    then show ?thesis using less.prems by (subst (asm) scan_round.simps) auto
  next
    case True
    define s' where "s' = next_state s (b AND 1 \<noteq> 0)"
    define seg where "seg = (if i = bits - 1 \<or> \<not> is_shift s \<and> is_shift s' \<or> is_shift s \<and> \<not> is_shift s' then
        carry (s, i + 1) (if is_shift s then append_tdi_shift drv tdi tdo f (i + 1) (is_shift s \<and> \<not> is_shift s') io
          else append_tms_shift drv tms f (i + 1) io)
      else Ret (0, (s, f), io))"
    have segb: "in_bounds io io1" if "seg = Ret (c, st, io1)" for c st io1
      using that by (auto simp: seg_def split: if_splits dest!: carry_RetD append_tdi_shift_bounds append_tms_shift_bounds)
    have "ok_then seg (\<lambda>((_, f'), io'). scan_round drv tms tdi tdo bits e (i + 1) (drop_bit 1 b) s' f' io') = Ret (code, x, io')"
      using less.prems True
      by (subst (asm) scan_round.simps) (simp only: seg_def s'_def is_shift_def Let_def if_True simp_thms)
    then show ?thesis
    proof (rule ok_then_RetE)
      fix c q assume q: "seg = Ret (c, q)"
        "(\<lambda>((_, f'), io'). scan_round drv tms tdi tdo bits e (i + 1) (drop_bit 1 b) s' f' io') q = Ret (code, x, io')"
      obtain s0 f' io1 where q1: "q = ((s0, f'), io1)" by (metis surj_pair)
      have "e - (i + 1) < e - i" using True by simp
      from less.hyps[OF this] q q1 segb show ?thesis by (auto intro: in_bounds_trans)
    qed (use segb in auto)
  qed
qed

lemma scan_vector_bounds:
  "scan_vector drv tms tdi tdo bits i s f io = Ret (code, x, io') \<Longrightarrow> in_bounds io io'"
proof (induction "bits - i" arbitrary: i s f io rule: less_induct)
  case less
  show ?case
  proof (cases "i < bits")
    case False
    then show ?thesis using less.prems by (subst (asm) scan_vector.simps) auto
  next
    case True
    define e where "e = (if i + 8 > bits then bits else i + 8)"
    have e: "bits - e < bits - i" using True by (auto simp: e_def)
    have "ok_then (scan_round drv tms tdi tdo bits e i (tms ! (i div 8)) s f io)
        (\<lambda>((s', f'), io'). scan_vector drv tms tdi tdo bits e s' f' io') = Ret (code, x, io')"
      using less.prems True by (subst (asm) scan_vector.simps) (simp only: e_def Let_def if_True)
    then show ?thesis
    proof (rule ok_then_RetE)
      fix c q assume q: "scan_round drv tms tdi tdo bits e i (tms ! (i div 8)) s f io = Ret (c, q)"
        "(\<lambda>((s', f'), io'). scan_vector drv tms tdi tdo bits e s' f' io') q = Ret (code, x, io')"
      obtain s0 f' io1 where q1: "q = ((s0, f'), io1)" by (metis surj_pair)
      have "in_bounds io io1" using scan_round_bounds[OF q(1)[unfolded q1]] .
      moreover have "in_bounds io1 io'" using less.hyps[OF e] q(2) q1 by simp
      ultimately show ?thesis by (rule in_bounds_trans)
    next
      fix c q assume "scan_round drv tms tdi tdo bits e i (tms ! (i div 8)) s f io = Ret (c, q)" "(x, io') = q"
      then show ?thesis using scan_round_bounds[of drv tms tdi tdo bits e i "tms ! (i div 8)" s f io c x io'] by simp
    qed
  qed
qed

lemma scan_in_bounds:
  assumes "mpsse_adapter_scan drv tms tdi tdo bits io = Ret (code, io')"
  shows "in_bounds io io'"
proof -
  let ?io = "io\<lparr>mctx := (mctx io)\<lparr>current_bit_offset := 0\<rparr>\<rparr>"
  have b0: "in_bounds io ?io" by (simp add: in_bounds_def mpsse_wf_def)
  show ?thesis
  proof (cases "\<not> mpsse_is_open (mctx io) \<or> bits \<le> 0")
    case False
    then have r: "bind_out (scan_vector drv tms tdi tdo (nat bits) 0 (tap_state (mctx io)) 0 ?io) (\<lambda>(code, (state, _), io1).
         if code < 0 then Ret (-1, io1)
         else ok_then (mpsse_buffer_flush drv io1) (\<lambda>io2. Ret (0, io2\<lparr>mctx := (pool_reset (mctx io2))
           \<lparr>current_bit_offset := current_bit_offset (mctx io2) + nat bits, tap_state := state\<rparr>\<rparr>))) = Ret (code, io')"
      using assms by (auto simp: mpsse_adapter_scan_def split: if_splits)
    obtain c st f io1 where v: "scan_vector drv tms tdi tdo (nat bits) 0 (tap_state (mctx io)) 0 ?io = Ret (c, (st, f), io1)"
      and rest: "(if c < 0 then Ret (-1, io1)
         else ok_then (mpsse_buffer_flush drv io1) (\<lambda>io2. Ret (0, io2\<lparr>mctx := (pool_reset (mctx io2))
           \<lparr>current_bit_offset := current_bit_offset (mctx io2) + nat bits, tap_state := st\<rparr>\<rparr>))) = Ret (code, io')"
      using r by (auto simp: bind_out_Ret_iff)
    have b1: "in_bounds io io1" using scan_vector_bounds[OF v] b0 by (rule in_bounds_trans[rotated])
    have fin: "in_bounds io2 (io2\<lparr>mctx := (pool_reset (mctx io2))\<lparr>current_bit_offset := k, tap_state := st\<rparr>\<rparr>)" for io2 :: "'a mpsse_io" and k
      by (simp add: in_bounds_def mpsse_wf_def pool_reset_def)
    show ?thesis using rest b1
      by (auto split: if_splits elim!: ok_then_RetE dest!: keeps_in_bounds[OF keeps_flush] intro: in_bounds_trans fin)
  qed (use assms in \<open>auto simp: mpsse_adapter_scan_def\<close>)
qed

text \<open>
  C17. Whatever the driver answers, a scan that returns leaves the buffers within their bounds:
  queued bytes, expected bytes, observer offsets and the observer pool.
\<close>

theorem scan_keeps_bounds:
  assumes "mpsse_adapter_scan drv tms tdi tdo bits io = Ret (code, io')" "mpsse_wf (mctx io)"
  shows "mpsse_wf (mctx io') \<and> max_tx_buffer_bytes (mctx io') = max_tx_buffer_bytes (mctx io) \<and>
    max_rx_buffer_bytes (mctx io') = max_rx_buffer_bytes (mctx io)"
  using scan_in_bounds[OF assms(1)] assms(2) by (simp add: in_bounds_def)

end
