(* ===== verification/Mpsse_Ends.thy ===== *)
theory Mpsse_Ends
  imports Mpsse_Bounds
begin

text \<open>
  A scan comes to an end with any driver whose successful reads return data. The polling loop of
  a flush is bounded by its time budget (\<open>flush_terminates\<close>); the loop of
  \<open>append_tdi_shift\<close> has no counter of its own, its index is moved by whichever of its four
  stages applies. Each stage is described here by what it does to the index, and every
  pass is shown to move it forward.
\<close>

section \<open>Stages that end\<close>

definition buffers_ok :: "'d mpsse_io \<Rightarrow> bool" where
  "buffers_ok io \<longleftrightarrow> mpsse_wf (mctx io) \<and> max_rx_buffer_bytes (mctx io) < 2 ^ 31 \<and> 0 < chip_buffer_size (mctx io)"

definition ends :: "('a \<times> 'd mpsse_io \<Rightarrow> 'b outcome) \<Rightarrow> bool" where
  "ends f \<longleftrightarrow> (\<forall>s. buffers_ok (snd s) \<longrightarrow> f s \<noteq> Diverges)"

named_theorems ends_intros \<open>operations that come to an end\<close>

lemma endsD: "ends f \<Longrightarrow> buffers_ok io \<Longrightarrow> f (x, io) \<noteq> Diverges"
  by (auto simp: ends_def)

lemma buffers_ok_in_bounds: "buffers_ok io \<Longrightarrow> in_bounds io io' \<Longrightarrow> buffers_ok io'"
  by (auto simp: buffers_ok_def in_bounds_def)

lemma ok_then_Diverges_iff:
  "ok_then r f = Diverges \<longleftrightarrow> r = Diverges \<or> (\<exists>c s. r = Ret (c, s) \<and> 0 \<le> c \<and> f s = Diverges)"
  by (cases r) (auto split: if_splits)

lemma ok_then_Ret_iff:
  "ok_then r f = Ret (code, s') \<longleftrightarrow> (\<exists>c s. r = Ret (c, s) \<and> (if c < 0 then code = -1 \<and> s' = s else f s = Ret (code, s')))"
proof (cases r)
  case (Ret a)
  then show ?thesis by (cases a; cases "fst a < 0") auto
qed auto

lemma ok_then_ends:
  assumes "r \<noteq> Diverges" "\<And>c s. r = Ret (c, s) \<Longrightarrow> f s \<noteq> Diverges"
  shows "ok_then r f \<noteq> Diverges"
  using assms by (auto simp: ok_then_Diverges_iff)

lemma ends_ok_then [ends_intros]:
  assumes "ends f" "steps_in_bounds f" "ends g"
  shows "ends (\<lambda>s. ok_then (f s) g)"
  unfolding ends_def
proof (intro allI impI ok_then_ends)
  fix s :: "'a \<times> 'b mpsse_io" and c s' assume s: "buffers_ok (snd s)"
  then show "f s \<noteq> Diverges" using assms(1) by (cases s) (simp add: ends_def)
  assume "f s = Ret (c, s')"
  then have "in_bounds (snd s) (snd s')" using assms(2) unfolding steps_in_bounds_def by blast
  then show "g s' \<noteq> Diverges" using assms(3) buffers_ok_in_bounds[OF s] by (cases s') (simp add: ends_def)
qed

lemma carry_Diverges [simp]: "carry x r = Diverges \<longleftrightarrow> r = Diverges"
  by (cases r) (auto simp: carry_def)

section \<open>The command buffer\<close>

lemma append_tx_ends [simp]: "append_tx tx_data io \<noteq> Diverges"
  by (simp add: append_tx_def Let_def)

lemma append_rx_ends [simp]: "append_rx ob n io \<noteq> Diverges"
  by (simp add: append_rx_def Let_def split: option.splits)

lemma ready_flush:
  assumes "driver_reads drv" "buffers_ok io"
  shows "mpsse_buffer_flush drv io \<noteq> Diverges"
  using assms by (intro flush_terminates) (auto simp: buffers_ok_def mpsse_wf_def)

lemma ready_append:
  assumes "driver_reads drv" "buffers_ok io"
  shows "mpsse_buffer_append drv cmd ob n io \<noteq> Diverges"
  unfolding mpsse_buffer_append_def Let_def
  by (intro ok_then_ends) (simp_all add: ready_flush[OF assms])

lemma ready_readback:
  assumes "driver_reads drv" "buffers_ok io"
  shows "mpsse_buffer_add_write_with_readback drv cmd ob n io \<noteq> Diverges"
proof -
  have "mpsse_buffer_ensure_can_append drv (length cmd) n io \<noteq> Diverges"
    unfolding mpsse_buffer_ensure_can_append_def Let_def
    using ready_flush[OF assms] by (auto simp: ok_then_Diverges_iff split: if_splits)
  then show ?thesis
    unfolding mpsse_buffer_add_write_with_readback_def
    using ready_append[OF assms(1)] buffers_ok_in_bounds[OF assms(2)] keeps_in_bounds[OF keeps_ensure]
    by (intro ok_then_ends) blast+
qed

lemma buffers_ok_alloc: "buffers_ok io \<Longrightarrow> pool_alloc n (mctx io) = Some c \<Longrightarrow> buffers_ok (io\<lparr>mctx := c\<rparr>)"
  by (auto simp: buffers_ok_def pool_alloc_def mpsse_wf_def split: if_splits)

lemma ready_bits_command:
  assumes "driver_reads drv" "buffers_ok io"
  shows "bits_command drv cmd fb tdo tb nb io \<noteq> Diverges"
  using ready_readback[OF assms(1)] buffers_ok_alloc[OF assms(2)]
  by (auto simp: bits_command_def split: option.splits)

lemma ready_simple:
  assumes "driver_reads drv" "buffers_ok io"
  shows "mpsse_buffer_add_write_simple drv cmd dst off n io \<noteq> Diverges"
  using ready_readback[OF assms(1)] buffers_ok_alloc[OF assms(2)]
  by (auto simp: mpsse_buffer_add_write_simple_def simp del: sizeof_byte_copier_extra_def split: option.splits)

section \<open>The stages of a data shift\<close>

lemma ends_leading [ends_intros]: "driver_reads drv \<Longrightarrow> ends (tdi_leading drv tdi tdo p)"
  by (auto simp: ends_def tdi_leading_def ready_bits_command ok_then_Diverges_iff split: if_splits)

lemma ends_trailing [ends_intros]: "driver_reads drv \<Longrightarrow> ends (tdi_trailing drv tdi tdo p)"
  by (auto simp: ends_def tdi_trailing_def ready_bits_command ok_then_Diverges_iff split: if_splits)

lemma ends_last_bit [ends_intros]: "driver_reads drv \<Longrightarrow> ends (tdi_last_bit drv tdi tdo p h)"
  by (auto simp: ends_def tdi_last_bit_def Let_def ready_bits_command ok_then_Diverges_iff split: if_splits)

lemma ends_whole [ends_intros]:
  assumes "driver_reads drv"
  shows "ends (tdi_whole drv tdi tdo p)"
proof -
  have "buffers_ok io1" if "buffers_ok io" "carry x (mpsse_buffer_append drv cmd ob n io) = Ret (c, y, io1)"
    for io io1 :: "'a mpsse_io" and x y :: nat and cmd ob n c
    using that(1) keeps_in_bounds[OF keeps_append carry_RetD[OF that(2)]] by (rule buffers_ok_in_bounds)
  then show ?thesis
    using ready_append[OF assms] ready_readback[OF assms] ready_simple[OF assms]
    unfolding ends_def tdi_whole_def Let_def
    by (auto simp: ok_then_Diverges_iff split: if_splits)
qed

lemma ends_body: "driver_reads drv \<Longrightarrow> ends (tdi_body drv tdi tdo p h)"
  unfolding tdi_body_def
  by (intro ends_intros steps_ok_then tdi_leading_bounds tdi_whole_bounds tdi_trailing_bounds)

section \<open>The index moves forward\<close>

definition after_leading :: "tdi_plan \<Rightarrow> nat \<Rightarrow> nat" where
  "after_leading p i = (if i = from_idx p \<and> num_leading_bits p > 0 then i + num_leading_bits p else i)"

definition after_whole :: "tdi_plan \<Rightarrow> nat \<Rightarrow> nat \<Rightarrow> nat" where
  "after_whole p k i = (if i < last_bit_idx p \<and> inner_end_idx p > int i
     then i + min ((nat (inner_end_idx p) - i) div 8) k * 8 else i)"

definition after_trailing :: "tdi_plan \<Rightarrow> nat \<Rightarrow> nat" where
  "after_trailing p i = (if num_trailing_bits p > 0 \<and> i < last_bit_idx p then i + num_trailing_bits p else i)"

definition after_last :: "tdi_plan \<Rightarrow> nat \<Rightarrow> nat" where
  "after_last p i = (if i = last_bit_idx p then i + 1 else i)"

text \<open>The index at the top of the loop: at the start, or past a byte boundary, when no bits trail.\<close>

definition index_ok :: "tdi_plan \<Rightarrow> nat \<Rightarrow> bool" where
  "index_ok p i \<longleftrightarrow> num_trailing_bits p > 0 \<or> i = from_idx p \<or> to_idx p \<le> i \<or> i = last_bit_idx p \<or>
     (i mod 8 = 0 \<and> inner_end_idx p = int (last_bit_idx p))"

lemma round_up8: "(i + (if i mod 8 = 0 then 0 else 8 - i mod 8)) mod 8 = (0 :: nat)"
proof -
  have "q * 8 + r + (8 - r) = 8 * (q + 1)" if "r < 8" for q r :: nat using that by simp
  from this[of "i mod 8" "i div 8"] have "i + (8 - i mod 8) = 8 * (i div 8 + 1)" by simp
  then show ?thesis by simp
qed

lemma aligned_gap: "i mod 8 = 0 \<Longrightarrow> j mod 8 = 0 \<Longrightarrow> i < j \<Longrightarrow> 8 \<le> j - (i :: nat)"
  by (auto elim!: dvdE simp flip: dvd_eq_mod_eq_0 simp: dvd_def)

lemma plan_fields:
  "num_trailing_bits (tdi_plan_of f t) = (if num_leading_bits (tdi_plan_of f t) = t - 1 - f then 0 else (t - 1) mod 8)"
  "inner_end_idx (tdi_plan_of f t) =
     (if num_leading_bits (tdi_plan_of f t) = t - 1 - f then -1 else int (t - 1 - (t - 1) mod 8))"
  "num_leading_bits (tdi_plan_of f t) =
     min (if 8 - f mod 8 = 8 then 0 else 8 - f mod 8) (t - 1 - f)"
  by (simp_all only: tdi_plan_of_def Let_def tdi_plan.simps)

lemma plan_cases:
  assumes "from < to"
  obtains (leading) "num_trailing_bits (tdi_plan_of from to) = 0" "inner_end_idx (tdi_plan_of from to) = -1"
      "from + num_leading_bits (tdi_plan_of from to) = to - 1"
    | (bytes) "num_trailing_bits (tdi_plan_of from to) = (to - 1) mod 8"
      "inner_end_idx (tdi_plan_of from to) = int (to - 1 - (to - 1) mod 8)"
      "(from + num_leading_bits (tdi_plan_of from to)) mod 8 = 0"
      "from + num_leading_bits (tdi_plan_of from to) < to - 1"
proof (cases "num_leading_bits (tdi_plan_of from to) = to - 1 - from")
  case True
  then show ?thesis using assms by (intro leading) (simp_all only: plan_fields(1,2), simp_all)
next
  case False
  then have n: "num_leading_bits (tdi_plan_of from to) = (if from mod 8 = 0 then 0 else 8 - from mod 8)"
      "num_leading_bits (tdi_plan_of from to) < to - 1 - from"
    unfolding plan_fields(3) min_def by (auto split: if_splits)
  show ?thesis
  proof (rule bytes)
    show "(from + num_leading_bits (tdi_plan_of from to)) mod 8 = 0" unfolding n(1) by (rule round_up8)
  qed (use False n(2) in \<open>simp_all only: plan_fields(1,2) if_False less_diff_conv2 add.commute\<close>)
qed

lemma plan_indices [simp]:
  "from_idx (tdi_plan_of f t) = f" "to_idx (tdi_plan_of f t) = t" "last_bit_idx (tdi_plan_of f t) = t - 1"
  by (simp_all add: tdi_plan_of_def Let_def)

lemma after_le: "i \<le> after_leading p i" "i \<le> after_whole p k i" "i \<le> after_trailing p i" "i \<le> after_last p i"
  unfolding after_leading_def after_whole_def after_trailing_def after_last_def
  by (simp_all only: le_add1 order_refl split: if_split) simp_all

lemma body_moves:
  assumes p: "p = tdi_plan_of from to" "from < to" and k: "0 < k" and i: "index_ok p i" "i < to"
  defines "j \<equiv> after_last p (after_trailing p (after_whole p k (after_leading p i)))"
  shows "i < j \<and> index_ok p j"
  using p(2)
proof (cases rule: plan_cases)
  case leading
  with p i consider "i = from" "i < to - 1" | "i = to - 1" by (force simp: index_ok_def)
  then have "j = to"
    using leading p
    by cases (simp_all add: j_def after_leading_def after_whole_def after_trailing_def after_last_def)
  then show ?thesis using p i by (simp add: index_ok_def)
next
  case bytes
  define a where "a = after_leading p i"
  define b where "b = after_whole p k a"
  have ab: "i \<le> a" "a \<le> b" by (simp_all add: a_def b_def after_le)
  have j: "j = after_last p (after_trailing p b)" by (simp add: j_def a_def b_def)
  have p': "from_idx p = from" "to_idx p = to" "last_bit_idx p = to - 1" by (simp_all add: p)
  note bytes = bytes[folded p(1)]
  show ?thesis
  proof (cases "(to - 1) mod 8 = 0")
    case True
    with bytes i have a0: "i = to - 1 \<or> a mod 8 = 0 \<and> a < to - 1"
      by (auto simp: a_def p' index_ok_def after_leading_def)
    have "b = to - 1 \<or> a < b \<and> b mod 8 = 0" if "a mod 8 = 0" "a < to - 1"
    proof -
      have "8 \<le> to - 1 - a" by (rule aligned_gap[OF that(1) True that(2)])
      then have "0 < min ((to - 1 - a) div 8) k" using k by simp
      then show ?thesis using that True bytes(2) by (auto simp: b_def p' after_whole_def)
    qed
    then show ?thesis using a0 True bytes(1,2) i(2) ab
      by (auto simp: j p' index_ok_def after_trailing_def after_last_def)
  next
    case False
    then show ?thesis using bytes(1) i(2) ab
      by (auto simp: j p' index_ok_def after_trailing_def after_last_def)
  qed
qed

section \<open>The loop of a data shift\<close>

lemma carry_Ret_iff: "carry x r = Ret (c, y, io) \<longleftrightarrow> r = Ret (c, io) \<and> y = x"
  by (cases r) (auto simp: carry_def)

lemma leading_index: "tdi_leading drv tdi tdo p (i, io) = Ret (c, i', io') \<Longrightarrow> 0 \<le> c \<Longrightarrow> i' = after_leading p i"
  by (auto simp: tdi_leading_def after_leading_def carry_Ret_iff split: if_splits dest!: ok_then_Ret_0)

lemma whole_index:
  "tdi_whole drv tdi tdo p (i, io) = Ret (c, i', io') \<Longrightarrow> 0 \<le> c \<Longrightarrow> i' = after_whole p (chip_buffer_size (mctx io)) i"
  by (auto simp: tdi_whole_def after_whole_def Let_def carry_Ret_iff split: if_splits dest!: ok_then_Ret_0)

lemma trailing_index: "tdi_trailing drv tdi tdo p (i, io) = Ret (c, i', io') \<Longrightarrow> 0 \<le> c \<Longrightarrow> i' = after_trailing p i"
  by (auto simp: tdi_trailing_def after_trailing_def carry_Ret_iff split: if_splits dest!: ok_then_Ret_0)

lemma last_bit_index: "tdi_last_bit drv tdi tdo p h (i, io) = Ret (c, i', io') \<Longrightarrow> 0 \<le> c \<Longrightarrow> i' = after_last p i"
  by (auto simp: tdi_last_bit_def after_last_def Let_def carry_Ret_iff split: if_splits dest!: ok_then_Ret_0)

lemma body_index:
  assumes body: "tdi_body drv tdi tdo p h (i, io) = Ret (c, i', io')" "0 \<le> c" and ready: "buffers_ok io"
  shows "\<exists>k > 0. i' = after_last p (after_trailing p (after_whole p k (after_leading p i)))"
proof -
  obtain c3 i3 io3 where 3: "ok_then (ok_then (tdi_leading drv tdi tdo p (i, io)) (tdi_whole drv tdi tdo p))
        (tdi_trailing drv tdi tdo p) = Ret (c3, i3, io3)" "0 \<le> c3" "tdi_last_bit drv tdi tdo p h (i3, io3) = Ret (c, i', io')"
    using ok_then_Ret_0[OF body[unfolded tdi_body_def]] by (metis surj_pair)
  obtain c2 i2 io2 where 2: "ok_then (tdi_leading drv tdi tdo p (i, io)) (tdi_whole drv tdi tdo p) = Ret (c2, i2, io2)"
      "0 \<le> c2" "tdi_trailing drv tdi tdo p (i2, io2) = Ret (c3, i3, io3)"
    using ok_then_Ret_0[OF 3(1,2)] by (metis surj_pair)
  obtain c1 i1 io1 where 1: "tdi_leading drv tdi tdo p (i, io) = Ret (c1, i1, io1)"
      "0 \<le> c1" "tdi_whole drv tdi tdo p (i1, io1) = Ret (c2, i2, io2)"
    using ok_then_Ret_0[OF 2(1,2)] by (metis surj_pair)
  have "in_bounds io io1" using tdi_leading_bounds 1(1) unfolding steps_in_bounds_def by fastforce
  then have "0 < chip_buffer_size (mctx io1)" using buffers_ok_in_bounds[OF ready] by (simp add: buffers_ok_def)
  then show ?thesis
    using leading_index[OF 1(1,2)] whole_index[OF 1(3) 2(2)] trailing_index[OF 2(3) 3(2)] last_bit_index[OF 3(3) body(2)]
    by blast
qed

lemma tdi_loop_ends:
  assumes drv: "driver_reads drv" and p: "p = tdi_plan_of from to" "from < to"
    and "buffers_ok io" "index_ok p i"
  shows "\<exists>r. tdi_loop drv tdi tdo p h (i, io) = Some r \<and> r \<noteq> Diverges"
  using assms(4,5)
proof (induction "to - i" arbitrary: i io rule: less_induct)
  case less
  have body: "tdi_body drv tdi tdo p h (i, io) \<noteq> Diverges" using endsD[OF ends_body[OF drv]] less.prems by blast
  have "\<exists>r. tdi_loop drv tdi tdo p h (i', io') = Some r \<and> r \<noteq> Diverges"
    if s: "i < to" "tdi_body drv tdi tdo p h (i, io) = Ret (c, i', io')" "0 \<le> c" for c i' io'
  proof -
    obtain k where "0 < k" "i' = after_last p (after_trailing p (after_whole p k (after_leading p i)))"
      using body_index[OF s(2,3) less.prems(1)] by blast
    then have "i < i' \<and> index_ok p i'" using body_moves[OF p] less.prems s(1) by simp
    moreover have "buffers_ok io'"
      using tdi_body_bounds s(2) less.prems(1) buffers_ok_in_bounds unfolding steps_in_bounds_def by fastforce
    ultimately show ?thesis using s(1) by (intro less.hyps) auto
  qed
  then show ?case
    using body p by (subst tdi_loop.simps) (auto split: outcome.splits)
qed

lemma append_tdi_shift_ends:
  assumes "driver_reads drv" "buffers_ok io" "from < to"
  shows "append_tdi_shift drv tdi tdo from to h io \<noteq> Diverges"
proof -
  have "\<exists>r. tdi_loop drv tdi tdo (tdi_plan_of from to) h (from, io1) = Some r \<and> r \<noteq> Diverges" if "buffers_ok io1" for io1
    using that assms by (intro tdi_loop_ends) (auto simp: index_ok_def)
  then have "(case tdi_loop drv tdi tdo (tdi_plan_of from to) h (from, io1) of None \<Rightarrow> Diverges
      | Some r \<Rightarrow> bind_out r (\<lambda>(code, _, io2). Ret (code, io2))) \<noteq> Diverges" if "buffers_ok io1" for io1
    using that by (fastforce simp: bind_out_Diverges_iff)
  then show ?thesis
    using assms(2) buffers_ok_alloc[OF assms(2)] unfolding append_tdi_shift_def Let_def
    by (cases "total_inner_bytes (tdi_plan_of from to) > 0") (auto split: option.split)
qed

section \<open>The scan\<close>

lemma append_tms_shift_ends:
  assumes "driver_reads drv" "buffers_ok io"
  shows "append_tms_shift drv tms from to io \<noteq> Diverges"
  using assms(2)
proof (induction "to - from" arbitrary: "from" io rule: less_induct)
  case less
  let ?n = "min (to - from) 6"
  have "append_tms_shift drv tms (from + ?n) to io1 \<noteq> Diverges"
    if "from < to" "mpsse_buffer_append drv cmd None 0 io = Ret (c, io1)" for cmd c io1
    using that(1) buffers_ok_in_bounds[OF less.prems keeps_in_bounds[OF keeps_append that(2)]]
    by (intro less.hyps) auto
  then show ?case
    using ready_append[OF assms(1) less.prems]
    by (subst append_tms_shift.simps) (auto simp: Let_def ok_then_Diverges_iff)
qed

lemma scan_round_ends:
  assumes "driver_reads drv" "buffers_ok io" "f \<le> i"
  shows "scan_round drv tms tdi tdo bits e i b s f io \<noteq> Diverges \<and>
    (\<forall>c s' f' io'. scan_round drv tms tdi tdo bits e i b s f io = Ret (c, (s', f'), io') \<longrightarrow> 0 \<le> c \<longrightarrow> f' \<le> max i e)"
  using assms(2,3)
proof (induction "e - i" arbitrary: i b s f io rule: less_induct)
  case less
  show ?case
  proof (cases "i < e")
    case False
    then show ?thesis using less.prems by (subst (1 2) scan_round.simps) auto
  next
    case True
    define s' where "s' = next_state s (b AND 1 \<noteq> 0)"
    define seg where "seg = (if i = bits - 1 \<or> \<not> is_shift s \<and> is_shift s' \<or> is_shift s \<and> \<not> is_shift s' then
        carry (s, i + 1) (if is_shift s then append_tdi_shift drv tdi tdo f (i + 1) (is_shift s \<and> \<not> is_shift s') io
          else append_tms_shift drv tms f (i + 1) io)
      else Ret (0, (s, f), io))"
    have seg: "seg \<noteq> Diverges"
      using less.prems append_tdi_shift_ends[OF assms(1)] append_tms_shift_ends[OF assms(1)] by (auto simp: seg_def)
    have after: "buffers_ok io1 \<and> f1 \<le> i + 1" if "seg = Ret (c, (s1, f1), io1)" for c s1 f1 io1
      using that less.prems buffers_ok_in_bounds[OF less.prems(1) append_tdi_shift_bounds]
        buffers_ok_in_bounds[OF less.prems(1) append_tms_shift_bounds]
      by (auto simp: seg_def carry_Ret_iff split: if_splits)
    have eq: "scan_round drv tms tdi tdo bits e i b s f io =
        ok_then seg (\<lambda>((_, f'), io'). scan_round drv tms tdi tdo bits e (i + 1) (drop_bit 1 b) s' f' io')"
      using True by (subst scan_round.simps) (simp only: seg_def s'_def is_shift_def Let_def if_True simp_thms)
    have "e - (i + 1) < e - i" using True by simp
    note IH = less.hyps[OF this]
    show ?thesis unfolding eq using seg
    proof (cases seg)
      case (Ret r)
      then obtain c s1 f1 io1 where r: "seg = Ret (c, (s1, f1), io1)" by (metis surj_pair)
      show "ok_then seg (\<lambda>((_, f'), io'). scan_round drv tms tdi tdo bits e (i + 1) (drop_bit 1 b) s' f' io') \<noteq> Diverges \<and>
        (\<forall>c s2 f2 io2. ok_then seg (\<lambda>((_, f'), io'). scan_round drv tms tdi tdo bits e (i + 1) (drop_bit 1 b) s' f' io') =
           Ret (c, (s2, f2), io2) \<longrightarrow> 0 \<le> c \<longrightarrow> f2 \<le> max i e)"
        using IH[of io1 f1 "drop_bit 1 b" s'] after[OF r] True by (auto simp: r max_def split: if_splits)
    qed auto
  qed
qed

lemma scan_vector_ends:
  assumes "driver_reads drv" "buffers_ok io" "f \<le> i"
  shows "scan_vector drv tms tdi tdo bits i s f io \<noteq> Diverges"
  using assms(2,3)
proof (induction "bits - i" arbitrary: i s f io rule: less_induct)
  case less
  define e where "e = (if i + 8 > bits then bits else i + 8)"
  note round = scan_round_ends[OF assms(1) less.prems, of tms tdi tdo bits e]
  have "scan_vector drv tms tdi tdo bits e s' f' io' \<noteq> Diverges"
    if "i < bits" "scan_round drv tms tdi tdo bits e i (tms ! (i div 8)) s f io = Ret (c, (s', f'), io')" "0 \<le> c" for c s' f' io'
  proof (rule less.hyps)
    have "f' \<le> max i e" using round that(2,3) by blast
    then show "f' \<le> e" using that(1) by (auto simp: e_def max_def split: if_splits)
    show "buffers_ok io'" by (rule buffers_ok_in_bounds[OF less.prems(1) scan_round_bounds[OF that(2)]])
  qed (use that in \<open>auto simp: e_def\<close>)
  then show ?case using round
    by (subst scan_vector.simps) (auto simp: Let_def ok_then_Diverges_iff e_def[symmetric])
qed

lemma scan_ends:
  assumes "driver_reads drv" "buffers_ok io"
  shows "mpsse_adapter_scan drv tms tdi tdo bits io \<noteq> Diverges"
proof -
  let ?io = "io\<lparr>mctx := (mctx io)\<lparr>current_bit_offset := 0\<rparr>\<rparr>"
  have ready: "buffers_ok ?io" using assms(2) by (simp add: buffers_ok_def mpsse_wf_def)
  have "mpsse_buffer_flush drv io1 \<noteq> Diverges"
    if "scan_vector drv tms tdi tdo (nat bits) 0 (tap_state (mctx io)) 0 ?io = Ret (c, x, io1)" for c x io1
    by (rule ready_flush[OF assms(1) buffers_ok_in_bounds[OF ready scan_vector_bounds[OF that]]])
  with scan_vector_ends[OF assms(1) ready, of 0 0 tms tdi tdo "nat bits" "tap_state (mctx io)"] show ?thesis
    by (auto simp: mpsse_adapter_scan_def bind_out_Diverges_iff ok_then_Diverges_iff)
qed

text \<open>
  C10. A scan ends with any driver whose successful reads return at least one byte: the polling
  loops are bounded by their time budget, and every pass of the data-shift loop moves its index,
  also when the chip's buffer is smaller than the data.
\<close>

theorem scan_terminates:
  assumes "driver_reads drv" "mpsse_wf (mctx io)" "max_rx_buffer_bytes (mctx io) < 2 ^ 31" "0 < chip_buffer_size (mctx io)"
  shows "mpsse_adapter_scan drv tms tdi tdo bits io \<noteq> Diverges"
  by (rule scan_ends) (use assms in \<open>auto simp: buffers_ok_def\<close>)

end
