(* ===== verification/Adapter_Ends.thy ===== *)
theory Adapter_Ends
  imports Mpsse_Ends Ftdi_Adapter
begin

text \<open>
  Every operation of the adapter comes to an end, with any driver whose successful reads return
  data, and leaves a context from which the next one does (\<open>buffers_ok\<close>): life cycle, frequency
  and scans, on both layers (\<^verbatim>\<open>src/mpsse_adapter.c\<close>, \<^verbatim>\<open>src/ftdi_adapter.c\<close>).
\<close>

section \<open>MPSSE adapter\<close>

lemma buffers_ok_scan: "buffers_ok io \<Longrightarrow> mpsse_adapter_scan drv tms tdi tdo bits io = Ret (c, io') \<Longrightarrow> buffers_ok io'"
  using buffers_ok_in_bounds scan_in_bounds by blast

lemma buffers_ok_flush: "buffers_ok io \<Longrightarrow> mpsse_buffer_flush drv io = Ret (c, io') \<Longrightarrow> buffers_ok io'"
  by (rule buffers_ok_in_bounds[OF _ keeps_in_bounds[OF keeps_flush]])

lemma buffers_ok_append: "buffers_ok io \<Longrightarrow> mpsse_buffer_append drv cmd ob n io = Ret (c, io') \<Longrightarrow> buffers_ok io'"
  by (rule buffers_ok_in_bounds[OF _ keeps_in_bounds[OF keeps_append]])

lemma set_frequency_ends:
  assumes "driver_reads drv" "buffers_ok io"
  shows "mpsse_adapter_set_frequency drv f io \<noteq> Diverges"
  using ready_append[OF assms] ready_flush[OF assms(1)] buffers_ok_append[OF assms(2)]
  by (auto simp: mpsse_adapter_set_frequency_def Let_def ok_then_Diverges_iff)

lemma set_frequency_keeps:
  assumes "buffers_ok io" "mpsse_adapter_set_frequency drv f io = Ret (c, io')"
  shows "buffers_ok io'"
  using assms
  by (auto simp: mpsse_adapter_set_frequency_def Let_def split: if_splits elim!: ok_then_RetE
      dest: buffers_ok_append buffers_ok_flush)

lemma close_ends: "driver_reads drv \<Longrightarrow> buffers_ok io \<Longrightarrow> mpsse_adapter_close drv io \<noteq> Diverges"
  by (auto simp: mpsse_adapter_close_def Let_def bind_out_Diverges_iff dest: ready_flush)

lemma close_closes: "mpsse_adapter_close drv io = Ret io' \<Longrightarrow> \<not> mpsse_is_open (mctx io')"
  by (auto simp: mpsse_adapter_close_def Let_def bind_out_Ret_iff split: if_splits)

lemma destroy_ends:
  "driver_reads drv \<Longrightarrow> buffers_ok io \<or> \<not> mpsse_is_open (mctx io) \<Longrightarrow> mpsse_adapter_destroy drv io \<noteq> Diverges"
  by (auto simp: mpsse_adapter_destroy_def bind_out_Diverges_iff dest: close_ends)

section \<open>Opening\<close>

definition idle_context :: "mpsse_context \<Rightarrow> bool" where
  "idle_context c \<longleftrightarrow> tx_buffer c = [] \<and> rx_num_bytes c = 0 \<and> rx_observers c = [] \<and> pool_used c = 0 \<and> \<not> mpsse_is_open c"

lemma open_handle_idle: "idle_context (mctx io) \<Longrightarrow> open_handle drv serial index io = (c, io') \<Longrightarrow> idle_context (mctx io')"
  by (auto simp: open_handle_def idle_context_def split: if_splits prod.splits)

lemma clear_junk_ends [simp]: "clear_junk drv d \<noteq> Diverges"
  by (simp add: clear_junk_def split: prod.splits)

lemma enter_mpsse_ends: "enter_mpsse drv io \<noteq> Diverges"
  by (auto simp: enter_mpsse_def bind_out_Diverges_iff split: prod.splits if_splits)

lemma enter_mpsse_idle: "idle_context (mctx io) \<Longrightarrow> enter_mpsse drv io = Ret (c, io') \<Longrightarrow> idle_context (mctx io')"
  by (auto simp: enter_mpsse_def close_handle_def idle_context_def bind_out_Ret_iff case_prod_beta split: if_splits)

lemma open_ends: "mpsse_adapter_open mal drv serial index io \<noteq> Diverges"
  by (auto simp: mpsse_adapter_open_def reallocate_buffers_def Let_def ok_then_Diverges_iff enter_mpsse_ends split: prod.splits option.splits)

lemma open_keeps:
  assumes "idle_context (mctx io)" "mpsse_adapter_open mal drv serial index io = Ret (c, io')"
  shows "if c = 0 then buffers_ok io' else c = -1 \<and> \<not> mpsse_is_open (mctx io')"
proof -
  obtain st n d where l: "ft_create_device_info_list drv (mdev io) = (st, n, d)" by (metis prod_cases3)
  obtain c1 io1 where h: "open_handle drv serial index (io\<lparr>mdev := d\<rparr>) = (c1, io1)" by fastforce
  have 1: "idle_context (mctx io1)" using open_handle_idle[OF _ h] assms(1) by simp
  have 2: "idle_context (mctx io2)" if "enter_mpsse drv io1 = Ret (c2, io2)" for c2 io2
    by (rule enter_mpsse_idle[OF 1 that])
  have 3: "if c = 0 then buffers_ok io' else c = -1 \<and> \<not> mpsse_is_open (mctx io')"
    if "reallocate_buffers mal drv io2 = Ret (c, io')" "idle_context (mctx io2)" for io2 :: "'a mpsse_io"
    using that by (auto simp: reallocate_buffers_def Let_def close_handle_def buffers_ok_def mpsse_wf_def idle_context_def
        split: option.splits)
  show ?thesis
  proof (cases "st \<noteq> FT_OK \<or> n = 0 \<or> c1 < 0")
    case True
    then show ?thesis using assms l h 1 by (auto simp: mpsse_adapter_open_def idle_context_def split: if_splits)
  next
    case False
    then have "ok_then (enter_mpsse drv io1) (reallocate_buffers mal drv) = Ret (c, io')"
      using assms(2) l h by (simp add: mpsse_adapter_open_def)
    then show ?thesis using 2 3 by (fastforce simp: ok_then_Ret_iff idle_context_def split: if_splits)
  qed
qed

section \<open>FTDI adapter\<close>

abbreviation adapter_ok :: "'d ftdi_io \<Rightarrow> bool" where "adapter_ok s \<equiv> buffers_ok (mio s)"

lemma buffers_ok_mem [simp]: "buffers_ok (io\<lparr>mmem := m\<rparr>) \<longleftrightarrow> buffers_ok io"
  by (simp add: buffers_ok_def)

lemma adapter_ok_mem [simp]: "adapter_ok (put_mem m s) \<longleftrightarrow> adapter_ok s"
  by (simp add: put_mem_def)

lemma on_mpsse_Diverges [simp]: "on_mpsse f s = Diverges \<longleftrightarrow> f (mio s) = Diverges"
  by (auto simp: on_mpsse_def bind_out_Diverges_iff)

lemma on_mpsse_RetD: "on_mpsse f s = Ret (c, s') \<Longrightarrow> f (mio s) = Ret (c, mio s')"
  by (auto simp: on_mpsse_def bind_out_Ret_iff)

lemma ftdi_scan_ends: "driver_reads drv \<Longrightarrow> adapter_ok s \<Longrightarrow> ftdi_adapter_scan drv tms tdi tdo bits s \<noteq> Diverges"
  by (simp add: ftdi_adapter_scan_def scan_ends)

lemma ftdi_scan_keeps: "adapter_ok s \<Longrightarrow> ftdi_adapter_scan drv tms tdi tdo bits s = Ret (c, s') \<Longrightarrow> adapter_ok s'"
  by (auto simp: ftdi_adapter_scan_def split: if_splits dest!: on_mpsse_RetD intro: buffers_ok_scan)

lemma set_period_ends: "driver_reads drv \<Longrightarrow> adapter_ok s \<Longrightarrow> ftdi_adapter_set_period drv p s \<noteq> Diverges"
  by (auto simp: ftdi_adapter_set_period_def Let_def bind_out_Diverges_iff dest: set_frequency_ends split: if_splits)

lemma set_period_keeps: "adapter_ok s \<Longrightarrow> ftdi_adapter_set_period drv p s = Ret (c, s') \<Longrightarrow> adapter_ok s'"
  by (auto simp: ftdi_adapter_set_period_def Let_def bind_out_Ret_iff split: if_splits
      dest!: on_mpsse_RetD intro: set_frequency_keeps)

lemma ftdi_set_frequency_ends: "driver_reads drv \<Longrightarrow> adapter_ok s \<Longrightarrow> ftdi_adapter_set_frequency drv f s \<noteq> Diverges"
  by (auto simp: ftdi_adapter_set_frequency_def bind_out_Diverges_iff dest: set_frequency_ends)

lemma ftdi_set_frequency_keeps: "adapter_ok s \<Longrightarrow> ftdi_adapter_set_frequency drv f s = Ret (c, s') \<Longrightarrow> adapter_ok s'"
  by (auto simp: ftdi_adapter_set_frequency_def bind_out_Ret_iff split: if_splits
      dest!: on_mpsse_RetD intro: set_frequency_keeps)

lemma ftdi_close_ends: "driver_reads drv \<Longrightarrow> adapter_ok s \<Longrightarrow> ftdi_adapter_close drv s \<noteq> Diverges"
  by (auto simp: ftdi_adapter_close_def bind_out_Diverges_iff dest: close_ends split: if_splits)

lemma mpsse_close_keeps: "buffers_ok io \<Longrightarrow> mpsse_adapter_close drv io = Ret io' \<Longrightarrow> buffers_ok io'"
proof -
  assume io: "buffers_ok io" and r: "mpsse_adapter_close drv io = Ret io'"
  have "buffers_ok io'" if "mpsse_buffer_flush drv io = Ret (c, io1)" "mpsse_is_open (mctx io)" for c io1
    using buffers_ok_flush[OF io that(1)] r that
    by (cases "ft_handle (mctx io1)") (auto simp: mpsse_adapter_close_def Let_def close_handle_def buffers_ok_def mpsse_wf_def)
  with io r show ?thesis by (auto simp: mpsse_adapter_close_def bind_out_Ret_iff split: if_splits)
qed

lemma ftdi_close_keeps: "adapter_ok s \<Longrightarrow> ftdi_adapter_close drv s = Ret s' \<Longrightarrow> adapter_ok s'"
  by (auto simp: ftdi_adapter_close_def bind_out_Ret_iff split: if_splits intro: mpsse_close_keeps)

lemma ftdi_destroy_ends: "driver_reads drv \<Longrightarrow> adapter_ok s \<Longrightarrow> ftdi_adapter_destroy drv s \<noteq> Diverges"
  by (auto simp: ftdi_adapter_destroy_def bind_out_Diverges_iff ftdi_close_ends
      dest: destroy_ends ftdi_close_keeps split: if_splits)

lemma ftdi_create_idle:
  "ftdi_adapter_create mal ok d m = Some s \<Longrightarrow> idle_context (mctx (mio s)) \<and> \<not> ftdi_is_open (fctx s) \<and> has_mpsse (fctx s)"
  by (auto simp: ftdi_adapter_create_def mpsse_adapter_create_def idle_context_def split: if_splits option.splits)

lemma ftdi_open_ends: "ftdi_adapter_open mal drv serial index s \<noteq> Diverges"
  by (auto simp: ftdi_adapter_open_def ftdi_adapter_open_with_mode_def bind_out_Diverges_iff open_ends)

text \<open>Opening a fresh adapter leaves it usable, or closed with a negative code.\<close>

lemma ftdi_open_keeps:
  assumes "ftdi_adapter_create cmal ok d m = Some s" "ftdi_adapter_open mal drv serial index s = Ret (c, s')"
  shows "if c < 0 then \<not> ftdi_is_open (fctx s') \<and> \<not> mpsse_is_open (mctx (mio s')) else adapter_ok s'"
proof -
  note s = ftdi_create_idle[OF assms(1)]
  obtain c1 io1 where o: "mpsse_adapter_open (block_of mal (mmem (mio s))) drv serial index (mio s) = Ret (c1, io1)"
    using assms(2) s by (auto simp: ftdi_adapter_open_def ftdi_adapter_open_with_mode_def bind_out_Ret_iff)
  from open_keeps[OF _ o] s assms(2) o show ?thesis
    by (auto simp: ftdi_adapter_open_def ftdi_adapter_open_with_mode_def split: if_splits)
qed

end
