(* ===== verification/Xvc_Net.thy ===== *)
theory Xvc_Net
  imports Xvc_Protocol
begin

text \<open>
  The protocol handler touches the network only by reading and writing the socket: whatever
  those two keep, a whole call keeps.
\<close>

definition net_keeps :: "'n net \<Rightarrow> ('n \<Rightarrow> 'a) \<Rightarrow> bool" where
  "net_keeps net F \<longleftrightarrow> (\<forall>n fd k. F (snd (net_read net n fd k)) = F n) \<and> (\<forall>n fd p. F (snd (net_write net n fd p)) = F n)"

lemma net_keepsD:
  assumes "net_keeps net F"
  shows "net_read net n fd k = (r, n') \<Longrightarrow> F n' = F n" "net_write net n fd p = (w, n') \<Longrightarrow> F n' = F n"
  using assms by (metis net_keeps_def snd_conv)+

lemma read_exact_net:
  "net_keeps net F \<Longrightarrow> xvc_read_exact net fd len acc n = Ret (r, data, n') \<Longrightarrow> F n' = F n"
proof (induction net fd len acc n rule: xvc_read_exact.induct)
  case (1 net fd len acc n)
  show ?case
  proof (cases "len > 0")
    case False
    then show ?thesis using 1(3) by (simp add: xvc_read_exact.simps[of net fd len])
  next
    case True
    obtain sr n1 where sr: "net_read net n fd (nat len) = (sr, n1)" by fastforce
    note n1 = net_keepsD(1)[OF 1(2) sr]
    show ?thesis
    proof (cases sr)
      case (Got d)
      consider "d = []" | "d \<noteq> []" "int (length d) > len" | "d \<noteq> []" "\<not> int (length d) > len" by blast
      then show ?thesis
      proof cases
        case 3
        then show ?thesis using 1(1)[OF True sr[symmetric] _ 3] 1(2,3) True sr Got n1
          by (simp add: xvc_read_exact.simps[of net fd len])
      qed (use 1(3) True sr Got n1 in \<open>simp_all add: xvc_read_exact.simps[of net fd len]\<close>)
    qed (use 1(3) True sr n1 in \<open>simp_all add: xvc_read_exact.simps[of net fd len]\<close>)
  qed
qed

lemma write_exact_net:
  "net_keeps net F \<Longrightarrow> xvc_write_exact net fd p n = Ret (r, n') \<Longrightarrow> F n' = F n"
proof (induction net fd p n rule: xvc_write_exact.induct)
  case (1 net fd p n)
  obtain sw n1 where w: "net_write net n fd p = (sw, n1)" by fastforce
  note n1 = net_keepsD(2)[OF 1(2) w]
  show ?case
  proof (cases "length p > 0")
    case True
    show ?thesis
    proof (cases sw)
      case (Wrote v)
      then show ?thesis using 1(1)[OF True w[symmetric] Wrote] 1(2,3) True w n1
        by (cases "v \<le> 0") (simp_all add: xvc_write_exact.simps[of net fd p])
    qed (use 1(3) True w in \<open>simp_all add: xvc_write_exact.simps[of net fd p]\<close>)
  next
    case False
    then have "(r, n') = (0, n)" using 1(3) by (subst (asm) xvc_write_exact.simps) simp
    then show ?thesis by simp
  qed
qed

section \<open>Commands\<close>

text \<open>Whatever a command does, it keeps \<open>F\<close> of the network; \<open>a\<close> is that value before.\<close>

definition keeps_net :: "('n \<Rightarrow> 'a) \<Rightarrow> 'a \<Rightarrow> ('n, 'd) xvc_result \<Rightarrow> bool" where
  "keeps_net F a r \<longleftrightarrow> (case r of Ret (c, s) \<Rightarrow> F (xnet s) = a | _ \<Rightarrow> True)"

lemma keeps_simps [simp]:
  "keeps_net F a (Ret (c, s)) \<longleftrightarrow> F (xnet s) = a" "keeps_net F a Undefined" "keeps_net F a Killed" "keeps_net F a Diverges"
  by (simp_all add: keeps_net_def)

lemma keeps_bind: "(\<And>x. m = Ret x \<Longrightarrow> keeps_net F a (f x)) \<Longrightarrow> keeps_net F a (bind_out m f)"
  by (cases m) (simp_all add: keeps_net_def)

lemma read_cmd_net:
  assumes "net_keeps net F" "F (xnet s) = a" "\<And>s'. F (xnet s') = a \<Longrightarrow> keeps_net F a (k s')"
  shows "keeps_net F a (read_cmd net off n s k)"
  unfolding read_cmd_def assms(2)[symmetric]
  by (auto simp: Let_def intro!: keeps_bind assms(3)[folded assms(2)] dest!: read_exact_net[OF assms(1)])

lemma send_reply_net:
  assumes "net_keeps net F" "F (xnet s) = a" "\<And>s'. F (xnet s') = a \<Longrightarrow> keeps_net F a (k s')"
  shows "keeps_net F a (send_reply net reply s k)"
  unfolding send_reply_def assms(2)[symmetric]
  by (auto intro!: keeps_bind assms(3)[folded assms(2)] dest!: write_exact_net[OF assms(1)])

lemma read_vectors_net:
  assumes "net_keeps net F" "F (xnet s) = a" "\<And>s'. F (xnet s') = a \<Longrightarrow> keeps_net F a (k s')"
  shows "keeps_net F a (read_vectors net n s k)"
  unfolding read_vectors_def assms(2)[symmetric]
  by (auto simp: Let_def intro!: keeps_bind assms(3)[folded assms(2)] dest!: read_exact_net[OF assms(1)] split: option.splits)

lemma xnet_put_xmem [simp]: "xnet (put_xmem m s) = xnet s"
  by (simp add: put_xmem_def)

lemma send_result_net:
  assumes "net_keeps net F" "F (xnet s) = a"
  shows "keeps_net F a (send_result net res n s)"
  using send_reply_net[OF assms] by (simp add: send_result_def split: option.splits)

lemma shift_vectors_net:
  assumes "net_keeps net F" "F (xnet s) = a"
  shows "keeps_net F a (shift_vectors net drv len n s)"
  unfolding shift_vectors_def
  by (auto simp: Let_def assms(2) intro!: keeps_bind send_result_net[OF assms(1)] split: option.splits)

lemma shift_rest_net:
  assumes "net_keeps net F" "F (xnet s) = a"
  shows "keeps_net F a (shift_rest net drv s)"
  unfolding shift_rest_def
  by (rule read_cmd_net[OF assms]) (auto simp: Let_def intro!: read_vectors_net[OF assms(1)] shift_vectors_net[OF assms(1)])

lemma settck_apply_net:
  assumes "net_keeps net F" "F (xnet s) = a"
  shows "keeps_net F a (settck_apply net drv p s)"
  unfolding settck_apply_def
  by (auto simp: Let_def assms(2) intro!: keeps_bind send_reply_net[OF assms(1)] split: option.splits)

lemma handle_command_net:
  assumes net: "net_keeps net F" and a: "F (xnet s) = a"
  shows "keeps_net F a (handle_command net drv f s)"
  unfolding handle_command_def
proof (rule read_cmd_net[OF net a])
  fix t :: "('a, 'c) xvc_io" assume t: "F (xnet t) = a"
  have "keeps_net F a (handle_getinfo net t)"
    unfolding handle_getinfo_def by (rule read_cmd_net[OF net t], rule send_reply_net[OF net]) simp_all
  moreover have "keeps_net F a (handle_settck net drv f t)"
    unfolding handle_settck_def by (rule read_cmd_net[OF net t], rule settck_apply_net[OF net])
  moreover have "keeps_net F a (handle_shift net drv t)"
    unfolding handle_shift_def
    by (rule read_cmd_net[OF net t]) (auto intro!: keeps_bind shift_rest_net[OF net] dest!: read_exact_net[OF net])
  ultimately show "keeps_net F a (let cmd = take 2 (cmd_buf (xctx t)) in if cmd = chars ''ge'' then handle_getinfo net t
      else if cmd = chars ''se'' then handle_settck net drv f t else if cmd = chars ''sh'' then handle_shift net drv t else Ret (Some (-1), t))"
    using t by (simp add: Let_def)
qed

lemma command_loop_net:
  assumes net: "net_keeps net F" and l: "command_loop net drv f s = Some r"
  shows "\<forall>c s'. r = Ret (c, s') \<longrightarrow> F (xnet s') = F (xnet s)"
proof (rule mp[OF command_loop.raw_induct[OF _ l, where P = "\<lambda>nt dr fr s r. net_keeps nt F \<longrightarrow> (\<forall>c s'. r = Ret (c, s') \<longrightarrow> F (xnet s') = F (xnet s))"] net], intro impI allI)
  fix loop nt s r c s' and dr :: "'c ft_driver" and fr
  assume IH: "\<And>nt (dr :: 'c ft_driver) fr s r. loop nt dr fr s = Some r \<Longrightarrow> net_keeps nt F \<longrightarrow> (\<forall>c s'. r = Ret (c, s') \<longrightarrow> F (xnet s') = F (xnet s))"
    and step: "(case handle_command nt dr fr s of
        Ret (None, s1) \<Rightarrow> if seen_tlr (xctx s1) \<and> jtag_st (xctx s1) = JTAG_RUN_TEST_IDLE then Some (Ret (0, s1)) else loop nt dr fr s1
      | Ret (Some code, s1) \<Rightarrow> Some (Ret (code, s1)) | Undefined \<Rightarrow> Some Undefined | Killed \<Rightarrow> Some Killed | Diverges \<Rightarrow> Some Diverges) = Some r"
    and k: "net_keeps nt F" and r: "r = Ret (c, s')"
  obtain p t where h: "handle_command nt dr fr s = Ret (p, t)"
    using step r by (cases "handle_command nt dr fr s") auto
  from handle_command_net[OF k refl, of s dr fr] have t: "F (xnet t) = F (xnet s)" by (simp add: h)
  show "F (xnet s') = F (xnet s)"
    using step h r t IH[of nt dr fr t r] k by (cases p) (auto split: if_splits)
qed

lemma xvc_init_net: "xnet (snd (xvc_init mal fd n s)) = xnet s"
  by (simp add: xvc_init_def Let_def split: option.splits prod.splits)

lemma xvc_handle_net:
  assumes "net_keeps net F" "xvc_handle mal net drv fd n f s = Ret (c, s')"
  shows "F (xnet s') = F (xnet s)"
proof -
  let ?i = "if vector_buf (xctx s) = None \<or> socket_fd (xctx s) \<noteq> fd
            then xvc_init mal fd (if n > 0 then n else max_vector_size (xctx s)) s else (0, s)"
  obtain code t where i: "?i = (code, t)" by fastforce
  have t: "xnet t = xnet s" using i xvc_init_net by (metis snd_conv)
  show ?thesis
  proof (cases "code < 0")
    case True
    then show ?thesis using assms(2) i t by (simp add: xvc_handle_def)
  next
    case False
    then have "command_loop net drv f t = Some (Ret (c, s'))"
      using assms(2) i by (simp add: xvc_handle_def split: option.splits)
    from command_loop_net[OF assms(1) this] t show ?thesis by simp
  qed
qed

end
