(* ===== verification/Xvc_Ends.thy ===== *)
theory Xvc_Ends
  imports Adapter_Ends Xvc_Net
begin

text \<open>
  The protocol handler comes to an end if no read or write of the socket blocks for ever: the client
  has only finitely many bytes left to send, every command that keeps the loop going has consumed at
  least two of them, and the adapter underneath comes to an end. Nothing is assumed of the protocol's
  buffers, of the allocator or of what the bytes are.
\<close>

section \<open>Finitely many bytes\<close>

text \<open>
  \<open>left n\<close> bounds what can still be read from network state \<open>n\<close>: reading takes the bytes
  away, nothing adds to them while the handler runs.
\<close>

definition finite_input :: "'n net \<Rightarrow> ('n \<Rightarrow> nat) \<Rightarrow> bool" where
  "finite_input net left \<longleftrightarrow>
     (\<forall>n fd k. left (snd (net_read net n fd k)) +
        (case fst (net_read net n fd k) of Got data \<Rightarrow> length data | _ \<Rightarrow> 0) \<le> left n) \<and>
     (\<forall>n fd p. left (snd (net_write net n fd p)) \<le> left n)"

text \<open>
  No call blocks for ever: a client that has begun a command goes on, closes the connection or
  resets it, and one that is sent a reply reads it. The sockets have no timeout that would see to this.
\<close>

definition never_blocks :: "'n net \<Rightarrow> bool" where
  "never_blocks net \<longleftrightarrow> (\<forall>n fd k. fst (net_read net n fd k) \<noteq> Read_Blocked) \<and> (\<forall>n fd p. fst (net_write net n fd p) \<noteq> Write_Blocked)"

definition net_preserves :: "'n net \<Rightarrow> ('n \<Rightarrow> bool) \<Rightarrow> bool" where
  "net_preserves net Q \<longleftrightarrow> (\<forall>n fd k. Q n \<longrightarrow> Q (snd (net_read net n fd k))) \<and> (\<forall>n fd p. Q n \<longrightarrow> Q (snd (net_write net n fd p)))"

definition input_ok :: "'n net \<Rightarrow> ('n \<Rightarrow> nat) \<Rightarrow> ('n \<Rightarrow> bool) \<Rightarrow> bool" where
  "input_ok net left Q \<longleftrightarrow> finite_input net left \<and> never_blocks net \<and> net_preserves net Q"

lemma never_blocksD:
  assumes "never_blocks net"
  shows "net_read net n fd k \<noteq> (Read_Blocked, n')" "net_write net n fd p \<noteq> (Write_Blocked, n')"
  using assms unfolding never_blocks_def by (metis fst_conv)+

lemma input_okD:
  assumes "input_ok net left Q"
  shows "net_read net n fd k = (Got data, n') \<Longrightarrow> left n' + length data \<le> left n"
    "net_read net n fd k = (r, n') \<Longrightarrow> left n' \<le> left n \<and> (Q n \<longrightarrow> Q n')"
    "net_write net n fd p = (w, n') \<Longrightarrow> left n' \<le> left n \<and> (Q n \<longrightarrow> Q n')"
proof -
  have r: "left (snd (net_read net n fd k)) + (case fst (net_read net n fd k) of Got data \<Rightarrow> length data | _ \<Rightarrow> 0) \<le> left n"
      "Q n \<Longrightarrow> Q (snd (net_read net n fd k))"
    and w: "left (snd (net_write net n fd p)) \<le> left n" "Q n \<Longrightarrow> Q (snd (net_write net n fd p))"
    using assms by (auto simp: input_ok_def finite_input_def net_preserves_def)
  from r show "net_read net n fd k = (Got data, n') \<Longrightarrow> left n' + length data \<le> left n"
    "net_read net n fd k = (r, n') \<Longrightarrow> left n' \<le> left n \<and> (Q n \<longrightarrow> Q n')" by auto
  from w show "net_write net n fd p = (w, n') \<Longrightarrow> left n' \<le> left n \<and> (Q n \<longrightarrow> Q n')" by simp
qed

lemma read_exact_left:
  "input_ok net left Q \<Longrightarrow> xvc_read_exact net fd len acc n = Ret (r, data, n') \<Longrightarrow> left n' + (length data - length acc) \<le> left n
     \<and> (Q n \<longrightarrow> Q n') \<and> length acc \<le> length data \<and> (r = 1 \<longrightarrow> 0 \<le> len \<longrightarrow> int (length data) = int (length acc) + len)"
proof (induction net fd len acc n rule: xvc_read_exact.induct)
  case (1 net fd len acc n)
  show ?case
  proof (cases "len > 0")
    case False
    then show ?thesis using 1(3) by (simp add: xvc_read_exact.simps[of net fd len])
  next
    case True
    obtain sr n1 where sr: "net_read net n fd (nat len) = (sr, n1)" by fastforce
    note n1 = input_okD(2)[OF 1(2) sr]
    show ?thesis
    proof (cases sr)
      case (Got d)
      note d = input_okD(1)[OF 1(2) sr[unfolded Got]]
      consider "d = []" | "d \<noteq> []" "int (length d) > len" | "d \<noteq> []" "\<not> int (length d) > len" by blast
      then show ?thesis
      proof cases
        case 3
        then have "xvc_read_exact net fd (len - int (length d)) (acc @ d) n1 = Ret (r, data, n')"
          using 1(3) True sr Got by (simp add: xvc_read_exact.simps[of net fd len])
        from 1(1)[OF True sr[symmetric] Got 3 1(2) this] d 3 n1 show ?thesis by auto
      qed (use 1(3) True sr Got n1 in \<open>simp_all add: xvc_read_exact.simps[of net fd len]\<close>)
    qed (use 1(3) True sr n1 in \<open>simp_all add: xvc_read_exact.simps[of net fd len]\<close>)
  qed
qed

lemma read_exact_ends: "input_ok net left Q \<Longrightarrow> xvc_read_exact net fd len acc n \<noteq> Diverges"
proof (induction net fd len acc n rule: xvc_read_exact.induct)
  case (1 net fd len acc n)
  then show ?case
    by (subst xvc_read_exact.simps) (auto simp: input_ok_def never_blocksD split: prod.splits sock_read.splits)
qed

lemma write_exact_ends: "input_ok net left Q \<Longrightarrow> xvc_write_exact net fd p n \<noteq> Diverges"
proof (induction net fd p n rule: xvc_write_exact.induct)
  case (1 net fd p n)
  then show ?case
    by (subst xvc_write_exact.simps) (auto simp: input_ok_def never_blocksD split: prod.splits sock_write.splits)
qed

lemma write_exact_left: "input_ok net left Q \<Longrightarrow> xvc_write_exact net fd p n = Ret (r, n') \<Longrightarrow> left n' \<le> left n \<and> (Q n \<longrightarrow> Q n')"
proof (induction net fd p n rule: xvc_write_exact.induct)
  case (1 net fd p n)
  obtain sw n1 where w: "net_write net n fd p = (sw, n1)" by fastforce
  note n1 = input_okD(3)[OF 1(2) w]
  show ?case
  proof (cases "length p > 0")
    case True
    show ?thesis
    proof (cases sw)
      case (Wrote v)
      then show ?thesis using 1(1)[OF True w[symmetric] Wrote _ 1(2)] 1(3) True w n1
        by (cases "v \<le> 0") (auto simp: xvc_write_exact.simps[of net fd p])
    qed (use 1(3) True w in \<open>simp_all add: xvc_write_exact.simps[of net fd p]\<close>)
  next
    case False
    then have "(r, n') = (0, n)" using 1(3) by (subst (asm) xvc_write_exact.simps) simp
    then show ?thesis by simp
  qed
qed

section \<open>Commands\<close>

text \<open>At most \<open>a\<close> bytes left, \<open>Q\<close> of the network and a usable adapter; a result that ends in such a state.\<close>

definition at :: "('n \<Rightarrow> nat) \<Rightarrow> ('n \<Rightarrow> bool) \<Rightarrow> nat \<Rightarrow> ('n, 'd) xvc_io \<Rightarrow> bool" where
  "at left Q a s \<longleftrightarrow> left (xnet s) \<le> a \<and> Q (xnet s) \<and> adapter_ok (xftdi s)"

definition live :: "('n \<Rightarrow> nat) \<Rightarrow> ('n \<Rightarrow> bool) \<Rightarrow> nat \<Rightarrow> ('n, 'd) xvc_result \<Rightarrow> bool" where
  "live left Q a r \<longleftrightarrow> ends_in (\<lambda>(c, s). at left Q a s) r"

lemma live_simps [simp]:
  "live left Q a (Ret (c, s)) \<longleftrightarrow> at left Q a s" "live left Q a Undefined" "live left Q a Killed" "\<not> live left Q a Diverges"
  by (simp_all add: live_def)

lemma at_xctx [simp]: "at left Q a (s\<lparr>xctx := c\<rparr>) \<longleftrightarrow> at left Q a s"
  by (simp add: at_def)

lemma at_net: "at left Q a s \<Longrightarrow> left n \<le> left (xnet s) \<Longrightarrow> (Q (xnet s) \<longrightarrow> Q n) \<Longrightarrow> at left Q a (s\<lparr>xnet := n\<rparr>)"
  by (simp add: at_def)

lemma at_mem [simp]: "at left Q a (put_xmem m s) \<longleftrightarrow> at left Q a s"
  by (simp add: at_def put_xmem_def)

lemma live_bind: "m \<noteq> Diverges \<Longrightarrow> (\<And>x. m = Ret x \<Longrightarrow> live left Q a (f x)) \<Longrightarrow> live left Q a (bind_out m f)"
  by (cases m) simp_all

lemma read_cmd_live:
  assumes net: "input_ok net left Q" and s: "at left Q a s" and k: "\<And>s'. at left Q a s' \<Longrightarrow> live left Q a (k s')"
  shows "live left Q a (read_cmd net off n s k)"
  unfolding read_cmd_def
  using s by (intro live_bind) (auto simp: Let_def at_def read_exact_ends[OF net] intro!: k dest!: read_exact_left[OF net])

text \<open>The first read of a command takes two bytes away.\<close>

lemma read_two_live:
  assumes net: "input_ok net left Q" and s: "at left Q a s" and k: "\<And>s'. 2 \<le> a \<Longrightarrow> at left Q (a - 2) s' \<Longrightarrow> live left Q (a - 2) (k s')"
  shows "live left Q a (read_cmd net off 2 s k) \<and> (\<forall>s'. read_cmd net off 2 s k = Ret (None, s') \<longrightarrow> 2 \<le> a \<and> at left Q (a - 2) s')"
proof -
  obtain r where r: "xvc_read_exact net (socket_fd (xctx s)) 2 [] (xnet s) = r" "r \<noteq> Diverges"
    using read_exact_ends[OF net] by blast
  show ?thesis
  proof (cases r)
    case (Ret x)
    obtain v data n1 where x: "x = (v, data, n1)" by (cases x)
    note d = read_exact_left[OF net r(1)[unfolded Ret x]]
    define s1 where "s1 = s\<lparr>xctx := (xctx s)\<lparr>cmd_buf := take off (cmd_buf (xctx s)) @ data @ drop (off + length data) (cmd_buf (xctx s))\<rparr>, xnet := n1\<rparr>"
    define s2 where "s2 = s1\<lparr>xctx := (xctx s1)\<lparr>bytes_rx := bytes_rx (xctx s1) + 2\<rparr>\<rparr>"
    have eq: "read_cmd net off 2 s k = (if v \<noteq> 1 then Ret (Some 1, s1) else k s2)"
      using r(1) by (simp add: read_cmd_def Ret x Let_def s1_def s2_def)
    have s1: "at left Q a s1" using s d by (simp add: at_def s1_def)
    show ?thesis
    proof (cases "v = 1")
      case True
      then have "2 \<le> a" "at left Q (a - 2) s2" using s d by (auto simp: at_def s1_def s2_def)
      from this k[OF this] True show ?thesis unfolding eq by (auto simp: live_def at_def elim!: ends_in_mono)
    qed (use s1 in \<open>auto simp: eq\<close>)
  qed (use r in \<open>auto simp: read_cmd_def\<close>)
qed

lemma send_reply_live:
  assumes net: "input_ok net left Q" and s: "at left Q a s" and k: "\<And>s'. at left Q a s' \<Longrightarrow> live left Q a (k s')"
  shows "live left Q a (send_reply net reply s k)"
  unfolding send_reply_def
  using s by (intro live_bind) (auto simp: at_def write_exact_ends[OF net] intro!: k dest!: write_exact_left[OF net])

lemma read_vectors_live:
  assumes net: "input_ok net left Q" and s: "at left Q a s" and k: "\<And>s'. at left Q a s' \<Longrightarrow> live left Q a (k s')"
  shows "live left Q a (read_vectors net n s k)"
  unfolding read_vectors_def
  using s by (auto simp: Let_def at_def read_exact_ends[OF net] intro!: live_bind k dest!: read_exact_left[OF net] split: option.splits)

lemma send_result_live: "input_ok net left Q \<Longrightarrow> at left Q a s \<Longrightarrow> live left Q a (send_result net res n s)"
  by (auto simp: send_result_def intro!: send_reply_live split: option.splits)

lemma mem_copy_ends [simp]: "mem_copy blk off bs m \<noteq> Diverges"
  by (simp add: mem_copy_def split: option.splits)

lemma at_ftdi: "at left Q a s \<Longrightarrow> adapter_ok f \<Longrightarrow> at left Q a (s\<lparr>xftdi := f\<rparr>)"
  by (simp add: at_def)

lemma scan_and_send_live:
  assumes "driver_reads drv" "input_ok net left Q" "at left Q a s" "at left Q a t"
  shows "live left Q a (bind_out (ftdi_adapter_scan drv tms tdi tdo len (xftdi t)) (\<lambda>(code, f).
     if code < 0 then Ret (Some (-1), s\<lparr>xftdi := f\<rparr>) else send_result net res n (s\<lparr>xftdi := f\<rparr>)))"
proof (rule live_bind)
  have ok: "adapter_ok (xftdi t)" using assms(4) by (simp add: at_def)
  then show "ftdi_adapter_scan drv tms tdi tdo len (xftdi t) \<noteq> Diverges" by (rule ftdi_scan_ends[OF assms(1)])
  fix x assume "ftdi_adapter_scan drv tms tdi tdo len (xftdi t) = Ret x"
  then have "at left Q a (s\<lparr>xftdi := snd x\<rparr>)" using at_ftdi[OF assms(3)] ftdi_scan_keeps[OF ok] by (cases x) auto
  then show "live left Q a (case x of (code, f) \<Rightarrow>
     if code < 0 then Ret (Some (-1), s\<lparr>xftdi := f\<rparr>) else send_result net res n (s\<lparr>xftdi := f\<rparr>))"
    using send_result_live[OF assms(2)] by (cases x) auto
qed

lemma shift_vectors_live:
  assumes "driver_reads drv" "input_ok net left Q" "at left Q a s"
  shows "live left Q a (shift_vectors net drv len n s)"
  using assms unfolding shift_vectors_def
  by (auto simp: Let_def intro!: live_bind[OF mem_copy_ends] send_result_live scan_and_send_live split: option.splits)

lemma shift_rest_live:
  assumes "driver_reads drv" "input_ok net left Q" "at left Q a s"
  shows "live left Q a (shift_rest net drv s)"
  unfolding shift_rest_def
  by (rule read_cmd_live[OF assms(2,3)])
    (auto simp: Let_def intro!: read_vectors_live[OF assms(2)] shift_vectors_live[OF assms(1,2)])

lemma settck_apply_live:
  assumes "driver_reads drv" "input_ok net left Q" "at left Q a s"
  shows "live left Q a (settck_apply net drv p s)"
proof -
  have ok: "adapter_ok (xftdi s)" using assms(3) by (simp add: at_def)
  have "at left Q a (s\<lparr>xftdi := f\<rparr>)" if "ftdi_adapter_set_period drv p (xftdi s) = Ret (c, f)" for c f
    by (rule at_ftdi[OF assms(3) set_period_keeps[OF ok that]])
  then show ?thesis
    unfolding settck_apply_def using set_period_ends[OF assms(1) ok]
    by (auto simp: Let_def intro!: live_bind[OF mem_copy_ends] live_bind[OF set_period_ends[OF assms(1) ok]]
        send_reply_live[OF assms(2)] split: option.splits)
qed

lemma handle_command_live:
  assumes drv: "driver_reads drv" and net: "input_ok net left Q" and s: "at left Q a s"
  shows "live left Q a (handle_command net drv f s) \<and>
    (\<forall>s'. handle_command net drv f s = Ret (None, s') \<longrightarrow> 2 \<le> a \<and> at left Q (a - 2) s')"
  unfolding handle_command_def
proof (rule read_two_live[OF net s])
  fix t :: "('b, 'a) xvc_io" let ?b = "a - 2" assume t: "at left Q ?b t"
  have "live left Q ?b (handle_getinfo net t)"
    unfolding handle_getinfo_def by (rule read_cmd_live[OF net t], rule send_reply_live[OF net]) simp_all
  moreover have "live left Q ?b (handle_settck net drv f t)"
    unfolding handle_settck_def by (rule read_cmd_live[OF net t], rule settck_apply_live[OF drv net])
  moreover have "live left Q ?b (handle_shift net drv t)"
    unfolding handle_shift_def
  proof (rule read_cmd_live[OF net t])
    fix u :: "('b, 'a) xvc_io" assume u: "at left Q ?b u"
    then have "at left Q ?b (u\<lparr>xctx := c, xnet := n\<rparr>)" "at left Q ?b (u\<lparr>xnet := n\<rparr>)"
      if "xvc_read_exact net (socket_fd (xctx u)) 1 [] (xnet u) = Ret (r, d, n)" for r d n c
      using read_exact_left[OF net that] by (auto simp: at_def)
    with u show "live left Q ?b (if cmd_buf (xctx u) ! 4 = of_char (CHR ''e'') \<or> cmd_buf (xctx u) ! 4 = of_char (CHR ''E'') then
         bind_out (xvc_read_exact net (socket_fd (xctx u)) 1 [] (xnet u)) (\<lambda>(r, colon, n1).
           if r \<noteq> 1 then Ret (Some 1, u\<lparr>xnet := n1\<rparr>)
           else shift_rest net drv (u\<lparr>xctx := (xctx u)\<lparr>bytes_rx := bytes_rx (xctx u) + 1\<rparr>, xnet := n1\<rparr>))
       else shift_rest net drv u)"
      by (auto intro!: live_bind[OF read_exact_ends[OF net]] shift_rest_live[OF drv net])
  qed
  ultimately show "live left Q ?b (let cmd = take 2 (cmd_buf (xctx t)) in if cmd = chars ''ge'' then handle_getinfo net t
      else if cmd = chars ''se'' then handle_settck net drv f t else if cmd = chars ''sh'' then handle_shift net drv t else Ret (Some (-1), t))"
    using t by (simp add: Let_def)
qed

section \<open>The command loop\<close>

lemma command_loop_live:
  assumes drv: "driver_reads drv" and net: "input_ok net left Q"
  shows "at left Q a s \<Longrightarrow> \<exists>r. command_loop net drv f s = Some r \<and> r \<noteq> Diverges \<and> 
    (\<forall>c s'. r = Ret (c, s') \<longrightarrow> Q (xnet s') \<and> adapter_ok (xftdi s'))"
proof (induction a arbitrary: s rule: less_induct)
  case (less a)
  note h = handle_command_live[OF drv net less.prems, of f]
  show ?case
  proof (cases "handle_command net drv f s")
    case (Ret x)
    then obtain c s1 where x: "handle_command net drv f s = Ret (c, s1)" by (cases x) auto
    show ?thesis
    proof (cases c)
      case None
      with h x have "2 \<le> a" "at left Q (a - 2) s1" by auto
      with less.IH[of "a - 2" s1] x None show ?thesis
        by (subst command_loop.simps) (auto simp: at_def)
    qed (use h x in \<open>subst command_loop.simps, auto simp: at_def\<close>)
  qed (use h in \<open>(subst command_loop.simps, auto)+\<close>)
qed

lemma xvc_init_adapter: "adapter_ok (xftdi (snd (xvc_init mal fd n s))) \<longleftrightarrow> adapter_ok (xftdi s)"
  by (simp add: xvc_init_def Let_def put_xmem_def split: option.splits prod.splits)

lemma xvc_handle_live:
  assumes drv: "driver_reads drv" and net: "input_ok net left Q" and s: "adapter_ok (xftdi s)" "Q (xnet s)"
  shows "xvc_handle mal net drv fd n f s \<noteq> Diverges \<and>
    (\<forall>c s'. xvc_handle mal net drv fd n f s = Ret (c, s') \<longrightarrow> Q (xnet s') \<and> adapter_ok (xftdi s'))"
proof -
  let ?i = "if vector_buf (xctx s) = None \<or> socket_fd (xctx s) \<noteq> fd
            then xvc_init mal fd (if n > 0 then n else max_vector_size (xctx s)) s else (0, s)"
  obtain code t where i: "?i = (code, t)" by fastforce
  have t: "adapter_ok (xftdi t)" "Q (xnet t)" using i xvc_init_adapter xvc_init_net s by (metis snd_conv)+
  then have "at left Q (left (xnet t)) t" by (simp add: at_def)
  with command_loop_live[OF drv net this, of f] i t show ?thesis by (auto simp: xvc_handle_def)
qed

text \<open>
  C9. If no read or write of the socket blocks for ever, a call of the protocol handler does not go
  on for ever: for any driver whose successful reads return data, any allocator, any protocol context,
  an adapter whose buffers are within their capacities, and a client with finitely many bytes left
  to send, whatever they are, the call returns, the process is ended by \<open>SIGPIPE\<close>, or a step with
  undefined behaviour is reached.
\<close>

theorem xvc_handle_ends:
  assumes "driver_reads drv" "finite_input net left" "never_blocks net" "buffers_ok (mio (xftdi s))"
  shows "xvc_handle mal net drv fd xvc_buffer_size frequency s \<noteq> Diverges"
proof -
  have "input_ok net left (\<lambda>_. True)" using assms(2,3) by (simp add: input_ok_def net_preserves_def)
  from xvc_handle_live[OF assms(1) this assms(4)] show ?thesis by blast
qed

end
