(* ===== verification/Mpsse_Dump.thy ===== *)
theory Mpsse_Dump
  imports Mpsse_Adapter
begin

text \<open>
  The command dump of \<^verbatim>\<open>src/mpsse_adapter.c\<close>: \<open>mpsse_adapter_set_dump_file\<close>,
  \<open>format_tms_tdi_hex\<close> and the block of \<open>mpsse_buffer_flush\<close> that writes each flushed command
  buffer as a line of hexadecimal bytes. No caller in the program opens a dump file, so the other
  theories model a context without one (\<open>dump_file\<close> is \<open>None\<close>); here it is a record beside the
  context, with the content written so far. Reading a vector past its end is \<open>Undefined\<close>.
\<close>

section \<open>Operations\<close>

record mpsse_dump =
  dump_file :: "string option"
  current_tms :: "u8 list option"
  current_tdi :: "u8 list option"

text \<open>\<^verbatim>\<open>%02X\<close> of a byte.\<close>

definition show_hex2 :: "u8 \<Rightarrow> string" where
  "show_hex2 b = [hex_digit (unat b div 16), hex_digit (unat b mod 16)]"

text \<open>The loop of \<open>format_tms_tdi_hex\<close>, from iteration \<open>i\<close>; \<open>offset\<close> is the length of \<open>buf\<close>.\<close>

function hex_pairs :: "nat \<Rightarrow> u8 list \<Rightarrow> u8 list \<Rightarrow> nat \<Rightarrow> nat \<Rightarrow> nat \<Rightarrow> string \<Rightarrow> string outcome" where
  "hex_pairs buf_size tms tdi start_byte num_bytes i buf =
     (if i < num_bytes \<and> length buf < buf_size - 10 then
        (let byte_idx = start_byte + i in
         if byte_idx < length tms \<and> byte_idx < length tdi
         then hex_pairs buf_size tms tdi start_byte num_bytes (i + 1)
                (buf @ (if i > 0 then '' '' else []) @ show_hex2 (tms ! byte_idx) @ show_hex2 (tdi ! byte_idx))
         else Undefined)
      else Ret buf)"
  by auto
termination
  by (relation "measure (\<lambda>(buf_size, tms, tdi, start_byte, num_bytes, i, buf). num_bytes - i)") auto

declare hex_pairs.simps [simp del]

definition format_tms_tdi_hex :: "mpsse_dump \<Rightarrow> nat \<Rightarrow> nat \<Rightarrow> nat \<Rightarrow> string outcome" where
  "format_tms_tdi_hex d bit_offset num_bits buf_size =
     (case (current_tms d, current_tdi d) of
        (Some tms, Some tdi) \<Rightarrow>
          if num_bits = 0 then Ret ''N/A''
          else let start_byte = bit_offset div 8; end_bit = bit_offset + num_bits - 1; end_byte = end_bit div 8
               in hex_pairs buf_size tms tdi start_byte (end_byte - start_byte + 1) 0 []
      | _ \<Rightarrow> Ret ''N/A'')"

text \<open>The bytes of the transmit buffer, separated by spaces.\<close>

fun hex_line :: "u8 list \<Rightarrow> string" where
  "hex_line [] = []"
| "hex_line [b] = show_hex2 b"
| "hex_line (b # bs) = show_hex2 b @ '' '' @ hex_line bs"

definition TMS_TDI_BUF :: nat where "TMS_TDI_BUF = 2048"

text \<open>
  The dump block of a flush, which runs on a buffer that is not empty before its bytes are sent.
\<close>

definition dump_commands :: "mpsse_context \<Rightarrow> mpsse_dump \<Rightarrow> mpsse_dump outcome" where
  "dump_commands c d =
     (case dump_file d of
        None \<Rightarrow> Ret d
      | Some content \<Rightarrow>
          bind_out (format_tms_tdi_hex d (current_bit_offset c) ((length (tx_buffer c) + 1) div 2 * 8) TMS_TDI_BUF) (\<lambda>tms_tdi_buf.
            Ret (d\<lparr>dump_file := Some (content @ ''INPUT: '' @ tms_tdi_buf @ [NL] @ hex_line (tx_buffer c) @ [NL])\<rparr>)))"

text \<open>The vectors \<open>mpsse_adapter_scan\<close> makes known to the dump.\<close>

definition dump_vectors :: "u8 list \<Rightarrow> u8 list \<Rightarrow> mpsse_dump \<Rightarrow> mpsse_dump" where
  "dump_vectors tms tdi d = d\<lparr>current_tms := Some tms, current_tdi := Some tdi\<rparr>"

text \<open>\<open>opens\<close>: whether \<open>fopen\<close> for writing succeeds. The error text is cut to the array of 256 bytes.\<close>

definition mpsse_adapter_set_dump_file ::
  "(string \<Rightarrow> bool) \<Rightarrow> string option \<Rightarrow> mpsse_context \<times> mpsse_dump \<Rightarrow> int \<times> mpsse_context \<times> mpsse_dump" where
  "mpsse_adapter_set_dump_file opens path = (\<lambda>(c, d).
     case path of
       None \<Rightarrow> (-1, c, d)
     | Some p \<Rightarrow>
         if \<not> opens p then (-1, c\<lparr>mpsse_error := take 255 (''Failed to open dump file: '' @ p)\<rparr>, d\<lparr>dump_file := None\<rparr>)
         else (0, c, d\<lparr>dump_file := Some (''# MPSSE command dump started'' @ [NL] @
                ''# Format: INPUT: <TMS TDI bytes> followed by MPSSE command bytes'' @ [NL])\<rparr>))"

text \<open>The part of \<open>mpsse_adapter_destroy\<close> that closes the file.\<close>

definition close_dump :: "mpsse_dump \<Rightarrow> mpsse_dump" where
  "close_dump d = d\<lparr>dump_file := None\<rparr>"

section \<open>Reading a dump\<close>

definition hex_value :: "char \<Rightarrow> nat option" where
  "hex_value ch = (if ch \<in> set ''0123456789ABCDEF'' then Some (length (takeWhile (\<lambda>x. x \<noteq> ch) ''0123456789ABCDEF'')) else None)"

fun read_hex :: "string \<Rightarrow> u8 list option" where
  "read_hex [] = Some []"
| "read_hex (a # b # rest) =
     (case (hex_value a, hex_value b) of
        (Some h, Some l) \<Rightarrow>
          (case rest of
             [] \<Rightarrow> Some [of_nat (16 * h + l)]
           | sp # xs \<Rightarrow> if sp = CHR '' '' \<and> xs \<noteq> [] then map_option ((#) (of_nat (16 * h + l))) (read_hex xs) else None)
      | _ \<Rightarrow> None)"
| "read_hex _ = None"

lemma hex_value_digit: "d < 16 \<Longrightarrow> hex_value (hex_digit d) = Some d"
proof -
  have "\<forall>d \<in> set [0..<16]. hex_value (hex_digit d) = Some d" by code_simp
  then show "d < 16 \<Longrightarrow> ?thesis" by simp
qed

lemma high_digit: "unat (b :: u8) div 16 < 16"
proof -
  have "unat b < 2 ^ LENGTH(8)" by (rule unsigned_less)
  then have "unat b < 16 * 16" by simp
  then show ?thesis by (rule less_mult_imp_div_less)
qed

lemma byte_digits: "of_nat (16 * (unat b div 16) + unat b mod 16) = (b :: u8)"
  by simp

lemma hex_line_not_empty: "bs \<noteq> [] \<Longrightarrow> hex_line bs \<noteq> []"
  by (cases bs rule: hex_line.cases) (simp_all add: show_hex2_def)

lemma read_hex_line: "read_hex (hex_line bs) = Some bs"
proof (induction bs rule: hex_line.induct)
  case (2 b)
  show ?case by (simp add: show_hex2_def hex_value_digit high_digit byte_digits del: of_nat_add of_nat_mult)
next
  case (3 b b' bs)
  show ?case using 3 hex_line_not_empty[of "b' # bs"]
    by (simp add: show_hex2_def hex_value_digit high_digit byte_digits del: of_nat_add of_nat_mult)
qed simp

section \<open>The formatted vectors fit their buffer\<close>

lemma hex_pairs_bound:
  "hex_pairs n tms tdi st k i buf = Ret txt' \<Longrightarrow> length buf < n \<Longrightarrow> length txt' < n"
proof (induction n tms tdi st k i buf rule: hex_pairs.induct)
  case (1 n tms tdi st k i buf)
  then show ?case by (subst (asm) (2) hex_pairs.simps) (auto simp: Let_def show_hex2_def split: if_splits)
qed

lemma hex_pairs_covered:
  "st + k \<le> length tms \<Longrightarrow> st + k \<le> length tdi \<Longrightarrow> \<exists>txt'. hex_pairs n tms tdi st k i buf = Ret txt'"
proof (induction n tms tdi st k i buf rule: hex_pairs.induct)
  case (1 n tms tdi st k i buf)
  then show ?case by (subst hex_pairs.simps) (auto simp: Let_def)
qed

text \<open>A byte of the window that the vectors do not have is read, unless the line is full before it.\<close>

lemma hex_pairs_overreads:
  "i \<le> j \<Longrightarrow> j < k \<Longrightarrow> \<not> (st + j < length tms \<and> st + j < length tdi) \<Longrightarrow> length buf \<le> 5 * i \<Longrightarrow> 5 * j < n - 10 \<Longrightarrow>
   hex_pairs n tms tdi st k i buf = Undefined"
proof (induction n tms tdi st k i buf rule: hex_pairs.induct)
  case (1 n tms tdi st k i buf)
  have c: "i < k" "length buf < n - 10" using 1(2,3,5,6) by auto
  show ?case
  proof (cases "st + i < length tms \<and> st + i < length tdi")
    case True
    define b where "b = buf @ (if i > 0 then '' '' else []) @ show_hex2 (tms ! (st + i)) @ show_hex2 (tdi ! (st + i))"
    have "i \<noteq> j" using True 1(4) by blast
    moreover have "length b \<le> 5 * (i + 1)" using 1(5) by (simp add: b_def show_hex2_def)
    ultimately have "hex_pairs n tms tdi st k (i + 1) b = Undefined"
      using 1(1)[OF conjI[OF c] refl True] 1(2-4,6) by (simp add: b_def)
    then show ?thesis using c True by (subst hex_pairs.simps) (simp add: b_def Let_def)
  qed (use c in \<open>subst hex_pairs.simps, auto simp: Let_def\<close>)
qed

text \<open>
  What a flush of a non-empty command buffer writes to an open dump file, when the vectors of a
  scan are known. The dump prints a window of the vectors, from the byte of the current bit offset
  over \<open>(tx + 1) / 2\<close> bytes, an estimate from the number of command bytes. If the window lies within
  both vectors, a line with the vectors, cut to its buffer, is appended, and a line from which the
  command bytes can be read back. If it does not and has at most 400 bytes, the dump reads past the
  end of a vector.
\<close>

theorem dump_records_commands:
  assumes d: "dump_file d = Some content" "current_tms d = Some tms" "current_tdi d = Some tdi" and tx: "tx_buffer c \<noteq> []"
  defines "first_byte \<equiv> current_bit_offset c div 8"
    and "last_byte \<equiv> (current_bit_offset c + (length (tx_buffer c) + 1) div 2 * 8 - 1) div 8" and "n \<equiv> min (length tms) (length tdi)"
  shows "(last_byte < n \<longrightarrow> (\<exists>input commands. dump_commands c d = Ret (d\<lparr>dump_file := Some (content @ ''INPUT: '' @ input @ [NL] @ commands @ [NL])\<rparr>) \<and>
      length input < 2048 \<and> read_hex commands = Some (tx_buffer c))) \<and>
    (n \<le> last_byte \<and> last_byte < first_byte + 400 \<longrightarrow> dump_commands c d = Undefined)"
proof -
  let ?k = "(length (tx_buffer c) + 1) div 2 * 8" and ?off = "current_bit_offset c"
  have k: "0 < ?k" using tx by (cases "tx_buffer c") auto
  have fl: "first_byte \<le> last_byte" unfolding first_byte_def last_byte_def using k by (intro div_le_mono) simp
  have fmt: "format_tms_tdi_hex d ?off ?k TMS_TDI_BUF = hex_pairs TMS_TDI_BUF tms tdi first_byte (last_byte - first_byte + 1) 0 []"
    using d(2,3) k by (simp add: format_tms_tdi_hex_def Let_def first_byte_def last_byte_def)
  have "dump_commands c d = Undefined" if "n \<le> last_byte" "last_byte < first_byte + 400"
  proof -
    have "hex_pairs TMS_TDI_BUF tms tdi first_byte (last_byte - first_byte + 1) 0 [] = Undefined"
      by (rule hex_pairs_overreads[of 0 "last_byte - first_byte"]) (use that fl in \<open>auto simp: n_def TMS_TDI_BUF_def\<close>)
    then show ?thesis using d(1) fmt by (simp add: dump_commands_def)
  qed
  moreover have "\<exists>input commands. dump_commands c d = Ret (d\<lparr>dump_file := Some (content @ ''INPUT: '' @ input @ [NL] @ commands @ [NL])\<rparr>) \<and>
      length input < 2048 \<and> read_hex commands = Some (tx_buffer c)" if inside: "last_byte < n"
  proof -
    obtain line where l: "hex_pairs TMS_TDI_BUF tms tdi first_byte (last_byte - first_byte + 1) 0 [] = Ret line"
      using hex_pairs_covered[of first_byte "last_byte - first_byte + 1" tms tdi TMS_TDI_BUF 0 "[]"] inside fl by (auto simp: n_def)
    have "length line < 2048" using hex_pairs_bound[OF l] by (simp add: TMS_TDI_BUF_def)
    then show ?thesis using read_hex_line[of "tx_buffer c"] d(1) fmt l by (auto simp: dump_commands_def)
  qed
  ultimately show ?thesis by blast
qed

end
