(* ===== verification/Instances.thy ===== *)
theory Instances
  imports Xvc_Refinement Xvc_Ends Mpsse_Dump
begin

text \<open>
  Concrete environments: a driver that talks to an ideal chip with a one-bit target behind it, a
  socket over byte lists and an allocator. They show that the hypotheses of the properties can
  hold together, and the witnesses apply each property to them.
\<close>

section \<open>A chip behind a driver\<close>

definition chip_driver :: "'t clocked \<Rightarrow> 't chip ft_driver" where
  "chip_driver clk =
     \<lparr>ft_create_device_info_list = (\<lambda>c. (0, 1, c)), ft_open_ex = (\<lambda>c _. (0, c)), ft_open = (\<lambda>c _. (0, c)),
      ft_setup_call = (\<lambda>c _. (0, c)), ft_set_bit_mode = (\<lambda>c _ _. (0, c\<lparr>phase := Ready, outq := []\<rparr>)),
      ft_get_device_info = (\<lambda>c. (0, c)), ft_close = (\<lambda>c. c),
      ft_write = (\<lambda>c bs. (0, of_nat (length bs), chip_run clk bs c)),
      ft_get_queue_status = (\<lambda>c. (0, of_nat (length (outq c)), c)),
      ft_read = (\<lambda>c n. (0, take (unat n) (outq c), c\<lparr>outq := drop (unat n) (outq c)\<rparr>))\<rparr>"

lemma chip_driver_ideal: "ideal_driver clk (\<lambda>c. c) (chip_driver clk)"
  by (simp add: ideal_driver_def chip_driver_def)

lemma chip_driver_clean: "clean_open (\<lambda>c. c) (chip_driver clk)"
  by (simp add: clean_open_def chip_driver_def)

text \<open>A target whose TDO is the TDI bit of the cycle before, as a device in BYPASS.\<close>

definition bypass :: "bool clocked" where
  "bypass t tms tdi = (tdi, t)"

definition idle_chip :: "bool chip" where
  "idle_chip = \<lparr>target = False, tms_pin = False, tdo_reg = 0, phase = Ready, divisor = 29, outq = []\<rparr>"

definition zero_malloc :: allocator where
  "zero_malloc m n = (if finite (dom m) then Some (LEAST a. a \<notin> dom m, replicate n 0) else None)"

lemma zero_malloc_ok: "malloc_ok zero_malloc"
proof -
  have "m (LEAST a. a \<notin> dom m) = None" if "finite (dom m)" for m :: memory
    using LeastI_ex[of "\<lambda>a. a \<notin> dom m"] ex_new_if_finite[OF infinite_UNIV_nat that] by auto
  then show ?thesis by (auto simp: malloc_ok_def zero_malloc_def split: if_splits)
qed

lemma zero_malloc_succeeds: "malloc_succeeds zero_malloc"
  by (simp add: malloc_succeeds_def zero_malloc_def)

section \<open>An open adapter\<close>

definition ex_ctx :: "jtag_state \<Rightarrow> mpsse_context" where
  "ex_ctx st =
     \<lparr>ft_handle = True, tx_buffer = [], max_tx_buffer_bytes = 196608, rx_num_bytes = 0, max_rx_buffer_bytes = 131072,
      rx_observers = [], tap_state = st, last_tdi = False, mpsse_is_open = True, mpsse_verbose = 0,
      chip_buffer_size = 65536, pool_used = 0, current_bit_offset = 0, total_flushes = 0, failed_flushes = 0, mpsse_error = []\<rparr>"

definition ex_io :: "jtag_state \<Rightarrow> memory \<Rightarrow> bool chip mpsse_io" where
  "ex_io st m = \<lparr>mctx = ex_ctx st, mdev = idle_chip, mmem = m\<rparr>"

lemma ex_io_ready: "adapter_ready (\<lambda>c. c) (ex_io st m)"
  by (simp add: adapter_ready_def ex_io_def ex_ctx_def idle_chip_def flushed_def)

definition ex_ftdi :: "jtag_state \<Rightarrow> memory \<Rightarrow> bool chip ftdi_io" where
  "ex_ftdi st m = \<lparr>fctx = \<lparr>has_mpsse = True, ftdi_is_open = True, ftdi_verbose = 0, ftdi_err = []\<rparr>, mio = ex_io st m\<rparr>"

lemma ex_ftdi_ready: "ftdi_ready bypass (\<lambda>c. c) (chip_driver bypass) (ex_ftdi st m)"
  by (simp add: ftdi_ready_def mpsse_ready_def ex_ftdi_def chip_driver_ideal ex_io_ready)

section \<open>A connection\<close>

text \<open>What the client will send and what it has received; every read delivers one byte.\<close>

definition pipe_net :: "(u8 list \<times> u8 list) net" where
  "pipe_net =
     \<lparr>net_read = (\<lambda>(i, o') fd k. if i = [] then (Closed, (i, o')) else (Got (take 1 i), (drop 1 i, o'))),
      net_write = (\<lambda>(i, o') fd p. (Wrote (int (length p)), (i, o' @ p)))\<rparr>"

lemma pipe_net_stream: "stream_net pipe_net fst snd"
  by (auto simp: stream_net_def pipe_net_def split: if_splits)

definition ex_xvc :: "u8 list \<Rightarrow> (u8 list \<times> u8 list, bool chip) xvc_io" where
  "ex_xvc input =
     \<lparr>xctx = (xvc_zero 5 64)\<lparr>vector_buf := Some (replicate 128 0), result_buf := Some 7\<rparr>,
      xnet = (input, []), xftdi = ex_ftdi SHIFT_DR [7 \<mapsto> replicate 64 0]\<rparr>"

lemma ex_xvc_wf: "xvc_wf (ex_xvc input)"
  by (simp add: xvc_wf_def ex_xvc_def xvc_zero_def ex_ftdi_def ex_io_def)

lemma ex_xvc_ready: "ftdi_ready bypass (\<lambda>c. c) (chip_driver bypass) (xftdi (ex_xvc input))"
  by (simp add: ex_xvc_def ex_ftdi_ready)

lemma ex_xvc_simps [simp]: "xnet (ex_xvc input) = (input, [])" "max_vector_size (xctx (ex_xvc input)) = 64"
  "jtag_st (xctx (ex_xvc input)) = JTAG_TEST_LOGIC_RESET"
  by (simp_all add: ex_xvc_def xvc_zero_def)

section \<open>Witnesses\<close>

text \<open>Twelve bits shifted through the one-bit target, leaving Shift-DR with the last one.\<close>

theorem mpsse_scan_correct_witness:
  "\<exists>io'. mpsse_adapter_scan (chip_driver bypass) [0, 8] [0xA5, 0x0F] 7 (int 12) (ex_io SHIFT_DR [7 \<mapsto> [0, 0]]) = Ret (0, io') \<and>
     adapter_ready (\<lambda>c. c) io' \<and> tap_state (mctx io') = state_at [0, 8] SHIFT_DR 12"
  using mpsse_scan_correct[OF ex_io_ready chip_driver_ideal, of SHIFT_DR "[7 \<mapsto> [0, 0]]" 7 "[0, 0]" 12 "[0, 8]" "[0xA5, 0x0F]"]
  by (auto simp: ex_io_def ex_ctx_def)

lemma chip_driver_present: "device_present (chip_driver clk)"
  by (simp add: device_present_def chip_driver_def)

theorem mpsse_open_ready_witness:
  "\<exists>c io'. mpsse_adapter_create (\<lambda>n. Some (replicate n 0)) = Some c \<and>
     mpsse_adapter_open (\<lambda>n. Some (replicate n 1)) (chip_driver bypass) None 0 \<lparr>mctx = c, mdev = idle_chip, mmem = Map.empty\<rparr> = Ret (0, io') \<and>
     adapter_ready (\<lambda>c. c) io'"
proof -
  obtain c where c: "mpsse_adapter_create (\<lambda>n. Some (replicate n 0)) = Some c" by (simp add: mpsse_adapter_create_def)
  from mpsse_open_ready[OF chip_driver_ideal[of bypass] chip_driver_clean c, of "\<lparr>mctx = c, mdev = idle_chip, mmem = Map.empty\<rparr>" "\<lambda>n. Some (replicate n 1)" None 0]
    chip_driver_present[of bypass] c
  show ?thesis by auto
qed

theorem set_frequency_programs_witness:
  "\<exists>io'. mpsse_adapter_set_frequency (chip_driver bypass) 1000000 (ex_io RUN_TEST_IDLE Map.empty) = Ret (1000000, io') \<and>
     divisor (mdev io') = 29"
proof -
  have "unat (1000000 :: u32) = 1000000" by simp
  then have d: "tck_divisor (unat (1000000 :: u32)) = 29" by (simp only: tck_divisor_def Let_def MPSSE_MAX_FREQUENCY_def) simp
  show ?thesis
    using set_frequency_programs[OF ex_io_ready[of RUN_TEST_IDLE Map.empty] chip_driver_ideal[of bypass], of 1000000] unfolding d by auto
qed

theorem tck_rate_bounds_witness: "20000000 \<le> tck_actual (tck_divisor 20000000) \<and> tck_actual (tck_divisor 20000000) < 40000000"
  using tck_rate_bounds[of 20000000] by simp


theorem set_period_actual_witness:
  "\<exists>s' d. ftdi_adapter_set_period (chip_driver bypass) 0 (ex_ftdi RUN_TEST_IDLE Map.empty) = Ret (100, s') \<and> divisor (mdev (mio s')) = d \<and> d = 2"
proof -
  obtain s' d a where "ftdi_adapter_set_period (chip_driver bypass) 0 (ex_ftdi RUN_TEST_IDLE Map.empty) = Ret (a, s')"
    "a = 1000000000 div (30000000 div (int d + 1))" "d \<le> 65535" "(d + 1) * 10000000 \<le> 30000000" "d = 65535 \<or> 30000000 < (d + 2) * 10000000"
    "mdev (mio s') = (mdev (mio (ex_ftdi RUN_TEST_IDLE Map.empty)))\<lparr>divisor := d\<rparr>"
    using set_period_actual[OF ex_ftdi_ready[of RUN_TEST_IDLE Map.empty], of 0] by auto
  moreover from this(3-5) have "d = 2" by auto
  ultimately show ?thesis by auto
qed

text \<open>The only device is in use by another process: \<open>FT_Open\<close> fails. The driver's state is the number of handles.\<close>

definition busy_driver :: "nat ft_driver" where
  "busy_driver = \<lparr>ft_create_device_info_list = (\<lambda>d. (0, 1, d)), ft_open_ex = (\<lambda>d _. (0, d + 1)), ft_open = (\<lambda>d _. (3, d)),
     ft_setup_call = (\<lambda>d _. (4, d)), ft_set_bit_mode = (\<lambda>d _ _. (4, d)), ft_get_device_info = (\<lambda>d. (4, d)), ft_close = (\<lambda>d. d - 1),
     ft_write = (\<lambda>d _. (4, 0, d)), ft_get_queue_status = (\<lambda>d. (4, 0, d)), ft_read = (\<lambda>d _. (4, [], d))\<rparr>"

lemma busy_driver_counts: "counts_handles busy_driver (\<lambda>d. d)"
  by (simp add: counts_handles_def busy_driver_def)

text \<open>By serial number the device can be opened, but it refuses to enter MPSSE mode, so the handle is closed again.\<close>

theorem ftdi_open_releases_witness:
  "\<exists>s s'. ftdi_adapter_create zero_malloc True 0 Map.empty = Some s \<and>
     ftdi_adapter_open zero_malloc busy_driver (Some ''FT1'') 0 s = Ret (-1, s') \<and> mdev (mio s') = 0"
proof -
  obtain s :: "nat ftdi_io" where s: "ftdi_adapter_create zero_malloc True 0 Map.empty = Some s"
    by (auto simp: ftdi_adapter_create_def mpsse_adapter_create_def block_of_def zero_malloc_def)
  then have "has_mpsse (fctx s)" by (auto simp: ftdi_adapter_create_def split: option.splits)
  then obtain s' where o: "ftdi_adapter_open zero_malloc busy_driver (Some ''FT1'') 0 s = Ret (-1, s')"
    by (simp add: ftdi_adapter_open_def ftdi_adapter_open_with_mode_def mpsse_adapter_open_def open_handle_def enter_mpsse_def busy_driver_def)
  from ftdi_open_releases[OF busy_driver_counts s o] s o show ?thesis by auto
qed

theorem int32_round_trip_witness: "xvc_put_int32 (xvc_get_int32 [1, 2, 3, 4]) = [1, 2, 3, 4]"
  using int32_round_trip[of 0 "[1, 2, 3, 4]"] by simp

text \<open>A connection that keeps what it has delivered, at most two bytes at a time.\<close>

definition diary_net :: "(u8 list \<times> u8 list) net" where
  "diary_net =
     \<lparr>net_read = (\<lambda>(i, l) fd k. if i = [] then (Read_Error, (i, l)) else (Got (take (min 2 k) i), (drop (min 2 k) i, l @ take (min 2 k) i))),
      net_write = (\<lambda>n fd p. (Sigpipe, n))\<rparr>"

lemma diary_net_logs: "logs_reads diary_net snd"
  by (auto simp: logs_reads_def diary_net_def)

theorem read_exact_bytes_witness:
  "\<exists>r data n'. xvc_read_exact diary_net 5 3 [] ([1, 2, 3, 4], [9]) = Ret (r, data, n') \<and> length data = 3 \<and> snd n' = [9] @ data"
proof -
  have r: "xvc_read_exact diary_net 5 3 [] ([1, 2, 3, 4], [9]) = Ret (1, [1, 2, 3], ([4], [9, 1, 2, 3]))"
    by (simp add: xvc_read_exact.simps diary_net_def)
  show ?thesis using read_exact_bytes[OF diary_net_logs r] r by simp
qed

theorem getinfo_reply_witness:
  "\<exists>s'. handle_command pipe_net (chip_driver bypass) 0 (ex_xvc (chars ''getinfo:'')) = Ret (Some 0, s') \<and>
     snd (xnet s') = chars ''xvcServer_v1.0:'' @ chars (show_int 64) @ [10]"
  using getinfo_reply[OF pipe_net_stream ex_xvc_wf[of "chars ''getinfo:''"], of "[]" "chip_driver bypass" 0] by auto

theorem settck_reply_witness:
  "\<exists>s'. handle_command pipe_net (chip_driver bypass) 0 (ex_xvc (chars ''settck:'' @ [100, 0, 0, 0])) = Ret (Some 0, s') \<and> xvc_wf s'"
  using settck_reply[OF pipe_net_stream ex_xvc_wf[of "chars ''settck:'' @ [100, 0, 0, 0]"] ex_xvc_ready, of "[100, 0, 0, 0]" "[]" _ 0 _, OF _ _ refl refl]
  by auto

text \<open>Two shifts and a query.\<close>

definition ex_shifts :: "xvc_cmd list" where
  "ex_shifts = [Shift 12 [0, 8] [0xA5, 0x0F], Shift 3 [1] [0], Getinfo]"

theorem session_refines_witness:
  "\<exists>code replies rest r s'. session bypass 64 0 ex_shifts (server_of (\<lambda>c. c) (ex_xvc (concat (map cmd_bytes ex_shifts)))) = (code, replies, rest, r) \<and>
     xvc_handle zero_malloc pipe_net (chip_driver bypass) 5 64 0 (ex_xvc (concat (map cmd_bytes ex_shifts))) = Ret (code, s') \<and>
     snd (xnet s') = replies"
proof -
  let ?s = "ex_xvc (concat (map cmd_bytes ex_shifts))"
  obtain code replies rest r where v: "session bypass 64 0 ex_shifts (server_of (\<lambda>c. c) ?s) = (code, replies, rest, r)"
    by (metis prod_cases4)
  then have c: "session bypass (max_vector_size (xctx ?s)) 0 ex_shifts (server_of (\<lambda>c. c) ?s) = (code, replies, rest, r)" by simp
  have "list_all (valid_cmd (max_vector_size (xctx ?s))) ex_shifts" by (simp add: ex_shifts_def)
  moreover have "socket_fd (xctx ?s) = 5" by (simp add: ex_xvc_def xvc_zero_def)
  ultimately show ?thesis
    using session_refines[OF pipe_net_stream ex_xvc_wf ex_xvc_ready _ _ _ c, of 5 zero_malloc 64] v by (auto simp: refines_def)
qed

theorem shift_reply_witness:
  "\<exists>s'. handle_command pipe_net (chip_driver bypass) 0
      (ex_xvc (chars ''shift:'' @ xvc_put_int32 (of_nat 3) @ [0] @ [5] @ [])) = Ret (None, s') \<and>
    snd (xnet s') = tdo_after [0] SHIFT_DR (samples bypass False (wire [0] [5] SHIFT_DR False 3)) [0]"
  using shift_reply[OF pipe_net_stream ex_xvc_wf[of "chars ''shift:'' @ xvc_put_int32 (of_nat 3) @ [0] @ [5] @ []"] ex_xvc_ready,
      of 3 "[0]" "[5]" "[]" _ _ _ 0, OF _ _ _ _ _ _ _ refl refl refl]
  by (simp add: bogus_move_def) (auto simp: ex_xvc_def ex_ftdi_def ex_io_def ex_ctx_def idle_chip_def)


lemma chip_driver_reads: "driver_reads (chip_driver clk)"
proof -
  have "take (unat n) bs \<noteq> []" if "(0 :: u32) < n" "n \<le> of_nat (length bs)" for n and bs :: "u8 list"
  proof -
    have "bs \<noteq> []" "unat n > 0" using that by (auto simp: word_gt_0 unat_gt_0)
    then show ?thesis by simp
  qed
  then show ?thesis by (auto simp: driver_reads_def chip_driver_def)
qed

lemma pipe_net_finite: "finite_input pipe_net (\<lambda>n. length (fst n))"
  by (auto simp: finite_input_def pipe_net_def split: if_splits)

lemma pipe_net_never_blocks: "never_blocks pipe_net"
  by (auto simp: never_blocks_def pipe_net_def)

theorem xvc_handle_ends_witness:
  "xvc_handle zero_malloc pipe_net (chip_driver bypass) 5 64 0 ((ex_xvc (chars ''getinfo:''))\<lparr>xctx := xvc_zero 5 0\<rparr>) \<noteq> Diverges"
  using xvc_handle_ends[OF chip_driver_reads pipe_net_finite pipe_net_never_blocks, of "(ex_xvc (chars ''getinfo:''))\<lparr>xctx := xvc_zero 5 0\<rparr>"]
  by (simp add: ex_xvc_def ex_ftdi_def ex_io_def ex_ctx_def buffers_ok_def mpsse_wf_def)

theorem scan_terminates_witness:
  "mpsse_adapter_scan (chip_driver bypass) [0] [5] 7 8 (ex_io RUN_TEST_IDLE Map.empty) \<noteq> Diverges"
  using scan_terminates[OF chip_driver_reads, of "ex_io RUN_TEST_IDLE Map.empty" bypass "[0]" "[5]" 7 8]
  by (simp add: ex_io_def ex_ctx_def mpsse_wf_def)

theorem scan_keeps_bounds_witness:
  "\<exists>code io'. mpsse_adapter_scan (chip_driver bypass) [0] [5] 7 0 (ex_io RUN_TEST_IDLE Map.empty) = Ret (code, io') \<and> mpsse_wf (mctx io')"
proof -
  have r: "mpsse_adapter_scan (chip_driver bypass) [0] [5] 7 0 (ex_io RUN_TEST_IDLE Map.empty) = Ret (-1, ex_io RUN_TEST_IDLE Map.empty)"
    by (simp add: mpsse_adapter_scan_def)
  have "mpsse_wf (mctx (ex_io RUN_TEST_IDLE Map.empty))" by (simp add: mpsse_wf_def ex_io_def ex_ctx_def)
  from scan_keeps_bounds[OF r this] r show ?thesis by blast
qed

section \<open>A dump file\<close>

definition ex_dump :: mpsse_dump where
  "ex_dump = dump_vectors [0, 0] [0, 0] \<lparr>dump_file = Some [], current_tms = None, current_tdi = None\<rparr>"

text \<open>The first command of a scan of twelve bits.\<close>

theorem dump_records_commands_witness:
  "\<exists>input commands d'. dump_commands ((ex_ctx RUN_TEST_IDLE)\<lparr>tx_buffer := [OP_CLK_TMS_NO_READ, 5, 0]\<rparr>) ex_dump = Ret d' \<and>
     dump_file d' = Some (''INPUT: '' @ input @ [NL] @ commands @ [NL]) \<and> read_hex commands = Some [OP_CLK_TMS_NO_READ, 5, 0]"
proof -
  have d: "dump_file ex_dump = Some []" "current_tms ex_dump = Some [0, 0]" "current_tdi ex_dump = Some [0, 0]"
    by (simp_all add: ex_dump_def dump_vectors_def)
  let ?c = "(ex_ctx RUN_TEST_IDLE)\<lparr>tx_buffer := [OP_CLK_TMS_NO_READ, 5, 0]\<rparr>"
  obtain input commands where r: "dump_commands ?c ex_dump = Ret (ex_dump\<lparr>dump_file := Some ([] @ ''INPUT: '' @ input @ [NL] @ commands @ [NL])\<rparr>)"
    "read_hex commands = Some (tx_buffer ?c)"
    using dump_records_commands[OF d, of ?c] by (auto simp: ex_ctx_def simp del: append.simps)
  have "dump_file (ex_dump\<lparr>dump_file := Some ([] @ ''INPUT: '' @ input @ [NL] @ commands @ [NL])\<rparr>) = Some (''INPUT: '' @ input @ [NL] @ commands @ [NL])"
    by simp
  with r show ?thesis by (intro exI conjI) (assumption+, simp)
qed

end
