(* ===== verification/Whitelist.thy ===== *)
theory Whitelist
  imports Config_Props
begin

text \<open>
  The IP whitelist of \<^verbatim>\<open>whitelist.c\<close>: parsing addresses in CIDR notation, the table of
  entries and the decision for a client. Addresses are \<open>uint32_t\<close> values in network byte order,
  as the socket interface has them on a little-endian machine: the first octet of the dotted
  form is the least significant byte. A shift by the full width of the operand is undefined.
\<close>

section \<open>Addresses\<close>

fun split_on :: "char \<Rightarrow> string \<Rightarrow> string list" where
  "split_on c [] = [[]]"
| "split_on c (x # s) = (if x = c then [] # split_on c s
     else case split_on c s of [] \<Rightarrow> [[x]] | p # ps \<Rightarrow> (x # p) # ps)"

definition octet_ok :: "string \<Rightarrow> bool" where
  "octet_ok s \<longleftrightarrow> s \<noteq> [] \<and> length s \<le> 3 \<and> list_all isdigit s \<and> read_digits 10 s \<le> 255 \<and>
     (length s > 1 \<longrightarrow> hd s \<noteq> CHR ''0'')"

definition s_addr :: "nat \<Rightarrow> nat \<Rightarrow> nat \<Rightarrow> nat \<Rightarrow> u32" where
  "s_addr a b c d = of_nat a OR push_bit 8 (of_nat b) OR push_bit 16 (of_nat c) OR push_bit 24 (of_nat d)"

text \<open>\<open>inet_pton(AF_INET, s, &addr)\<close>, \<open>None\<close> when it does not return 1.\<close>

definition inet_pton :: "string \<Rightarrow> u32 option" where
  "inet_pton s = (case split_on CHR ''.'' s of
     [a, b, c, d] \<Rightarrow>
       if list_all octet_ok [a, b, c, d]
       then Some (s_addr (read_digits 10 a) (read_digits 10 b) (read_digits 10 c) (read_digits 10 d)) else None
   | _ \<Rightarrow> None)"

definition htonl :: "u32 \<Rightarrow> u32" where
  "htonl x = push_bit 24 (take_bit 8 x) OR push_bit 16 (take_bit 8 (drop_bit 8 x)) OR
     push_bit 8 (take_bit 8 (drop_bit 16 x)) OR take_bit 8 (drop_bit 24 x)"

section \<open>The table\<close>

datatype whitelist_result_t = WHITELIST_ALLOWED | WHITELIST_BLOCKED | WHITELIST_LOGGED

record whitelist_t =
  wl_mode :: whitelist_mode_t
  wl_entries :: "whitelist_entry_t list"

definition whitelist_init :: "whitelist_mode_t \<Rightarrow> whitelist_t" where
  "whitelist_init mode = \<lparr>wl_mode = mode, wl_entries = []\<rparr>"

definition whitelist_parse_cidr :: "string \<Rightarrow> (u32 \<times> int) option" where
  "whitelist_parse_cidr cidr =
    (let buf = strncpy 63 cidr in
     case strchr_split CHR ''/'' buf of
       Some (addr, rest) \<Rightarrow>
         let prefix_len = atoi rest in
         if prefix_len < 0 \<or> prefix_len > 32 then None
         else map_option (\<lambda>ip. (ip, prefix_len)) (inet_pton addr)
     | None \<Rightarrow> map_option (\<lambda>ip. (ip, 32)) (inet_pton buf))"

definition whitelist_add :: "whitelist_t \<Rightarrow> string \<Rightarrow> bool \<Rightarrow> int \<times> whitelist_t" where
  "whitelist_add wl ip block =
    (if length (wl_entries wl) \<ge> MAX_WHITELIST_ENTRIES then (-1, wl)
     else case whitelist_parse_cidr ip of None \<Rightarrow> (-1, wl)
       | Some (_, prefix_len) \<Rightarrow>
           (0, wl\<lparr>wl_entries := wl_entries wl @
                   [\<lparr>entry_ip = strncpy (MAX_IP_LEN - 1) ip, entry_prefix_len = prefix_len, is_block = block\<rparr>]\<rparr>))"

definition ip_matches_entry :: "u32 \<Rightarrow> whitelist_entry_t \<Rightarrow> bool outcome" where
  "ip_matches_entry client_ip e =
    (case whitelist_parse_cidr (entry_ip e) of None \<Rightarrow> Ret False
     | Some (eip, prefix_len) \<Rightarrow>
         if prefix_len = 32 then Ret (client_ip = eip)
         else if prefix_len = 0 then Undefined
         else let mask = htonl (push_bit (nat (32 - prefix_len)) 0xFFFFFFFF)
              in Ret (client_ip AND mask = eip AND mask))"

text \<open>The two loops: whether an entry of the given kind matches, stopping at the first.\<close>

fun any_match :: "bool \<Rightarrow> u32 \<Rightarrow> whitelist_entry_t list \<Rightarrow> bool outcome" where
  "any_match block ip [] = Ret False"
| "any_match block ip (e # es) =
    (if is_block e = block then bind_out (ip_matches_entry ip e) (\<lambda>m. if m then Ret True else any_match block ip es)
     else any_match block ip es)"

definition whitelist_check_ipv4 :: "whitelist_t \<Rightarrow> u32 \<Rightarrow> whitelist_result_t outcome" where
  "whitelist_check_ipv4 wl ip =
    (if wl_mode wl = WHITELIST_OFF then Ret WHITELIST_ALLOWED
     else bind_out (any_match True ip (wl_entries wl)) (\<lambda>blocked.
       if blocked then Ret WHITELIST_BLOCKED
       else bind_out (any_match False ip (wl_entries wl)) (\<lambda>in_allowlist.
         if in_allowlist then Ret WHITELIST_ALLOWED
         else if wl_mode wl = WHITELIST_STRICT then Ret WHITELIST_BLOCKED
         else Ret WHITELIST_LOGGED)))"

datatype sockaddr = AF_INET u32 | Other_Family

text \<open>\<open>None\<close> is a NULL whitelist.\<close>

fun whitelist_check :: "whitelist_t option \<Rightarrow> sockaddr \<Rightarrow> whitelist_result_t outcome" where
  "whitelist_check (Some wl) (AF_INET ip) = whitelist_check_ipv4 wl ip"
| "whitelist_check _ _ = Ret WHITELIST_ALLOWED"

fun whitelist_add_all :: "whitelist_entry_t list \<Rightarrow> whitelist_t \<Rightarrow> int \<times> whitelist_t" where
  "whitelist_add_all [] wl = (0, wl)"
| "whitelist_add_all (e # es) wl =
    (case whitelist_add wl (entry_ip e) (is_block e) of
       (code, wl1) \<Rightarrow> if code < 0 then (-1, wl1) else whitelist_add_all es wl1)"

definition whitelist_load :: "xvc_instance_config_t \<Rightarrow> int \<times> whitelist_t" where
  "whitelist_load inst = whitelist_add_all (whitelist inst) (whitelist_init (whitelist_mode inst))"

definition whitelist_result_name :: "whitelist_result_t \<Rightarrow> string" where
  "whitelist_result_name r = (case r of WHITELIST_ALLOWED \<Rightarrow> ''ALLOWED''
     | WHITELIST_BLOCKED \<Rightarrow> ''BLOCKED'' | WHITELIST_LOGGED \<Rightarrow> ''LOGGED'')"

section \<open>Networks\<close>

text \<open>An address is in the network when the numbers agree in the leading \<open>prefix_len\<close> bits.\<close>

definition in_network :: "u32 \<times> int \<Rightarrow> u32 \<Rightarrow> bool" where
  "in_network = (\<lambda>(net, p) ip. drop_bit (nat (32 - p)) (htonl ip) = drop_bit (nat (32 - p)) (htonl net))"

lemma quarter_cases:
  fixes i :: nat
  assumes "i < 32"
  obtains r where "r < 8" "i = r" | r where "r < 8" "i = 8 + r" | r where "r < 8" "i = 16 + r" | r where "r < 8" "i = 24 + r"
proof -
  have "i = i \<and> i < 8 \<or> i = 8 + (i - 8) \<and> i - 8 < 8 \<or> i = 16 + (i - 16) \<and> i - 16 < 8 \<or> i = 24 + (i - 24) \<and> i - 24 < 8"
    using assms by arith
  with that show ?thesis by blast
qed

lemma bit_htonl:
  assumes "r < 8"
  shows "bit (htonl x) r \<longleftrightarrow> bit x (24 + r)" "bit (htonl x) (8 + r) \<longleftrightarrow> bit x (16 + r)"
    "bit (htonl x) (16 + r) \<longleftrightarrow> bit x (8 + r)" "bit (htonl x) (24 + r) \<longleftrightarrow> bit x r"
  using assms by (auto simp: htonl_def bit_simps)

lemma htonl_htonl [simp]: "htonl (htonl x) = x"
proof (rule bit_word_eqI)
  fix i assume "i < LENGTH(32)"
  then have "i < 32" by simp
  then show "bit (htonl (htonl x)) i \<longleftrightarrow> bit x i" by (cases rule: quarter_cases) (simp_all add: bit_htonl)
qed

lemma htonl_inject [simp]: "htonl x = htonl y \<longleftrightarrow> x = y"
  using htonl_htonl by metis

lemma htonl_and: "htonl (x AND y) = htonl x AND htonl y"
proof (rule bit_word_eqI)
  fix i assume "i < LENGTH(32)"
  then have "i < 32" by simp
  then show "bit (htonl (x AND y)) i \<longleftrightarrow> bit (htonl x AND htonl y) i"
    by (cases rule: quarter_cases) (simp_all add: bit_htonl bit_and_iff)
qed

lemma and_high_mask:
  fixes x y :: u32
  assumes "k < 32"
  shows "x AND push_bit k 0xFFFFFFFF = y AND push_bit k 0xFFFFFFFF \<longleftrightarrow> drop_bit k x = drop_bit k y"
proof -
  have m: "(0xFFFFFFFF :: u32) = - 1" by simp
  have "x AND push_bit k (- 1) = y AND push_bit k (- 1) \<longleftrightarrow> (\<forall>i. i < 32 \<longrightarrow> k \<le> i \<longrightarrow> bit x i = bit y i)"
    unfolding bit_eq_iff by (auto simp: bit_simps)
  also have "\<dots> \<longleftrightarrow> (\<forall>i. k + i < 32 \<longrightarrow> bit x (k + i) = bit y (k + i))"
    by (metis le_Suc_ex le_add1)
  also have "\<dots> \<longleftrightarrow> (\<forall>i < 32. bit x (k + i) = bit y (k + i))"
    using bit_imp_le_length[of x "k + i" for i] bit_imp_le_length[of y "k + i" for i] by force
  also have "\<dots> \<longleftrightarrow> drop_bit k x = drop_bit k y"
    by (simp add: bit_eq_iff bit_drop_bit_eq)
  finally show ?thesis unfolding m .
qed

lemma mask_match:
  assumes "0 < p" "p \<le> 32"
  shows "ip AND htonl (push_bit (nat (32 - p)) 0xFFFFFFFF) = net AND htonl (push_bit (nat (32 - p)) 0xFFFFFFFF) \<longleftrightarrow> in_network (net, p) ip"
proof -
  let ?m = "push_bit (nat (32 - p)) 0xFFFFFFFF"
  have "ip AND htonl ?m = net AND htonl ?m \<longleftrightarrow> htonl (ip AND htonl ?m) = htonl (net AND htonl ?m)" by (simp only: htonl_inject)
  also have "\<dots> \<longleftrightarrow> htonl ip AND ?m = htonl net AND ?m" by (simp only: htonl_and htonl_htonl)
  also have "\<dots> \<longleftrightarrow> in_network (net, p) ip" using assms by (subst and_high_mask) (simp_all add: in_network_def)
  finally show ?thesis .
qed

lemma parse_cidr_range: "whitelist_parse_cidr s = Some (ip, p) \<Longrightarrow> 0 \<le> p \<and> p \<le> 32"
  by (auto simp: whitelist_parse_cidr_def Let_def split: option.splits if_splits)

lemma ip_matches_network:
  assumes "whitelist_parse_cidr (entry_ip e) = Some (net, p)" "p \<noteq> 0"
  shows "ip_matches_entry ip e = Ret (in_network (net, p) ip)"
proof (cases "p = 32")
  case True
  then show ?thesis using assms by (auto simp: ip_matches_entry_def in_network_def)
next
  case False
  then show ?thesis using assms parse_cidr_range[OF assms(1)] mask_match[of p ip net]
    by (simp add: ip_matches_entry_def Let_def)
qed

section \<open>The decision\<close>

text \<open>An entry that can be used: it parses, and not to the whole address space.\<close>

definition usable :: "whitelist_entry_t \<Rightarrow> bool" where
  "usable e \<longleftrightarrow> (case whitelist_parse_cidr (entry_ip e) of None \<Rightarrow> False | Some (_, p) \<Rightarrow> p \<noteq> 0)"

definition network_of :: "whitelist_entry_t \<Rightarrow> u32 \<times> int" where
  "network_of e = the (whitelist_parse_cidr (entry_ip e))"

definition networks :: "bool \<Rightarrow> whitelist_entry_t list \<Rightarrow> (u32 \<times> int) list" where
  "networks block es = map network_of (filter (\<lambda>e. is_block e = block) es)"

text \<open>The specification: blocked networks first, then allowed ones, then the mode.\<close>

definition decision :: "whitelist_mode_t \<Rightarrow> (u32 \<times> int) list \<Rightarrow> (u32 \<times> int) list \<Rightarrow> u32 \<Rightarrow> whitelist_result_t" where
  "decision mode blocked allowed ip =
    (if mode = WHITELIST_OFF then WHITELIST_ALLOWED
     else if \<exists>net \<in> set blocked. in_network net ip then WHITELIST_BLOCKED
     else if \<exists>net \<in> set allowed. in_network net ip then WHITELIST_ALLOWED
     else if mode = WHITELIST_STRICT then WHITELIST_BLOCKED else WHITELIST_LOGGED)"

lemma any_match_networks:
  "list_all usable es \<Longrightarrow> any_match block ip es = Ret (\<exists>net \<in> set (networks block es). in_network net ip)"
proof (induction es)
  case (Cons e es)
  then obtain net p where "whitelist_parse_cidr (entry_ip e) = Some (net, p)" "p \<noteq> 0"
    by (auto simp: usable_def split: option.splits)
  then show ?case using Cons ip_matches_network[of e net p ip]
    by (auto simp: networks_def network_of_def)
qed (simp add: networks_def)

lemma check_decision:
  "list_all usable (wl_entries wl) \<Longrightarrow>
   whitelist_check_ipv4 wl ip = Ret (decision (wl_mode wl) (networks True (wl_entries wl)) (networks False (wl_entries wl)) ip)"
  by (simp add: whitelist_check_ipv4_def any_match_networks decision_def)

lemma add_all_entries:
  assumes "length (wl_entries wl) + length es \<le> MAX_WHITELIST_ENTRIES" "list_all usable es" "list_all entry_wf es"
  shows "\<exists>es'. whitelist_add_all es wl = (0, wl\<lparr>wl_entries := wl_entries wl @ es'\<rparr>) \<and> map entry_ip es' = map entry_ip es \<and> map is_block es' = map is_block es"
  using assms
proof (induction es arbitrary: wl)
  case (Cons e es)
  then obtain net p where p: "whitelist_parse_cidr (entry_ip e) = Some (net, p)"
    by (auto simp: usable_def split: option.splits)
  let ?e = "\<lparr>entry_ip = entry_ip e, entry_prefix_len = p, is_block = is_block e\<rparr>"
  have "whitelist_add wl (entry_ip e) (is_block e) = (0, wl\<lparr>wl_entries := wl_entries wl @ [?e]\<rparr>)"
    using Cons.prems p by (simp add: whitelist_add_def entry_wf_def strncpy_id)
  moreover obtain es' where "whitelist_add_all es (wl\<lparr>wl_entries := wl_entries wl @ [?e]\<rparr>) = (0, wl\<lparr>wl_entries := wl_entries wl @ ?e # es'\<rparr>)"
     "map entry_ip es' = map entry_ip es" "map is_block es' = map is_block es"
    using Cons.IH[of "wl\<lparr>wl_entries := wl_entries wl @ [?e]\<rparr>"] Cons.prems by auto
  ultimately show ?case by (intro exI[of _ "?e # es'"]) simp
qed simp

lemma same_networks:
  "map entry_ip es' = map entry_ip es \<Longrightarrow> map is_block es' = map is_block es \<Longrightarrow> networks b es' = networks b es \<and> (list_all usable es' = list_all usable es)"
proof (induction es arbitrary: es')
  case (Cons e es)
  then obtain e' es2 where "es' = e' # es2" by (cases es') auto
  with Cons.IH[of es2] Cons.prems show ?case by (simp add: networks_def network_of_def usable_def)
qed (simp add: networks_def)

text \<open>
  C14. Loading the whitelist of a well-formed instance whose entries are addresses or networks
  with a prefix length of at least 1 succeeds, and the loaded table then decides every client
  address as specified over those networks: blocked networks win, then allowed ones, and an
  unlisted address is blocked in strict mode and logged in permissive mode. Membership in a
  network is agreement of the leading bits of the address, read as a number.
\<close>

theorem whitelist_load_decides:
  assumes "instance_wf i inst" "list_all usable (whitelist inst)"
  shows "\<exists>wl. whitelist_load inst = (0, wl) \<and>
    (\<forall>ip. whitelist_check (Some wl) (AF_INET ip) =
       Ret (decision (whitelist_mode inst) (networks True (whitelist inst)) (networks False (whitelist inst)) ip))"
proof -
  have "length (whitelist inst) \<le> MAX_WHITELIST_ENTRIES" "list_all entry_wf (whitelist inst)"
    using assms(1) by (simp_all add: instance_wf_def)
  then obtain es where es: "whitelist_load inst = (0, \<lparr>wl_mode = whitelist_mode inst, wl_entries = es\<rparr>)"
    "map entry_ip es = map entry_ip (whitelist inst)" "map is_block es = map is_block (whitelist inst)"
    using add_all_entries[of "whitelist_init (whitelist_mode inst)" "whitelist inst"] assms(2)
    by (auto simp: whitelist_load_def whitelist_init_def)
  from same_networks[OF es(2,3)] assms(2) es(1) show ?thesis by (simp add: check_decision)
qed

section \<open>Reading an address\<close>

text \<open>An address or network in dotted form, as a configuration file has it.\<close>

definition show_addr :: "nat \<Rightarrow> nat \<Rightarrow> nat \<Rightarrow> nat \<Rightarrow> string" where
  "show_addr a b c d = show_nat a @ ''.'' @ show_nat b @ ''.'' @ show_nat c @ ''.'' @ show_nat d"

lemma split_on_last: "c \<notin> set s \<Longrightarrow> split_on c s = [s]"
  by (induction s) auto

lemma split_on_append: "c \<notin> set s \<Longrightarrow> split_on c (s @ c # r) = s # split_on c r"
  by (induction s) auto

lemma octet_show_nat: "n \<le> 255 \<Longrightarrow> octet_ok (show_nat n)"
proof -
  assume n: "n \<le> 255"
  have "list_all isdigit (show_nat n)" by (simp add: list_all_iff show_nat_digits)
  moreover have "length (show_nat n) \<le> 3" using n length_show_nat[of n 3] by simp
  moreover have "length (show_nat n) > 1 \<longrightarrow> hd (show_nat n) \<noteq> CHR ''0''"
    using show_nat_zero[of n] by (auto simp: show_nat.simps[of 0])
  ultimately show ?thesis using n by (simp add: octet_ok_def)
qed

lemma inet_pton_show:
  assumes "a \<le> 255" "b \<le> 255" "c \<le> 255" "d \<le> 255"
  shows "inet_pton (show_addr a b c d) = Some (s_addr a b c d)"
proof -
  have "split_on CHR ''.'' (show_addr a b c d) = [show_nat a, show_nat b, show_nat c, show_nat d]"
    by (simp add: show_addr_def split_on_append split_on_last show_nat_set)
  with assms show ?thesis by (simp add: inet_pton_def octet_show_nat)
qed

lemma show_addr_props:
  assumes "a \<le> 255" "b \<le> 255" "c \<le> 255" "d \<le> 255"
  shows "CHR ''/'' \<notin> set (show_addr a b c d)" "length (show_addr a b c d) \<le> 15"
  using assms length_show_nat[of a 3] length_show_nat[of b 3] length_show_nat[of c 3] length_show_nat[of d 3]
  by (auto simp: show_addr_def show_nat_set)

lemma parse_show:
  assumes "a \<le> 255" "b \<le> 255" "c \<le> 255" "d \<le> 255" "p \<le> 32"
  shows "whitelist_parse_cidr (show_addr a b c d) = Some (s_addr a b c d, 32)"
    "whitelist_parse_cidr (show_addr a b c d @ ''/'' @ show_nat p) = Some (s_addr a b c d, int p)"
proof -
  note s = show_addr_props[OF assms(1-4)]
  have "length (show_nat p) \<le> 2" using assms(5) length_show_nat[of p 2] by simp
  with s strchr_split_Some[OF s(1), of "show_nat p"] assms(5) show
    "whitelist_parse_cidr (show_addr a b c d) = Some (s_addr a b c d, 32)"
    "whitelist_parse_cidr (show_addr a b c d @ ''/'' @ show_nat p) = Some (s_addr a b c d, int p)"
    by (simp_all add: whitelist_parse_cidr_def strncpy_id strchr_split_None inet_pton_show[OF assms(1-4)] atoi_show_nat)
qed

lemma bit_octet:
  fixes n :: nat
  assumes "n \<le> 255" "bit n i"
  shows "i < 8"
proof -
  have "take_bit 8 n = n" using assms(1) by (simp add: take_bit_nat_eq_self_iff)
  with assms(2) show ?thesis by (metis bit_take_bit_iff)
qed

lemma push_or_add:
  fixes x y :: nat
  assumes "y \<le> 255"
  shows "push_bit 8 x OR y = 256 * x + y"
proof -
  have "push_bit 8 x + y = push_bit 8 x OR y"
    by (rule disjunctive_add) (auto simp: bit_push_bit_iff dest!: bit_octet[OF assms])
  then show ?thesis by (simp add: push_bit_eq_mult)
qed

lemma htonl_s_addr:
  assumes "a \<le> 255" "b \<le> 255" "c \<le> 255" "d \<le> 255"
  shows "unat (htonl (s_addr a b c d)) = 2 ^ 24 * a + 2 ^ 16 * b + 2 ^ 8 * c + d"
proof -
  let ?n = "2 ^ 24 * a + 2 ^ 16 * b + 2 ^ 8 * c + d"
  have n: "?n = push_bit 8 (push_bit 8 (push_bit 8 a OR b) OR c) OR d"
    using assms by (simp add: push_or_add)
  note hi = bit_octet[OF assms(1)] bit_octet[OF assms(2)] bit_octet[OF assms(3)] bit_octet[OF assms(4)]
  have "htonl (s_addr a b c d) = of_nat ?n"
  proof (rule bit_word_eqI)
    fix i assume "i < LENGTH(32)"
    then have "i < 32" by simp
    then show "bit (htonl (s_addr a b c d)) i \<longleftrightarrow> bit (of_nat ?n :: u32) i"
      unfolding n by (cases rule: quarter_cases) (auto simp: bit_htonl s_addr_def bit_simps dest: hi)
  qed
  moreover have "?n < 2 ^ LENGTH(32)" using assms by simp
  then have "unat (of_nat ?n :: u32) = ?n" by (simp add: unat_of_nat take_bit_nat_eq_self del: of_nat_add of_nat_mult)
  ultimately show ?thesis by simp
qed

text \<open>
  C37. Reading the dotted form of an address gives that address with prefix length 32, and
  reading it with \<open>/p\<close> appended gives the prefix length \<open>p\<close>; the leading bits that network
  membership compares are those of the number with the four octets as its digits in base 256.
\<close>

theorem cidr_round_trip:
  assumes "a \<le> 255" "b \<le> 255" "c \<le> 255" "d \<le> 255" "p \<le> 32"
  shows "whitelist_parse_cidr (show_addr a b c d) = Some (s_addr a b c d, 32) \<and>
    whitelist_parse_cidr (show_addr a b c d @ ''/'' @ show_nat p) = Some (s_addr a b c d, int p) \<and>
    unat (htonl (s_addr a b c d)) = 2 ^ 24 * a + 2 ^ 16 * b + 2 ^ 8 * c + d"
  using parse_show[OF assms] htonl_s_addr[OF assms(1-4)] by simp_all

theorem cidr_round_trip_witness:
  "whitelist_parse_cidr (show_addr 192 168 1 0 @ ''/'' @ show_nat 24) = Some (s_addr 192 168 1 0, 24)"
  using cidr_round_trip[of 192 168 1 0 24] by simp

definition ex_listed :: xvc_instance_config_t where
  "ex_listed = (default_instance 0)\<lparr>whitelist_mode := WHITELIST_STRICT,
     whitelist := [\<lparr>entry_ip = ''10.0.0.0/8'', entry_prefix_len = 0, is_block = False\<rparr>,
                   \<lparr>entry_ip = ''10.1.2.3'', entry_prefix_len = 0, is_block = True\<rparr>]\<rparr>"

theorem whitelist_load_decides_witness:
  "\<exists>wl. whitelist_load ex_listed = (0, wl) \<and>
     whitelist_check (Some wl) (AF_INET (s_addr 10 9 9 9)) = Ret WHITELIST_ALLOWED \<and>
     whitelist_check (Some wl) (AF_INET (s_addr 10 1 2 3)) = Ret WHITELIST_BLOCKED"
proof -
  have p: "whitelist_parse_cidr ''10.0.0.0/8'' = Some (10, 8)" "whitelist_parse_cidr ''10.1.2.3'' = Some (0x0302010A, 32)"
    by code_simp+
  then have "list_all usable (whitelist ex_listed)" by (simp add: ex_listed_def usable_def)
  moreover have "instance_wf 0 ex_listed"
    by (simp add: ex_listed_def instance_wf_def default_instance_def device_id_wf_def no_device_id_def entry_wf_def
        MIN_XVC_BUFFER_SIZE_def MAX_XVC_BUFFER_SIZE_def DEFAULT_XVC_BUFFER_SIZE_def DEFAULT_CLIENT_LOCK_TIMEOUT_def MAX_WHITELIST_ENTRIES_def)
  moreover have "networks True (whitelist ex_listed) = [(0x0302010A, 32)]" "networks False (whitelist ex_listed) = [(10, 8)]"
    using p by (simp_all add: networks_def network_of_def ex_listed_def)
  moreover have "decision WHITELIST_STRICT [(0x0302010A, 32)] [(10, 8)] (s_addr 10 9 9 9) = WHITELIST_ALLOWED"
    "decision WHITELIST_STRICT [(0x0302010A, 32)] [(10, 8)] (s_addr 10 1 2 3) = WHITELIST_BLOCKED" by code_simp+
  ultimately show ?thesis using whitelist_load_decides[of 0 ex_listed] by (auto simp: ex_listed_def)
qed

end
