(* ===== verification/Tcp_Server.thy ===== *)
theory Tcp_Server
  imports Whitelist
begin

text \<open>
  \<^verbatim>\<open>src/tcp_server.c\<close>: the table of connections and the \<open>select\<close> loop. The operating system
  (sockets, \<open>select\<close>, the clock) is a record of functions on a world \<open>'w\<close>; the three callbacks act
  on the same world, so what they do to the rest of the process is theirs. A callback gets the
  index of the connection, standing for its address, and reads the connection. Socket options are
  left out: their failure is only logged.
\<close>

section \<open>Connections and the server\<close>

definition MAX_CONNECTIONS :: nat where "MAX_CONNECTIONS = 16"

datatype conn_state_t = CONN_STATE_CLOSED | CONN_STATE_CONNECTED | CONN_STATE_ACTIVE

record tcp_connection_t =
  conn_fd :: int
  conn_state :: conn_state_t
  conn_addr :: u32
  connected_at :: int
  conn_bytes_rx :: u64
  conn_bytes_tx :: u64

record tcp_server_t =
  listen_fd :: int
  server_port :: int
  running :: bool
  connections :: "tcp_connection_t list"
  connection_count :: int
  max_fd :: int
  server_whitelist :: "whitelist_t option"

datatype select_result = Select_Error bool \<comment> \<open>whether it was interrupted\<close>
  | Select_Timeout | Select_Ready "int list" "int list" \<comment> \<open>readable and exceptional descriptors\<close>

record 'w os =
  os_socket :: "'w \<Rightarrow> int \<times> 'w"
  os_bind :: "'w \<Rightarrow> int \<Rightarrow> u16 \<Rightarrow> int \<times> 'w"
  os_listen :: "'w \<Rightarrow> int \<Rightarrow> int \<times> 'w"
  os_accept :: "'w \<Rightarrow> int \<Rightarrow> int \<times> u32 \<times> 'w"
  os_close :: "'w \<Rightarrow> int \<Rightarrow> 'w"
  os_select :: "'w \<Rightarrow> int \<Rightarrow> int list \<Rightarrow> int \<Rightarrow> select_result \<times> 'w"
  os_time :: "'w \<Rightarrow> int"

record 'w callbacks =
  on_connect :: "(nat \<Rightarrow> tcp_connection_t \<Rightarrow> 'w \<Rightarrow> (int \<times> 'w) outcome) option"
  on_data :: "(nat \<Rightarrow> tcp_connection_t \<Rightarrow> 'w \<Rightarrow> (int \<times> 'w) outcome) option"
  on_disconnect :: "(nat \<Rightarrow> tcp_connection_t \<Rightarrow> 'w \<Rightarrow> 'w outcome) option"

text \<open>The callbacks are not stored in the server but passed to the operations that call them.\<close>

definition tcp_server_set_callbacks ::
  "(nat \<Rightarrow> tcp_connection_t \<Rightarrow> 'w \<Rightarrow> (int \<times> 'w) outcome) option \<Rightarrow> (nat \<Rightarrow> tcp_connection_t \<Rightarrow> 'w \<Rightarrow> (int \<times> 'w) outcome) option \<Rightarrow>
   (nat \<Rightarrow> tcp_connection_t \<Rightarrow> 'w \<Rightarrow> 'w outcome) option \<Rightarrow> 'w callbacks" where
  "tcp_server_set_callbacks c d e = \<lparr>on_connect = c, on_data = d, on_disconnect = e\<rparr>"

definition closed_conn :: tcp_connection_t where
  "closed_conn = \<lparr>conn_fd = 0, conn_state = CONN_STATE_CLOSED, conn_addr = 0, connected_at = 0, conn_bytes_rx = 0, conn_bytes_tx = 0\<rparr>"

definition tcp_server_init :: "int \<Rightarrow> whitelist_t option \<Rightarrow> int \<times> tcp_server_t" where
  "tcp_server_init port_no wl =
    (0, \<lparr>listen_fd = -1, server_port = port_no, running = False, connections = replicate MAX_CONNECTIONS closed_conn,
         connection_count = 0, max_fd = 0, server_whitelist = wl\<rparr>)"

definition tcp_server_start :: "'w os \<Rightarrow> tcp_server_t \<Rightarrow> 'w \<Rightarrow> int \<times> tcp_server_t \<times> 'w" where
  "tcp_server_start os s w =
    (case os_socket os w of (fd, w1) \<Rightarrow>
     let s1 = s\<lparr>listen_fd := fd\<rparr> in
     if fd < 0 then (-1, s1, w1)
     else case os_bind os w1 fd (word_of_int (server_port s)) of (b, w2) \<Rightarrow>
       if b < 0 then (-1, s1\<lparr>listen_fd := -1\<rparr>, os_close os w2 fd)
       else case os_listen os w2 fd of (l, w3) \<Rightarrow>
         if l < 0 then (-1, s1\<lparr>listen_fd := -1\<rparr>, os_close os w3 fd)
         else (0, s1\<lparr>running := True, max_fd := fd\<rparr>, w3))"

definition is_open :: "tcp_connection_t \<Rightarrow> bool" where
  "is_open c \<longleftrightarrow> conn_state c \<noteq> CONN_STATE_CLOSED"

definition disconnect :: "'w callbacks \<Rightarrow> nat \<Rightarrow> tcp_connection_t \<Rightarrow> 'w \<Rightarrow> 'w outcome" where
  "disconnect cb i c w = (case on_disconnect cb of None \<Rightarrow> Ret w | Some f \<Rightarrow> f i c w)"

text \<open>The loop of \<open>tcp_server_stop\<close>, from connection \<open>i\<close> on.\<close>

fun stop_connections :: "'w os \<Rightarrow> 'w callbacks \<Rightarrow> nat \<Rightarrow> tcp_connection_t list \<Rightarrow> 'w \<Rightarrow> (tcp_connection_t list \<times> 'w) outcome" where
  "stop_connections os cb i [] w = Ret ([], w)"
| "stop_connections os cb i (c # cs) w =
    (if is_open c then
       bind_out (disconnect cb i c w) (\<lambda>w1.
         bind_out (stop_connections os cb (Suc i) cs (os_close os w1 (conn_fd c))) (\<lambda>(cs', w2).
           Ret (c\<lparr>conn_state := CONN_STATE_CLOSED\<rparr> # cs', w2)))
     else bind_out (stop_connections os cb (Suc i) cs w) (\<lambda>(cs', w2). Ret (c # cs', w2)))"

definition tcp_server_stop :: "'w os \<Rightarrow> 'w callbacks \<Rightarrow> tcp_server_t \<Rightarrow> 'w \<Rightarrow> (tcp_server_t \<times> 'w) outcome" where
  "tcp_server_stop os cb s w =
     bind_out (stop_connections os cb 0 (connections s) w) (\<lambda>(cs, w1).
       let s1 = s\<lparr>running := False, connections := cs, connection_count := 0\<rparr> in
       if listen_fd s \<ge> 0 then Ret (s1\<lparr>listen_fd := -1\<rparr>, os_close os w1 (listen_fd s)) else Ret (s1, w1))"

definition find_free_slot :: "tcp_server_t \<Rightarrow> nat option" where
  "find_free_slot s = first_index (\<lambda>c. conn_state c = CONN_STATE_CLOSED) 0 (connections s)"

definition open_fds :: "tcp_server_t \<Rightarrow> int list" where
  "open_fds s = map conn_fd (filter is_open (connections s))"

definition update_max_fd :: "tcp_server_t \<Rightarrow> tcp_server_t" where
  "update_max_fd s = s\<lparr>max_fd := fold (\<lambda>c m. if is_open c \<and> conn_fd c > m then conn_fd c else m) (connections s) (listen_fd s)\<rparr>"

section \<open>Polling\<close>

text \<open>\<open>FD_SET\<close> and \<open>FD_ISSET\<close> index an array of 1024 bits.\<close>

definition fd_ok :: "int \<Rightarrow> bool" where
  "fd_ok fd \<longleftrightarrow> 0 \<le> fd \<and> fd < 1024"

definition tcp_server_close_connection :: "'w os \<Rightarrow> 'w callbacks \<Rightarrow> nat \<Rightarrow> tcp_server_t \<Rightarrow> 'w \<Rightarrow> (tcp_server_t \<times> 'w) outcome" where
  "tcp_server_close_connection os cb i s w =
    (let conn = connections s ! i in
     if conn_state conn = CONN_STATE_CLOSED then Ret (s, w)
     else bind_out (disconnect cb i conn w) (\<lambda>w1.
       Ret (update_max_fd (s\<lparr>connections := (connections s)[i := conn\<lparr>conn_state := CONN_STATE_CLOSED, conn_fd := -1\<rparr>],
                             connection_count := connection_count s - 1\<rparr>),
            os_close os w1 (conn_fd conn))))"

definition new_conn :: "int \<Rightarrow> u32 \<Rightarrow> int \<Rightarrow> tcp_connection_t" where
  "new_conn fd addr now = \<lparr>conn_fd = fd, conn_state = CONN_STATE_CONNECTED, conn_addr = addr, connected_at = now, conn_bytes_rx = 0, conn_bytes_tx = 0\<rparr>"

definition add_conn :: "nat \<Rightarrow> tcp_connection_t \<Rightarrow> tcp_server_t \<Rightarrow> tcp_server_t" where
  "add_conn i conn s = update_max_fd (s\<lparr>connections := (connections s)[i := conn], connection_count := connection_count s + 1\<rparr>)"

text \<open>A pending connection: the events counted, the server and the world.\<close>

definition accept_client :: "'w os \<Rightarrow> 'w callbacks \<Rightarrow> tcp_server_t \<Rightarrow> 'w \<Rightarrow> (int \<times> tcp_server_t \<times> 'w) outcome" where
  "accept_client os cb s w =
    (case os_accept os w (listen_fd s) of (fd, addr, w1) \<Rightarrow>
     if fd < 0 then Ret (0, s, w1)
     else bind_out (whitelist_check (server_whitelist s) (AF_INET addr)) (\<lambda>wl_result.
       if wl_result = WHITELIST_BLOCKED then Ret (0, s, os_close os w1 fd)
       else case find_free_slot s of
         None \<Rightarrow> Ret (0, s, os_close os w1 fd)
       | Some i \<Rightarrow>
           let conn = new_conn fd addr (os_time os w1); s1 = add_conn i conn s
           in case on_connect cb of None \<Rightarrow> Ret (1, s1, w1)
              | Some f \<Rightarrow> bind_out (f i conn w1) (\<lambda>(_, w2). Ret (1, s1, w2))))"

definition check_client ::
  "'w os \<Rightarrow> 'w callbacks \<Rightarrow> int list \<Rightarrow> int list \<Rightarrow> nat \<Rightarrow> int \<times> tcp_server_t \<times> 'w \<Rightarrow> (int \<times> tcp_server_t \<times> 'w) outcome" where
  "check_client os cb rd ex i = (\<lambda>(events, s, w).
     let conn = connections s ! i in
     if conn_state conn = CONN_STATE_CLOSED then Ret (events, s, w)
     else if \<not> fd_ok (conn_fd conn) then Undefined
     else if conn_fd conn \<in> set ex then
       bind_out (tcp_server_close_connection os cb i s w) (\<lambda>(s1, w1). Ret (events + 1, s1, w1))
     else if conn_fd conn \<in> set rd then
       let conn1 = conn\<lparr>conn_state := CONN_STATE_ACTIVE\<rparr>; s1 = s\<lparr>connections := (connections s)[i := conn1]\<rparr> in
       (case on_data cb of None \<Rightarrow> Ret (events + 1, s1, w)
        | Some f \<Rightarrow> bind_out (f i conn1 w) (\<lambda>(result, w1).
            if result \<noteq> 0 then bind_out (tcp_server_close_connection os cb i s1 w1) (\<lambda>(s2, w2). Ret (events + 1, s2, w2))
            else Ret (events + 1, s1, w1)))
     else Ret (events, s, w))"

fun check_clients ::
  "'w os \<Rightarrow> 'w callbacks \<Rightarrow> int list \<Rightarrow> int list \<Rightarrow> nat list \<Rightarrow> int \<times> tcp_server_t \<times> 'w \<Rightarrow> (int \<times> tcp_server_t \<times> 'w) outcome" where
  "check_clients os cb rd ex [] st = Ret st"
| "check_clients os cb rd ex (i # is) st = bind_out (check_client os cb rd ex i st) (check_clients os cb rd ex is)"

definition tcp_server_poll :: "'w os \<Rightarrow> 'w callbacks \<Rightarrow> int \<Rightarrow> tcp_server_t \<Rightarrow> 'w \<Rightarrow> (int \<times> tcp_server_t \<times> 'w) outcome" where
  "tcp_server_poll os cb timeout_ms s w =
    (if \<not> running s then Ret (-1, s, w)
     else if \<not> list_all fd_ok (listen_fd s # open_fds s) then Undefined
     else case os_select os w (max_fd s + 1) (listen_fd s # open_fds s) timeout_ms of
       (Select_Error interrupted, w1) \<Rightarrow> Ret (if interrupted then 0 else -1, s, w1)
     | (Select_Timeout, w1) \<Rightarrow> Ret (0, s, w1)
     | (Select_Ready rd ex, w1) \<Rightarrow>
         bind_out (if listen_fd s \<in> set rd then accept_client os cb s w1 else Ret (0, s, w1))
           (check_clients os cb rd ex [0..<MAX_CONNECTIONS]))"

text \<open>\<open>None\<close> is a server that is never stopped.\<close>

partial_function (option) tcp_server_run :: "'w os \<Rightarrow> 'w callbacks \<Rightarrow> tcp_server_t \<Rightarrow> 'w \<Rightarrow> (int \<times> tcp_server_t \<times> 'w) outcome option" where
  "tcp_server_run os cb s w =
    (if \<not> running s then Some (Ret (0, s, w))
     else case tcp_server_poll os cb 1000 s w of
       Ret (code, s1, w1) \<Rightarrow> if code < 0 then Some (Ret (-1, s1, w1)) else tcp_server_run os cb s1 w1
     | Undefined \<Rightarrow> Some Undefined
     | Killed \<Rightarrow> Some Killed
     | Diverges \<Rightarrow> Some Diverges)"

text \<open>\<open>inet_ntop\<close> into a buffer of \<open>INET_ADDRSTRLEN\<close> bytes.\<close>

definition inet_ntop :: "u32 \<Rightarrow> string" where
  "inet_ntop a = show_addr (unat (take_bit 8 a)) (unat (take_bit 8 (drop_bit 8 a)))
     (unat (take_bit 8 (drop_bit 16 a))) (unat (take_bit 8 (drop_bit 24 a)))"

definition tcp_connection_ip :: "tcp_connection_t \<Rightarrow> string" where
  "tcp_connection_ip c = inet_ntop (conn_addr c)"

end
