(* ===== verification/Tcp_Ends.thy ===== *)
theory Tcp_Ends
  imports Tcp_Server
begin

text \<open>
  When the callbacks come to an end, so does every operation of the TCP server
  (\<^verbatim>\<open>src/tcp_server.c\<close>). The contract of the callbacks is a locale: each of them ends and
  keeps a condition \<open>J\<close> on the world, which accepting and closing descriptors keep too.
\<close>

section \<open>The operating system and the whitelist\<close>

definition os_keeps :: "'w os \<Rightarrow> ('w \<Rightarrow> bool) \<Rightarrow> bool" where
  "os_keeps os J \<longleftrightarrow> (\<forall>w fd. J w \<longrightarrow> J (snd (snd (os_accept os w fd)))) \<and> (\<forall>w fd. J w \<longrightarrow> J (os_close os w fd))"

lemma os_keepsD:
  assumes "os_keeps os J" "J w"
  shows "os_accept os w l = (fd, addr, w1) \<Longrightarrow> J w1" "J (os_close os w fd)"
  using assms unfolding os_keeps_def by (metis snd_conv)+

lemma any_match_ends [simp]: "any_match b ip es \<noteq> Diverges"
  by (induction es) (auto simp: bind_out_Diverges_iff ip_matches_entry_def Let_def split: option.splits if_splits)

lemma whitelist_check_ends: "whitelist_check wl a \<noteq> Diverges"
  by (cases "(wl, a)" rule: whitelist_check.cases) (auto simp: whitelist_check_ipv4_def bind_out_Diverges_iff split: if_splits)

section \<open>Callbacks that end\<close>

locale ending_callbacks =
  fixes cb :: "'w callbacks" and J :: "'w \<Rightarrow> bool"
  assumes connect_ends: "on_connect cb = Some f \<Longrightarrow> J w \<Longrightarrow> ends_in (\<lambda>(r, w'). J w') (f i c w)"
    and data_ends: "on_data cb = Some f \<Longrightarrow> J w \<Longrightarrow> ends_in (\<lambda>(r, w'). J w') (f i c w)"
    and disconnect_ends: "on_disconnect cb = Some g \<Longrightarrow> J w \<Longrightarrow> ends_in J (g i c w)"
begin

abbreviation ends_well :: "('a \<times> 's \<times> 'w) outcome \<Rightarrow> bool" where
  "ends_well \<equiv> ends_in (\<lambda>(_, _, w). J w)"

lemma closing_ends: "J w \<Longrightarrow> ends_in J (disconnect cb i c w)"
  by (auto simp: disconnect_def disconnect_ends split: option.splits)

lemma close_connection_ends:
  assumes "os_keeps os J" "J w"
  shows "ends_in (\<lambda>(_, w). J w) (tcp_server_close_connection os cb i s w)"
  using assms os_keepsD(2)[OF assms(1)]
  by (auto simp: tcp_server_close_connection_def Let_def intro!: ends_in_bind[OF closing_ends])

lemma accept_ends:
  assumes "os_keeps os J" "J w"
  shows "ends_well (accept_client os cb s w)"
proof -
  obtain fd a w1 where acc: "os_accept os w (listen_fd s) = (fd, a, w1)" by (metis prod_cases3)
  note w1 = os_keepsD(1)[OF assms acc]
  have wl: "ends_in (\<lambda>_. True) (whitelist_check (server_whitelist s) (AF_INET a))"
    by (simp add: ends_in_iff whitelist_check_ends)
  show ?thesis using w1 os_keepsD(2)[OF assms(1) w1]
    by (auto simp: accept_client_def acc Let_def intro!: ends_in_bind[OF wl] ends_in_bind[OF connect_ends[OF _ w1]] split: option.split)
qed

lemma check_client_ends:
  assumes "os_keeps os J" "J w"
  shows "ends_well (check_client os cb rd ex i (e, s, w))"
  using assms unfolding check_client_def Let_def
  by (auto intro!: ends_in_bind[OF close_connection_ends] ends_in_bind[OF data_ends] split: option.split)

lemma check_clients_end:
  assumes "os_keeps os J"
  shows "J w \<Longrightarrow> ends_well (check_clients os cb rd ex is (e, s, w))"
proof (induction "is" arbitrary: e s w)
  case (Cons i "is")
  show ?case unfolding check_clients.simps
    by (rule ends_in_bind[OF check_client_ends[OF assms Cons.prems]]) (auto intro: Cons.IH)
qed simp

text \<open>What a poll returns: \<open>J\<close> holds if it held after \<open>select\<close>; a failed poll may not have called it.\<close>

lemma poll_ends:
  assumes os: "os_keeps os J" and sel: "\<And>n l. J (snd (os_select os w n l t))"
  shows "ends_in (\<lambda>(e, _, w'). J w' \<or> e < 0 \<and> w' = w) (tcp_server_poll os cb t s w)"
proof -
  obtain sr w1 where r: "os_select os w (max_fd s + 1) (listen_fd s # open_fds s) t = (sr, w1)" by fastforce
  have w1: "J w1" using sel[of "max_fd s + 1" "listen_fd s # open_fds s"] r by simp
  have c: "ends_in (\<lambda>(e, _, w'). J w' \<or> e < 0 \<and> w' = w) (check_clients os cb rd ex is (e, s', w'))" if "J w'" for rd ex e s' w' "is"
    using check_clients_end[OF os that] by (rule ends_in_mono) auto
  show ?thesis
    using w1 by (auto simp: tcp_server_poll_def r intro!: ends_in_bind[OF accept_ends[OF os w1]] c split: select_result.split)
qed

lemma stop_connections_end:
  assumes os: "os_keeps os J"
  shows "J w \<Longrightarrow> ends_in (\<lambda>(_, w'). J w') (stop_connections os cb i cs w)"
proof (induction cs arbitrary: i w)
  case (Cons c cs)
  have "ends_in (\<lambda>(_, w'). J w') (bind_out (stop_connections os cb (Suc i) cs w1) (\<lambda>(cs', w2). Ret (c' # cs', w2)))"
    if "J w1" for w1 c'
    by (rule ends_in_bind[OF Cons.IH[OF that]]) auto
  with Cons.prems os_keepsD(2)[OF os] show ?case by (auto intro!: ends_in_bind[OF closing_ends])
qed simp

lemma stop_ends:
  assumes os: "os_keeps os J" and w: "J w"
  shows "ends_in (\<lambda>(_, w'). J w') (tcp_server_stop os cb s w)"
  unfolding tcp_server_stop_def
  by (rule ends_in_bind[OF stop_connections_end[OF os w]]) (auto simp: Let_def os_keepsD(2)[OF os])

end

end
