(* ===== verification/Tcp_Props.thy ===== *)
theory Tcp_Props
  imports Tcp_Server
begin

text \<open>
  The invariant of the connection table and of the descriptors the process holds, and that every
  operation of the server keeps it, for any operating system that hands out fresh descriptors and
  any callbacks that leave the descriptors alone. The contract of the callbacks is a locale.
\<close>

section \<open>The table\<close>

definition fds_of :: "tcp_connection_t list \<Rightarrow> int list" where
  "fds_of cs = map conn_fd (filter is_open cs)"

lemma open_fds_eq: "open_fds s = fds_of (connections s)"
  by (simp add: open_fds_def fds_of_def)

lemma fds_of_update:
  assumes "i < length cs"
  obtains A B where "fds_of cs = A @ (if is_open (cs ! i) then [conn_fd (cs ! i)] else []) @ B"
    "\<And>c. fds_of (cs[i := c]) = A @ (if is_open c then [conn_fd c] else []) @ B"
proof
  show "fds_of cs = fds_of (take i cs) @ (if is_open (cs ! i) then [conn_fd (cs ! i)] else []) @ fds_of (drop (Suc i) cs)"
    by (subst id_take_nth_drop[OF assms]) (simp add: fds_of_def)
  show "fds_of (cs[i := c]) = fds_of (take i cs) @ (if is_open c then [conn_fd c] else []) @ fds_of (drop (Suc i) cs)" for c
    using assms by (simp add: upd_conv_take_nth_drop fds_of_def)
qed

lemma fds_of_simps [simp]:
  "fds_of [] = []" "fds_of (c # cs) = (if is_open c then conn_fd c # fds_of cs else fds_of cs)"
  by (simp_all add: fds_of_def)

lemma fold_max_fd:
  "fold (\<lambda>c m. if is_open c \<and> conn_fd c > m then conn_fd c else m) cs m = Max (set (m # fds_of cs))"
proof (induction cs arbitrary: m)
  case (Cons c cs)
  have step: "(if is_open c \<and> m < conn_fd c then conn_fd c else m) = (if is_open c then max m (conn_fd c) else m)"
    by (simp add: max_def)
  have "Max (insert (max m (conn_fd c)) (set (fds_of cs))) = Max (insert m (insert (conn_fd c) (set (fds_of cs))))"
    by (cases "fds_of cs = []") (simp_all add: max.assoc)
  then show ?case
    using Cons.IH[of "if is_open c then max m (conn_fd c) else m"] unfolding fold.simps comp_apply step
    by (cases "is_open c") simp_all
qed simp

lemma max_fd_update: "max_fd (update_max_fd s) = Max (set (listen_fd s # open_fds s))"
  by (simp add: update_max_fd_def fold_max_fd open_fds_eq)

lemma update_max_fd_simps [simp]:
  "listen_fd (update_max_fd s) = listen_fd s" "connections (update_max_fd s) = connections s"
  "connection_count (update_max_fd s) = connection_count s" "running (update_max_fd s) = running s"
  "open_fds (update_max_fd s) = open_fds s" "server_whitelist (update_max_fd s) = server_whitelist s"
  by (simp_all add: update_max_fd_def open_fds_def)

text \<open>
  The table is consistent: 16 slots, the count is that of the open ones, the descriptors are
  distinct and not negative, \<open>max_fd\<close> is the largest; and the process holds, beyond \<open>base\<close>,
  exactly the descriptors of the listening socket and of the open connections.
\<close>

definition server_inv :: "('w \<Rightarrow> int set) \<Rightarrow> int set \<Rightarrow> tcp_server_t \<Rightarrow> 'w \<Rightarrow> bool" where
  "server_inv fds base s w \<longleftrightarrow> length (connections s) = MAX_CONNECTIONS \<and>
     connection_count s = int (length (open_fds s)) \<and> distinct (listen_fd s # open_fds s) \<and>
     max_fd s = Max (set (listen_fd s # open_fds s)) \<and>
     (\<forall>fd \<in> set (listen_fd s # open_fds s). 0 \<le> fd \<and> fd \<notin> base) \<and>
     fds w = base \<union> set (listen_fd s # open_fds s)"

text \<open>What is assumed of the operating system; \<open>I\<close> is what the callbacks keep of the world.\<close>

definition keeps_fds :: "('w \<Rightarrow> int set) \<Rightarrow> ('w \<Rightarrow> bool) \<Rightarrow> 'w \<Rightarrow> 'w \<Rightarrow> bool" where
  "keeps_fds fds I w w' \<longleftrightarrow> (I w \<longrightarrow> I w') \<and> fds w' = fds w"

definition opens_fd :: "('w \<Rightarrow> int set) \<Rightarrow> ('w \<Rightarrow> bool) \<Rightarrow> 'w \<Rightarrow> int \<Rightarrow> 'w \<Rightarrow> bool" where
  "opens_fd fds I w fd w' \<longleftrightarrow> (I w \<longrightarrow> I w') \<and> (if fd < 0 then fds w' = fds w else fd \<notin> fds w \<and> fds w' = insert fd (fds w))"

definition os_ok :: "'w os \<Rightarrow> ('w \<Rightarrow> int set) \<Rightarrow> ('w \<Rightarrow> bool) \<Rightarrow> bool" where
  "os_ok os fds I \<longleftrightarrow>
     (\<forall>w. opens_fd fds I w (fst (os_socket os w)) (snd (os_socket os w))) \<and>
     (\<forall>w l. opens_fd fds I w (fst (os_accept os w l)) (snd (snd (os_accept os w l)))) \<and>
     (\<forall>w fd p. keeps_fds fds I w (snd (os_bind os w fd p))) \<and>
     (\<forall>w fd. keeps_fds fds I w (snd (os_listen os w fd))) \<and>
     (\<forall>w n l t. keeps_fds fds I w (snd (os_select os w n l t))) \<and>
     (\<forall>w fd. (I w \<longrightarrow> I (os_close os w fd)) \<and> fds (os_close os w fd) = fds w - {fd})"

lemma os_ok_laws:
  assumes "os_ok os fds I"
  shows "opens_fd fds I w (fst (os_socket os w)) (snd (os_socket os w))"
    "opens_fd fds I w (fst (os_accept os w l)) (snd (snd (os_accept os w l)))"
    "keeps_fds fds I w (snd (os_bind os w fd p))" "keeps_fds fds I w (snd (os_listen os w fd))"
    "keeps_fds fds I w (snd (os_select os w n ws t))"
    "I w \<Longrightarrow> I (os_close os w fd)" "fds (os_close os w fd) = fds w - {fd}"
  using assms by (simp_all add: os_ok_def)

lemma os_okD:
  assumes "os_ok os fds I" "I w"
  shows "os_socket os w = (fd, w') \<Longrightarrow> I w' \<and> (if fd < 0 then fds w' = fds w else fd \<notin> fds w \<and> fds w' = insert fd (fds w))"
    "os_accept os w l = (fd, a, w') \<Longrightarrow> I w' \<and> (if fd < 0 then fds w' = fds w else fd \<notin> fds w \<and> fds w' = insert fd (fds w))"
    "os_bind os w fd p = (r, w') \<Longrightarrow> I w' \<and> fds w' = fds w"
    "os_listen os w fd = (r, w') \<Longrightarrow> I w' \<and> fds w' = fds w"
    "os_select os w n ws t = (sr, w') \<Longrightarrow> I w' \<and> fds w' = fds w"
    "I (os_close os w fd) \<and> fds (os_close os w fd) = fds w - {fd}"
  using assms(2) os_ok_laws(1)[OF assms(1), of w] os_ok_laws(2)[OF assms(1), of w l] os_ok_laws(3)[OF assms(1), of w fd p]
    os_ok_laws(4)[OF assms(1), of w fd] os_ok_laws(5)[OF assms(1), of w n ws t] os_ok_laws(6,7)[OF assms(1), of w fd]
  by (simp_all add: opens_fd_def keeps_fds_def)

lemma server_invI:
  assumes "length (connections s) = MAX_CONNECTIONS" "connection_count s = int (length (open_fds s))" "distinct (listen_fd s # open_fds s)"
    "\<forall>fd \<in> set (listen_fd s # open_fds s). 0 \<le> fd \<and> fd \<notin> base" "fds w = base \<union> set (listen_fd s # open_fds s)"
  shows "server_inv fds base (update_max_fd s) w"
  unfolding server_inv_def update_max_fd_simps max_fd_update using assms by blast

lemma add_conn_inv:
  assumes inv: "server_inv fds base s w" and i: "find_free_slot s = Some i"
    and fd: "0 \<le> fd" "fd \<notin> fds w" "fds w' = insert fd (fds w)"
  shows "server_inv fds base (add_conn i (new_conn fd a t) s) w'"
proof -
  have c: "i < length (connections s)" "\<not> is_open (connections s ! i)"
    using first_index_Some[OF i[unfolded find_free_slot_def]] by (auto simp: is_open_def)
  obtain A B where AB: "fds_of (connections s) = A @ (if is_open (connections s ! i) then [conn_fd (connections s ! i)] else []) @ B"
    "\<And>c. fds_of ((connections s)[i := c]) = A @ (if is_open c then [conn_fd c] else []) @ B"
    by (rule fds_of_update[OF c(1)]) blast
  with c(2) have o: "open_fds s = A @ B" "open_fds (s\<lparr>connections := (connections s)[i := new_conn fd a t], connection_count := n\<rparr>) = A @ fd # B" for n
    by (simp_all add: open_fds_eq new_conn_def is_open_def)
  from inv have "length (connections s) = MAX_CONNECTIONS" "connection_count s = int (length (A @ B))" "distinct (listen_fd s # A @ B)"
    "\<forall>fd \<in> set (listen_fd s # A @ B). 0 \<le> fd \<and> fd \<notin> base" "fds w = base \<union> set (listen_fd s # A @ B)"
    unfolding server_inv_def o(1) by blast+
  with fd show ?thesis unfolding add_conn_def by (intro server_invI) (auto simp: o(2))
qed

lemma close_conn_inv:
  assumes inv: "server_inv fds base s w" and i: "i < MAX_CONNECTIONS" "is_open (connections s ! i)"
    and fd: "fds w' = fds w - {conn_fd (connections s ! i)}"
  defines "c' \<equiv> (connections s ! i)\<lparr>conn_state := CONN_STATE_CLOSED, conn_fd := -1\<rparr>"
  shows "server_inv fds base (update_max_fd (s\<lparr>connections := (connections s)[i := c'], connection_count := connection_count s - 1\<rparr>)) w'"
proof -
  let ?fd = "conn_fd (connections s ! i)"
  have c: "i < length (connections s)" using inv i by (simp add: server_inv_def)
  obtain A B where "fds_of (connections s) = A @ (if is_open (connections s ! i) then [?fd] else []) @ B"
    "\<And>c. fds_of ((connections s)[i := c]) = A @ (if is_open c then [conn_fd c] else []) @ B"
    by (rule fds_of_update[OF c]) blast
  moreover have "\<not> is_open c'" by (simp add: c'_def is_open_def)
  ultimately have o: "open_fds s = A @ ?fd # B" "fds_of ((connections s)[i := c']) = A @ B"
    using i(2) by (simp_all add: open_fds_eq)
  have o2: "open_fds (s\<lparr>connections := (connections s)[i := c'], connection_count := n\<rparr>) = A @ B" for n by (simp add: open_fds_eq o(2))
  from inv have "length (connections s) = MAX_CONNECTIONS" "connection_count s = int (length (A @ ?fd # B))" "distinct (listen_fd s # A @ ?fd # B)"
    "\<forall>fd \<in> set (listen_fd s # A @ ?fd # B). 0 \<le> fd \<and> fd \<notin> base" "fds w = base \<union> set (listen_fd s # A @ ?fd # B)"
    unfolding server_inv_def o(1) by blast+
  moreover have "fds w' = base \<union> set (listen_fd s # A @ B)" unfolding fd calculation(5) using calculation(3,4) by auto
  ultimately show ?thesis by (intro server_invI) (auto simp: o2)
qed

lemma activate_inv:
  assumes "server_inv fds base s w" "i < MAX_CONNECTIONS" "is_open (connections s ! i)"
  shows "server_inv fds base (s\<lparr>connections := (connections s)[i := (connections s ! i)\<lparr>conn_state := CONN_STATE_ACTIVE\<rparr>]\<rparr>) w"
proof -
  have c: "i < length (connections s)" using assms by (simp add: server_inv_def)
  have "fds_of ((connections s)[i := (connections s ! i)\<lparr>conn_state := CONN_STATE_ACTIVE\<rparr>]) = fds_of (connections s)"
    by (rule fds_of_update[OF c]) (use assms(3) in \<open>simp add: is_open_def\<close>)
  then show ?thesis using assms(1) by (simp add: server_inv_def open_fds_eq)
qed

section \<open>The contract of the callbacks\<close>

locale connection_callbacks =
  fixes cb :: "'w callbacks" and fds :: "'w \<Rightarrow> int set" and I :: "'w \<Rightarrow> bool"
  assumes connect_law: "on_connect cb = Some f \<Longrightarrow> I w \<Longrightarrow> f i c w = Ret (r, w') \<Longrightarrow> I w' \<and> fds w' = fds w"
    and data_law: "on_data cb = Some f \<Longrightarrow> I w \<Longrightarrow> f i c w = Ret (r, w') \<Longrightarrow> I w' \<and> fds w' = fds w"
    and disconnect_law: "on_disconnect cb = Some g \<Longrightarrow> I w \<Longrightarrow> g i c w = Ret w' \<Longrightarrow> I w' \<and> fds w' = fds w"
begin

lemma disconnect_keeps: "disconnect cb i c w = Ret w' \<Longrightarrow> I w \<Longrightarrow> I w' \<and> fds w' = fds w"
  by (auto simp: disconnect_def split: option.splits dest: disconnect_law)

lemma close_keeps:
  assumes os: "os_ok os fds I" and inv: "server_inv fds base s w" "I w" and i: "i < MAX_CONNECTIONS"
    and r: "tcp_server_close_connection os cb i s w = Ret (s', w')"
  shows "server_inv fds base s' w' \<and> I w' \<and> listen_fd s' = listen_fd s"
proof (cases "is_open (connections s ! i)")
  case False
  then show ?thesis using r inv by (simp add: tcp_server_close_connection_def is_open_def)
next
  case True
  with r obtain w1 where w1: "disconnect cb i (connections s ! i) w = Ret w1"
    and eq: "s' = update_max_fd (s\<lparr>connections := (connections s)[i := (connections s ! i)\<lparr>conn_state := CONN_STATE_CLOSED, conn_fd := -1\<rparr>], connection_count := connection_count s - 1\<rparr>)"
      "w' = os_close os w1 (conn_fd (connections s ! i))"
    by (auto simp: tcp_server_close_connection_def is_open_def Let_def bind_out_Ret_iff)
  note k = disconnect_keeps[OF w1 inv(2)]
  have "fds w' = fds w - {conn_fd (connections s ! i)}" "I w'" using os k by (simp_all add: os_ok_def eq(2))
  with close_conn_inv[OF inv(1) i True this(1)] show ?thesis by (simp add: eq(1))
qed

lemma accept_keeps:
  assumes os: "os_ok os fds I" and inv: "server_inv fds base s w" "I w"
    and r: "accept_client os cb s w = Ret (e, s', w')"
  shows "server_inv fds base s' w' \<and> I w' \<and> 0 \<le> e \<and> e \<le> 1"
proof -
  obtain fd a w1 where acc: "os_accept os w (listen_fd s) = (fd, a, w1)" by (metis prod_cases3)
  note w1 = os_okD(2)[OF os inv(2) acc]
  show ?thesis
  proof (cases "fd < 0")
    case True
    then show ?thesis using r acc w1 inv by (simp add: accept_client_def server_inv_def)
  next
    case False
    have rejected: "server_inv fds base s (os_close os w1 fd) \<and> I (os_close os w1 fd)"
      using False w1 os_okD(6)[OF os, of w1 fd] inv(1) by (auto simp: server_inv_def)
    obtain wl where wl: "whitelist_check (server_whitelist s) (AF_INET a) = Ret wl"
      using r acc False by (auto simp: accept_client_def bind_out_Ret_iff)
    show ?thesis
    proof (cases "wl = WHITELIST_BLOCKED \<or> find_free_slot s = None")
      case True
      then have "(e, s', w') = (0, s, os_close os w1 fd)"
        using r acc False wl by (cases "wl = WHITELIST_BLOCKED") (simp_all add: accept_client_def)
      then show ?thesis using rejected by simp
    next
      case nb: False
      then obtain i where i: "find_free_slot s = Some i" by auto
      let ?c = "new_conn fd a (os_time os w1)"
      have add: "server_inv fds base (add_conn i ?c s) w'" if "fds w' = fds w1" for w'
        using add_conn_inv[OF inv(1) i, of fd] False w1 that by simp
      show ?thesis
      proof (cases "on_connect cb")
        case None
        then have "(e, s', w') = (1, add_conn i ?c s, w1)" using r acc False wl nb i by (auto simp: accept_client_def Let_def)
        then show ?thesis using add[of w1] w1 by simp
      next
        case (Some f)
        with r acc False wl nb i obtain code where f: "f i ?c w1 = Ret (code, w')" and e: "e = 1" "s' = add_conn i ?c s"
          by (auto simp: accept_client_def Let_def bind_out_Ret_iff)
        from connect_law[OF Some _ f] w1 add[of w'] e show ?thesis by simp
      qed
    qed
  qed
qed

lemma check_client_keeps:
  assumes os: "os_ok os fds I" and inv: "server_inv fds base s w" "I w" and i: "i < MAX_CONNECTIONS"
    and r: "check_client os cb rd ex i (e, s, w) = Ret (e', s', w')"
  shows "server_inv fds base s' w' \<and> I w' \<and> e \<le> e' \<and> e' \<le> e + 1"
proof -
  let ?c = "connections s ! i"
  let ?s1 = "s\<lparr>connections := (connections s)[i := ?c\<lparr>conn_state := CONN_STATE_ACTIVE\<rparr>]\<rparr>"
  consider (skip) "(e', s', w') = (e, s, w)"
    | (close) "tcp_server_close_connection os cb i s w = Ret (s', w')" "e' = e + 1"
    | (nodata) "is_open ?c" "on_data cb = None" "s' = ?s1" "w' = w" "e' = e + 1"
    | (data) f code w1 where "is_open ?c" "on_data cb = Some f" "f i (?c\<lparr>conn_state := CONN_STATE_ACTIVE\<rparr>) w = Ret (code, w1)" "e' = e + 1"
        "(s', w') = (?s1, w1) \<or> tcp_server_close_connection os cb i ?s1 w1 = Ret (s', w')"
    using r by (auto simp: check_client_def Let_def is_open_def bind_out_Ret_iff split: if_splits option.splits)
  then show ?thesis
  proof cases
    case skip
    then show ?thesis using inv by simp
  next
    case close
    then show ?thesis using close_keeps[OF os inv i close(1)] by simp
  next
    case nodata
    then show ?thesis using activate_inv[OF inv(1) i] inv(2) by simp
  next
    case (data f code w1)
    from data_law[OF data(2) inv(2) data(3)] have w1: "I w1" "fds w1 = fds w" by simp_all
    have a: "server_inv fds base ?s1 w1" using activate_inv[OF inv(1) i data(1)] w1(2) by (simp add: server_inv_def open_fds_eq)
    from data(5) show ?thesis using close_keeps[OF os a w1(1) i] a w1 data(4) by auto
  qed
qed

lemma check_clients_keep:
  assumes os: "os_ok os fds I"
  shows "server_inv fds base s w \<Longrightarrow> I w \<Longrightarrow> (\<forall>i \<in> set is. i < MAX_CONNECTIONS) \<Longrightarrow>
    check_clients os cb rd ex is (e, s, w) = Ret (e', s', w') \<Longrightarrow>
    server_inv fds base s' w' \<and> I w' \<and> e \<le> e' \<and> e' \<le> e + int (length is)"
proof (induction "is" arbitrary: e s w)
  case (Cons i "is")
  then obtain e1 s1 w1 where st: "check_client os cb rd ex i (e, s, w) = Ret (e1, s1, w1)"
    "check_clients os cb rd ex is (e1, s1, w1) = Ret (e', s', w')"
    by (auto simp: bind_out_Ret_iff)
  from check_client_keeps[OF os Cons.prems(1,2) _ st(1)] Cons.prems(3)
  have 1: "server_inv fds base s1 w1" "I w1" "e \<le> e1" "e1 \<le> e + 1" by simp_all
  from Cons.IH[OF 1(1,2) _ st(2)] Cons.prems(3) 1(3,4) show ?case by auto
qed simp

lemma poll_keeps:
  assumes os: "os_ok os fds I" and inv: "server_inv fds base s w" "I w"
    and r: "tcp_server_poll os cb t s w = Ret (e, s', w')"
  shows "server_inv fds base s' w' \<and> I w' \<and> -1 \<le> e \<and> e \<le> 17"
proof (cases "running s \<and> list_all fd_ok (listen_fd s # open_fds s)")
  case False
  then show ?thesis using r inv by (auto simp: tcp_server_poll_def split: if_splits)
next
  case True
  obtain sr w1 where sel: "os_select os w (max_fd s + 1) (listen_fd s # open_fds s) t = (sr, w1)" by fastforce
  note w1 = os_okD(5)[OF os inv(2) sel]
  have inv1: "server_inv fds base s w1" using inv(1) w1 by (simp add: server_inv_def)
  show ?thesis
  proof (cases sr)
    case (Select_Ready rd ex)
    with r True sel obtain e1 s1 w2 where
      a: "(if listen_fd s \<in> set rd then accept_client os cb s w1 else Ret (0, s, w1)) = Ret (e1, s1, w2)"
      and c: "check_clients os cb rd ex [0..<MAX_CONNECTIONS] (e1, s1, w2) = Ret (e, s', w')"
      by (auto simp: tcp_server_poll_def bind_out_Ret_iff)
    have 1: "server_inv fds base s1 w2 \<and> I w2 \<and> 0 \<le> e1 \<and> e1 \<le> 1"
      using a accept_keeps[OF os inv1, of e1 s1 w2] w1 inv1 by (auto split: if_splits)
    from check_clients_keep[OF os, of base s1 w2 "[0..<MAX_CONNECTIONS]" rd ex e1 e s' w'] c 1 show ?thesis
      by (simp add: MAX_CONNECTIONS_def)
  qed (use r True sel w1 inv1 in \<open>auto simp: tcp_server_poll_def\<close>)
qed

lemma stop_connections_release:
  assumes os: "os_ok os fds I"
  shows "I w \<Longrightarrow> stop_connections os cb i cs w = Ret (cs', w') \<Longrightarrow>
    I w' \<and> fds w' = fds w - set (fds_of cs) \<and> length cs' = length cs \<and> fds_of cs' = []"
proof (induction cs arbitrary: i w cs' w')
  case (Cons c cs)
  show ?case
  proof (cases "is_open c")
    case True
    with Cons.prems obtain w1 cs2 where 1: "disconnect cb i c w = Ret w1"
      "stop_connections os cb (Suc i) cs (os_close os w1 (conn_fd c)) = Ret (cs2, w')" "cs' = c\<lparr>conn_state := CONN_STATE_CLOSED\<rparr> # cs2"
      by (auto simp: bind_out_Ret_iff)
    from disconnect_keeps[OF 1(1) Cons.prems(1)] os_okD(6)[OF os, of w1 "conn_fd c"]
    have "I (os_close os w1 (conn_fd c))" "fds (os_close os w1 (conn_fd c)) = fds w - {conn_fd c}" by simp_all
    with Cons.IH[OF this(1) 1(2)] True 1(3) show ?thesis by (auto simp: fds_of_def is_open_def)
  next
    case False
    with Cons.prems obtain cs2 where "stop_connections os cb (Suc i) cs w = Ret (cs2, w')" "cs' = c # cs2"
      by (auto simp: bind_out_Ret_iff)
    with Cons.IH[OF Cons.prems(1) this(1)] False show ?thesis by (simp add: fds_of_def)
  qed
qed (simp add: fds_of_def)

lemma stop_releases:
  assumes os: "os_ok os fds I" and inv: "server_inv fds base s w" "I w"
    and r: "tcp_server_stop os cb s w = Ret (s', w')"
  shows "fds w' = base \<and> I w' \<and> open_fds s' = [] \<and> connection_count s' = 0 \<and> \<not> running s' \<and> listen_fd s' = -1"
proof -
  have l: "0 \<le> listen_fd s" using inv(1) by (simp add: server_inv_def)
  with r obtain cs w1 where 1: "stop_connections os cb 0 (connections s) w = Ret (cs, w1)"
    "s' = s\<lparr>running := False, connections := cs, connection_count := 0, listen_fd := -1\<rparr>" "w' = os_close os w1 (listen_fd s)"
    by (auto simp: tcp_server_stop_def bind_out_Ret_iff Let_def)
  note k = stop_connections_release[OF os inv(2) 1(1)]
  from k os_okD(6)[OF os, of w1 "listen_fd s"] inv(1) 1(2,3) show ?thesis
    by (auto simp: server_inv_def open_fds_eq)
qed

end

section \<open>Starting\<close>

lemma start_inv:
  assumes os: "os_ok os fds I" "I w" and s: "connections s = replicate MAX_CONNECTIONS closed_conn" "connection_count s = 0"
    and r: "tcp_server_start os s w = (c, s', w')"
  shows "I w' \<and> (if c < 0 then fds w' = fds w else server_inv fds (fds w) s' w' \<and> running s')"
proof -
  obtain fd w1 where 1: "os_socket os w = (fd, w1)" by fastforce
  note w1 = os_okD(1)[OF os 1]
  show ?thesis
  proof (cases "fd < 0")
    case True
    then show ?thesis using r 1 w1 by (simp add: tcp_server_start_def Let_def)
  next
    case False
    obtain b w2 where 2: "os_bind os w1 fd (word_of_int (server_port s)) = (b, w2)" by fastforce
    obtain l w3 where 3: "os_listen os w2 fd = (l, w3)" by fastforce
    note w2 = os_okD(3)[OF os(1) _ 2] note w3 = os_okD(4)[OF os(1) _ 3]
    have cl: "I (os_close os w' fd) \<and> fds (os_close os w' fd) = fds w" if "I w'" "fds w' = insert fd (fds w)" for w'
      using os_okD(6)[OF os(1) that(1), of fd] that(2) w1 False by auto
    consider (bind) "b < 0" | (listen) "\<not> b < 0" "l < 0" | (ok) "\<not> b < 0" "\<not> l < 0" by blast
    then show ?thesis
    proof cases
      case bind
      then show ?thesis using r 1 2 False w1 w2 cl[of w2] by (auto simp: tcp_server_start_def Let_def)
    next
      case listen
      then show ?thesis using r 1 2 3 False w1 w2 w3 cl[of w3] by (auto simp: tcp_server_start_def Let_def)
    next
      case ok
      have "fds_of (replicate n closed_conn) = []" for n by (induction n) (simp_all add: closed_conn_def is_open_def)
      then have e: "open_fds (s\<lparr>listen_fd := fd, running := True, max_fd := fd\<rparr>) = []" by (simp add: open_fds_eq s)
      have eq: "(c, s', w') = (0, s\<lparr>listen_fd := fd, running := True, max_fd := fd\<rparr>, w3)"
        using ok r 1 2 3 False by (simp add: tcp_server_start_def Let_def)
      show ?thesis using eq e s w1 w2 w3 False by (simp add: server_inv_def)
    qed
  qed
qed

section \<open>Addresses as text\<close>

lemma take_bit_8_le: "unat (take_bit 8 (a :: u32)) \<le> 255"
proof -
  have "take_bit 8 (unat a) < 2 ^ 8" by (rule take_bit_nat_less_exp)
  then show ?thesis by (simp add: unsigned_take_bit_eq)
qed

lemma s_addr_bytes:
  "s_addr (unat (take_bit 8 a)) (unat (take_bit 8 (drop_bit 8 a))) (unat (take_bit 8 (drop_bit 16 a))) (unat (take_bit 8 (drop_bit 24 a))) = a"
proof (rule bit_word_eqI)
  fix i assume "i < LENGTH(32)"
  then have "i < 32" by simp
  then show "bit (s_addr (unat (take_bit 8 a)) (unat (take_bit 8 (drop_bit 8 a))) (unat (take_bit 8 (drop_bit 16 a))) (unat (take_bit 8 (drop_bit 24 a)))) i = bit a i"
    by (cases rule: quarter_cases) (auto simp: s_addr_def bit_simps)
qed

lemma inet_pton_ntop: "inet_pton (inet_ntop a) = Some a"
  unfolding inet_ntop_def by (subst inet_pton_show) (simp_all add: take_bit_8_le s_addr_bytes)

lemma inet_ntop_inject [simp]: "inet_ntop a = inet_ntop b \<longleftrightarrow> a = b"
  by (metis inet_pton_ntop option.inject)

lemma length_inet_ntop: "length (inet_ntop a) \<le> 15"
  unfolding inet_ntop_def by (rule show_addr_props(2)) (simp_all add: take_bit_8_le)

section \<open>What becomes of a rejected connection\<close>

text \<open>
  When a connection has been accepted by the whitelist and there is a free slot, it occupies
  that slot and is counted and watched whatever the \<open>on_connect\<close> callback returns: a callback
  that rejects the connection does not close it.
\<close>

theorem rejection_not_enforced:
  assumes "os_accept os w (listen_fd s) = (fd, addr, w1)" "0 \<le> fd"
    "whitelist_check (server_whitelist s) (AF_INET addr) = Ret r" "r \<noteq> WHITELIST_BLOCKED" "find_free_slot s = Some i"
    "on_connect cb = Some f" "f i (new_conn fd addr (os_time os w1)) w1 = Ret (verdict, w2)"
  shows "\<exists>s'. accept_client os cb s w = Ret (1, s', w2) \<and> connections s' ! i = new_conn fd addr (os_time os w1) \<and>
    connection_count s' = connection_count s + 1 \<and> fd \<in> set (open_fds s')"
proof -
  have i: "i < length (connections s)"
    using first_index_Some[OF assms(5)[unfolded find_free_slot_def]] by auto
  let ?c = "new_conn fd addr (os_time os w1)"
  have "?c \<in> set ((connections s)[i := ?c])" using i by (rule set_update_memI)
  then have "fd \<in> set (open_fds (add_conn i ?c s))"
    by (force simp: open_fds_def add_conn_def new_conn_def is_open_def)
  moreover have "accept_client os cb s w = Ret (1, add_conn i ?c s, w2)"
    using assms by (simp add: accept_client_def Let_def)
  moreover have "connections (add_conn i ?c s) ! i = ?c" "connection_count (add_conn i ?c s) = connection_count s + 1"
    using i by (simp_all add: add_conn_def)
  ultimately show ?thesis by blast
qed

end
