(* ===== verification/Instance.thy ===== *)
theory Instance
  imports Xvc_Net Tcp_Props
begin

text \<open>
  The instance process of \<^verbatim>\<open>src/main.c\<close>: the lock on a client's address, the three callbacks it
  gives the TCP server, and \<open>run_instance\<close> with its event loop. The sockets, the clock, the D2XX
  driver and the allocator are parameters. The configuration of the instance does not change
  while it runs and is an argument. \<open>active_xvc_conn\<close> is the index of a connection, \<open>None\<close> for NULL.
  The clock is read from the state of the network, which only the socket calls change: two readings
  within one callback without a socket call between them give the same second.
\<close>

section \<open>The context\<close>

record ('n, 'd) instance_ctx =
  iio :: "('n, 'd) xvc_io"
  active_xvc_conn :: "nat option"
  locked_client_ip :: string
  lock_until :: int
  is_locked :: bool

text \<open>The operating system's operations on the context: they change its network only.\<close>

definition put_net :: "('n, 'd) instance_ctx \<Rightarrow> 'n \<Rightarrow> ('n, 'd) instance_ctx" where
  "put_net w n = w\<lparr>iio := (iio w)\<lparr>xnet := n\<rparr>\<rparr>"

definition instance_os :: "'n os \<Rightarrow> ('n, 'd) instance_ctx os" where
  "instance_os os =
    \<lparr>os_socket = (\<lambda>w. map_prod id (put_net w) (os_socket os (xnet (iio w)))),
     os_bind = (\<lambda>w fd p. map_prod id (put_net w) (os_bind os (xnet (iio w)) fd p)),
     os_listen = (\<lambda>w fd. map_prod id (put_net w) (os_listen os (xnet (iio w)) fd)),
     os_accept = (\<lambda>w fd. map_prod id (map_prod id (put_net w)) (os_accept os (xnet (iio w)) fd)),
     os_close = (\<lambda>w fd. put_net w (os_close os (xnet (iio w)) fd)),
     os_select = (\<lambda>w n l t. map_prod id (put_net w) (os_select os (xnet (iio w)) n l t)),
     os_time = (\<lambda>w. os_time os (xnet (iio w)))\<rparr>"

abbreviation now :: "'n os \<Rightarrow> ('n, 'd) instance_ctx \<Rightarrow> int" where
  "now os w \<equiv> os_time os (xnet (iio w))"

section \<open>The lock on a client address\<close>

definition client_ip_matches :: "('n, 'd) instance_ctx \<Rightarrow> tcp_connection_t \<Rightarrow> bool" where
  "client_ip_matches w conn \<longleftrightarrow> (if \<not> is_locked w then True else tcp_connection_ip conn = locked_client_ip w)"

definition is_lock_expired :: "'n os \<Rightarrow> ('n, 'd) instance_ctx \<Rightarrow> bool" where
  "is_lock_expired os w \<longleftrightarrow> (if \<not> is_locked w then True else now os w \<ge> lock_until w)"

definition release_client_lock :: "('n, 'd) instance_ctx \<Rightarrow> ('n, 'd) instance_ctx" where
  "release_client_lock w = (if is_locked w then w\<lparr>is_locked := False, locked_client_ip := [], lock_until := 0\<rparr> else w)"

definition set_client_lock :: "'n os \<Rightarrow> xvc_instance_config_t \<Rightarrow> string \<Rightarrow> ('n, 'd) instance_ctx \<Rightarrow> ('n, 'd) instance_ctx" where
  "set_client_lock os conf client_ip w =
    (if client_lock_timeout conf > 0
     then w\<lparr>locked_client_ip := strncpy 15 client_ip, lock_until := now os w + client_lock_timeout conf, is_locked := True\<rparr>
     else w)"

section \<open>Callbacks\<close>

definition on_client_connect ::
  "'n os \<Rightarrow> xvc_instance_config_t \<Rightarrow> nat \<Rightarrow> tcp_connection_t \<Rightarrow> ('n, 'd) instance_ctx \<Rightarrow> (int \<times> ('n, 'd) instance_ctx) outcome" where
  "on_client_connect os conf i conn w =
    (let client_ip = tcp_connection_ip conn;
         w1 = (if is_locked w \<and> is_lock_expired os w then release_client_lock w else w)
     in if active_xvc_conn w1 \<noteq> None \<and> active_xvc_conn w1 \<noteq> Some i then Ret (1, w1)
        else if is_locked w1 \<and> \<not> client_ip_matches w1 conn then Ret (1, w1)
        else if \<not> is_locked w1 \<and> client_lock_timeout conf > 0 then Ret (0, set_client_lock os conf client_ip w1)
        else Ret (0, w1))"

definition on_client_data ::
  "allocator \<Rightarrow> 'n net \<Rightarrow> 'd ft_driver \<Rightarrow> xvc_instance_config_t \<Rightarrow> nat \<Rightarrow> tcp_connection_t \<Rightarrow> ('n, 'd) instance_ctx \<Rightarrow>
   (int \<times> ('n, 'd) instance_ctx) outcome" where
  "on_client_data mal net drv conf i conn w =
    (let w1 = (if active_xvc_conn w = None then w\<lparr>active_xvc_conn := Some i\<rparr> else w) in
     bind_out (xvc_handle mal net drv (conn_fd conn) (xvc_buffer_size conf) (frequency conf) (iio w1)) (\<lambda>(ret, io).
       if ret \<noteq> 0 then Ret (1, w1\<lparr>iio := xvc_free (xvc_close io), active_xvc_conn := None\<rparr>)
       else Ret (0, w1\<lparr>iio := io\<rparr>)))"

definition on_client_disconnect ::
  "'n os \<Rightarrow> xvc_instance_config_t \<Rightarrow> nat \<Rightarrow> tcp_connection_t \<Rightarrow> ('n, 'd) instance_ctx \<Rightarrow> ('n, 'd) instance_ctx outcome" where
  "on_client_disconnect os conf i conn w =
    (if active_xvc_conn w = Some i then
       let w1 = w\<lparr>active_xvc_conn := None\<rparr>
       in Ret (if client_lock_timeout conf > 0 then set_client_lock os conf (tcp_connection_ip conn) w1 else w1)
     else Ret w)"

definition instance_callbacks ::
  "allocator \<Rightarrow> 'n net \<Rightarrow> 'd ft_driver \<Rightarrow> 'n os \<Rightarrow> xvc_instance_config_t \<Rightarrow> ('n, 'd) instance_ctx callbacks" where
  "instance_callbacks mal net drv os conf =
     tcp_server_set_callbacks (Some (on_client_connect os conf)) (Some (on_client_data mal net drv conf)) (Some (on_client_disconnect os conf))"

section \<open>The instance process\<close>

text \<open>\<open>while (g_running)\<close>: the flag a signal handler clears is read from the network state.\<close>

partial_function (option) instance_loop ::
  "('n \<Rightarrow> bool) \<Rightarrow> ('n, 'd) instance_ctx os \<Rightarrow> ('n, 'd) instance_ctx callbacks \<Rightarrow> tcp_server_t \<Rightarrow> ('n, 'd) instance_ctx \<Rightarrow>
   (tcp_server_t \<times> ('n, 'd) instance_ctx) outcome option" where
  "instance_loop g_running os cb s w =
    (if \<not> g_running (xnet (iio w)) then Some (Ret (s, w))
     else case tcp_server_poll os cb 1000 s w of
       Ret (ret, s1, w1) \<Rightarrow> if ret < 0 then Some (Ret (s1, w1)) else instance_loop g_running os cb s1 w1
     | Undefined \<Rightarrow> Some Undefined
     | Killed \<Rightarrow> Some Killed
     | Diverges \<Rightarrow> Some Diverges)"

text \<open>Closing and destroying the adapter: the exit code and what is left of the world.\<close>

definition teardown :: "'d ft_driver \<Rightarrow> int \<Rightarrow> ('n, 'd) instance_ctx \<Rightarrow> (int \<times> 'n \<times> 'd \<times> memory) outcome" where
  "teardown drv code w =
     bind_out (ftdi_adapter_close drv (xftdi (iio w))) (\<lambda>f.
       bind_out (ftdi_adapter_destroy drv f) (\<lambda>(d, m). Ret (code, xnet (iio w), d, m)))"

text \<open>From the open adapter on: frequency and latency, whitelist, server, event loop.\<close>

definition serve_instance ::
  "allocator \<Rightarrow> 'n net \<Rightarrow> 'd ft_driver \<Rightarrow> 'n os \<Rightarrow> ('n \<Rightarrow> bool) \<Rightarrow> xvc_instance_config_t \<Rightarrow> 'd ftdi_io \<Rightarrow> 'n \<Rightarrow>
   (int \<times> 'n \<times> 'd \<times> memory) outcome" where
  "serve_instance mal net drv os g_running conf f n =
     bind_out (if frequency conf > 0 then ftdi_adapter_set_frequency drv (frequency conf) f else Ret (0, f)) (\<lambda>(_, f1).
       let _ = (if latency_timer conf > 0 then ftdi_adapter_set_latency (latency_timer conf) f1 else 0);
           wl = snd (whitelist_load conf);
           w = \<lparr>iio = \<lparr>xctx = xvc_zero 0 0, xnet = n, xftdi = f1\<rparr>, active_xvc_conn = None,
                locked_client_ip = [], lock_until = 0, is_locked = False\<rparr>;
           cb = instance_callbacks mal net drv os conf
       in case tcp_server_init (port conf) (Some wl) of (ret, s) \<Rightarrow>
          if ret < 0 then teardown drv 1 w
          else case tcp_server_start (instance_os os) s w of (code, s1, w1) \<Rightarrow>
          if code < 0 then teardown drv 1 w1
          else case instance_loop g_running (instance_os os) cb s1 w1 of
            None \<Rightarrow> Diverges
          | Some r \<Rightarrow> bind_out r (\<lambda>(s2, w2).
              bind_out (tcp_server_stop (instance_os os) cb s2 w2) (\<lambda>(_, w3). teardown drv 0 w3)))"

text \<open>
  \<open>cmal\<close> and \<open>calloc_ok\<close> are the allocator's answers when the adapter is created, \<open>mal\<close> those it
  gives afterwards: an allocation that succeeded then may fail now.
\<close>

definition run_instance ::
  "allocator \<Rightarrow> allocator \<Rightarrow> bool \<Rightarrow> 'n net \<Rightarrow> 'd ft_driver \<Rightarrow> 'n os \<Rightarrow> ('n \<Rightarrow> bool) \<Rightarrow> xvc_instance_config_t \<Rightarrow> 'n \<times> 'd \<times> memory \<Rightarrow>
   (int \<times> 'n \<times> 'd \<times> memory) outcome" where
  "run_instance cmal mal calloc_ok net drv os g_running conf = (\<lambda>(n, d, m).
     case ftdi_adapter_create cmal calloc_ok d m of
       None \<Rightarrow> Ret (1, n, d, m)
     | Some f \<Rightarrow>
         bind_out (ftdi_adapter_open mal drv (Some (id_value (device_id conf))) 0 f) (\<lambda>(ret, f1).
           if ret < 0 then bind_out (ftdi_adapter_destroy drv f1) (\<lambda>(d1, m1). Ret (1, n, d1, m1))
           else serve_instance mal net drv os g_running conf f1 n))"

end
