(* ===== verification/Instance_Props.thy ===== *)
theory Instance_Props
  imports Instance
begin

text \<open>
  What an instance guarantees: the client lock, the invariant of the connection table across
  polls with the instance's own callbacks, and that \<open>run_instance\<close> gives every descriptor back.
\<close>

section \<open>The lock\<close>

definition instance_inv :: "xvc_instance_config_t \<Rightarrow> ('n, 'd) instance_ctx \<Rightarrow> bool" where
  "instance_inv conf w \<longleftrightarrow> (if is_locked w then client_lock_timeout conf > 0 \<and> (\<exists>a. locked_client_ip w = inet_ntop a)
     else locked_client_ip w = [] \<and> lock_until w = 0)"

lemma set_client_lock_ip: "strncpy 15 (tcp_connection_ip conn) = tcp_connection_ip conn"
  by (simp add: tcp_connection_ip_def strncpy_id length_inet_ntop)

lemma set_client_lock_inv:
  "instance_inv conf w \<Longrightarrow> instance_inv conf (set_client_lock os conf (tcp_connection_ip conn) w)"
  using set_client_lock_ip[of conn] by (auto simp: instance_inv_def set_client_lock_def tcp_connection_ip_def)

lemma xnet_simps [simp]:
  "xnet (iio (set_client_lock os conf ip w)) = xnet (iio w)" "xnet (iio (release_client_lock w)) = xnet (iio w)"
  "xnet (xvc_free io) = xnet io" "xnet (iio (put_net w n)) = n"
  by (simp_all add: set_client_lock_def release_client_lock_def xvc_free_def Let_def put_xmem_def put_net_def split: option.splits)

lemma release_inv: "instance_inv conf w \<Longrightarrow> instance_inv conf (release_client_lock w)"
  by (simp add: instance_inv_def release_client_lock_def)

text \<open>
  C36. What \<open>on_client_connect\<close> answers: it accepts a connection exactly when no other session is
  active and the instance is not locked to another address at that time; it then leaves the
  instance locked to the client's address, if locking is configured. A lock that has not
  expired is not prolonged by accepting its owner.
\<close>

theorem connect_decision:
  assumes "instance_inv conf w"
  shows "\<exists>v w'. on_client_connect os conf i conn w = Ret (v, w') \<and> instance_inv conf w' \<and> (v = 0 \<or> v = 1) \<and>
    (v = 0 \<longleftrightarrow> (active_xvc_conn w = None \<or> active_xvc_conn w = Some i) \<and>
       (is_locked w \<and> now os w < lock_until w \<longrightarrow> locked_client_ip w = tcp_connection_ip conn)) \<and>
    (v = 0 \<and> client_lock_timeout conf > 0 \<longrightarrow> is_locked w' \<and> locked_client_ip w' = tcp_connection_ip conn \<and>
       lock_until w' = (if is_locked w \<and> now os w < lock_until w then lock_until w else now os w + client_lock_timeout conf))"
proof -
  define w1 where "w1 = (if is_locked w \<and> is_lock_expired os w then release_client_lock w else w)"
  have inv: "instance_inv conf w1" using assms by (simp add: w1_def release_inv)
  have l: "is_locked w1 \<longleftrightarrow> is_locked w \<and> now os w < lock_until w" "active_xvc_conn w1 = active_xvc_conn w"
    "is_locked w1 \<Longrightarrow> w1 = w" "now os w1 = now os w"
    by (auto simp: w1_def is_lock_expired_def release_client_lock_def)
  have c: "on_client_connect os conf i conn w =
      (if active_xvc_conn w1 \<noteq> None \<and> active_xvc_conn w1 \<noteq> Some i then Ret (1, w1)
       else if is_locked w1 \<and> \<not> client_ip_matches w1 conn then Ret (1, w1)
       else if \<not> is_locked w1 \<and> client_lock_timeout conf > 0 then Ret (0, set_client_lock os conf (tcp_connection_ip conn) w1)
       else Ret (0, w1))"
    by (simp add: on_client_connect_def Let_def w1_def)
  show ?thesis
  proof (cases "is_locked w1")
    case True
    then have "w1 = w" and lw: "is_locked w" "now os w < lock_until w" using l by blast+
    then show ?thesis using assms unfolding c by (auto simp: client_ip_matches_def)
  next
    case False
    have "instance_inv conf (set_client_lock os conf (tcp_connection_ip conn) w1)" by (rule set_client_lock_inv[OF inv])
    then show ?thesis using inv l(1,2,4) False unfolding c
      by (auto simp: set_client_lock_def set_client_lock_ip)
  qed
qed

text \<open>
  C40. A session that ends because the protocol handler returned an error or the client closed
  the connection does not refresh the lock: \<open>on_client_data\<close> clears the active session, so the
  \<open>on_client_disconnect\<close> that follows changes nothing and the lock runs out at the time fixed when
  the client connected.
\<close>

theorem failed_session_keeps_lock:
  assumes "on_client_data mal net drv conf i conn w = Ret (v, w1)" "v \<noteq> 0"
  shows "on_client_disconnect os conf i conn w1 = Ret w1 \<and> active_xvc_conn w1 = None \<and>
    lock_until w1 = lock_until w \<and> is_locked w1 = is_locked w \<and> locked_client_ip w1 = locked_client_ip w"
  using assms by (auto simp: on_client_data_def on_client_disconnect_def Let_def bind_out_Ret_iff split: if_splits)

section \<open>The callbacks keep their contract\<close>

lemma on_client_data_keeps:
  assumes "net_keeps net fds" "instance_inv conf w" "on_client_data mal net drv conf i conn w = Ret (v, w')"
  shows "instance_inv conf w'" "fds (xnet (iio w')) = fds (xnet (iio w))"
proof -
  obtain ret io where h: "xvc_handle mal net drv (conn_fd conn) (xvc_buffer_size conf) (frequency conf) (iio w) = Ret (ret, io)"
    using assms(3) by (auto simp: on_client_data_def Let_def bind_out_Ret_iff split: if_splits)
  from xvc_handle_net[OF assms(1) h] assms(2,3) h
  show "instance_inv conf w'" "fds (xnet (iio w')) = fds (xnet (iio w))"
    by (auto simp: on_client_data_def Let_def xvc_close_def instance_inv_def split: if_splits)
qed

interpretation icb: connection_callbacks "instance_callbacks mal net drv os conf" "\<lambda>w. fds (xnet (iio w))"
    "\<lambda>w. net_keeps net fds \<and> instance_inv conf w"
  for mal :: allocator and net :: "'n net" and drv :: "'d ft_driver" and os :: "'n os"
    and conf :: xvc_instance_config_t and fds :: "'n \<Rightarrow> int set"
proof unfold_locales
  fix f and w w' :: "('n, 'd) instance_ctx" and i c r
  assume f: "on_connect (instance_callbacks mal net drv os conf) = Some f"
    and I: "net_keeps net fds \<and> instance_inv conf w" and r: "f i c w = Ret (r, w')"
  then have r: "on_client_connect os conf i c w = Ret (r, w')" by (simp add: instance_callbacks_def tcp_server_set_callbacks_def)
  have "xnet (iio w') = xnet (iio w)" using r by (auto simp: on_client_connect_def Let_def split: if_splits)
  moreover have "instance_inv conf w'"
    using r I release_inv[of conf w] set_client_lock_inv[of conf] by (auto simp: on_client_connect_def Let_def split: if_splits)
  ultimately show "(net_keeps net fds \<and> instance_inv conf w') \<and> fds (xnet (iio w')) = fds (xnet (iio w))" using I by simp
next
  fix f and w w' :: "('n, 'd) instance_ctx" and i c r
  assume f: "on_data (instance_callbacks mal net drv os conf) = Some f"
    and I: "net_keeps net fds \<and> instance_inv conf w" and r: "f i c w = Ret (r, w')"
  then have "on_client_data mal net drv conf i c w = Ret (r, w')" by (simp add: instance_callbacks_def tcp_server_set_callbacks_def)
  with on_client_data_keeps[of net fds conf w mal drv i c r w'] I
  show "(net_keeps net fds \<and> instance_inv conf w') \<and> fds (xnet (iio w')) = fds (xnet (iio w))" by simp
next
  fix g and w w' :: "('n, 'd) instance_ctx" and i c
  assume f: "on_disconnect (instance_callbacks mal net drv os conf) = Some g"
    and I: "net_keeps net fds \<and> instance_inv conf w" and r: "g i c w = Ret w'"
  then have r: "on_client_disconnect os conf i c w = Ret w'" by (simp add: instance_callbacks_def tcp_server_set_callbacks_def)
  have "instance_inv conf (w\<lparr>active_xvc_conn := None\<rparr>)" using I by (simp add: instance_inv_def)
  with r I set_client_lock_inv[of conf "w\<lparr>active_xvc_conn := None\<rparr>" os c]
  show "(net_keeps net fds \<and> instance_inv conf w') \<and> fds (xnet (iio w')) = fds (xnet (iio w))"
    by (auto simp: on_client_disconnect_def Let_def split: if_splits)
qed

lemma instance_inv_put_net [simp]: "instance_inv conf (put_net w n) = instance_inv conf w"
  by (simp add: instance_inv_def put_net_def)

lemma instance_os_ok:
  assumes "os_ok os fds (\<lambda>_. True)"
  shows "os_ok (instance_os os) (\<lambda>w. fds (xnet (iio w))) (\<lambda>w. net_keeps net fds \<and> instance_inv conf w)"
  using assms unfolding os_ok_def opens_fd_def keeps_fds_def
  by (simp add: instance_os_def)

section \<open>Polls and the life of an instance\<close>

abbreviation instance_fds :: "('n \<Rightarrow> int set) \<Rightarrow> ('n, 'd) instance_ctx \<Rightarrow> int set" where
  "instance_fds fds w \<equiv> fds (xnet (iio w))"

text \<open>
  C5. A poll with the instance's callbacks keeps the table of connections and the process's
  descriptors consistent, whatever clients do: 16 slots, the count of the open ones, distinct
  descriptors each below the limit given to \<open>select\<close>, no descriptor lost or held twice; it keeps
  the lock consistent and reports at most 17 events.
\<close>

theorem instance_poll_invariant:
  assumes "os_ok os fds (\<lambda>_. True)" "net_keeps net fds"
    and "server_inv (instance_fds fds) base s w" "instance_inv conf w"
    and "tcp_server_poll (instance_os os) (instance_callbacks mal net drv os conf) t s w = Ret (e, s', w')"
  shows "server_inv (instance_fds fds) base s' w' \<and> instance_inv conf w' \<and> -1 \<le> e \<and> e \<le> 17"
  using icb.poll_keeps[OF instance_os_ok[OF assms(1), of net conf] assms(3) _ assms(5)] assms(2,4) by simp

lemma loop_keeps:
  assumes os: "os_ok os0 fds (\<lambda>_. True)" and net: "net_keeps net fds"
    and l: "instance_loop g (instance_os os0) (instance_callbacks mal net drv os0 conf) s w = Some r"
    and inv: "server_inv (instance_fds fds) base s w" "instance_inv conf w" and r: "r = Ret (s', w')"
  shows "server_inv (instance_fds fds) base s' w' \<and> instance_inv conf w'"
proof -
  let ?cb = "instance_callbacks mal net drv os0 conf"
  have "os = instance_os os0 \<longrightarrow> cb = ?cb \<longrightarrow> server_inv (instance_fds fds) base s w \<longrightarrow> instance_inv conf w \<longrightarrow>
      (\<forall>s' w'. r = Ret (s', w') \<longrightarrow> server_inv (instance_fds fds) base s' w' \<and> instance_inv conf w')"
    if "instance_loop g os cb s w = Some r" for os cb s w r
    using that
  proof (rule instance_loop.raw_induct[rotated], intro impI allI)
    fix loop g os cb s w r s' w'
    assume IH: "\<And>g os cb s w r. loop g os cb s w = Some r \<Longrightarrow> os = instance_os os0 \<longrightarrow> cb = ?cb \<longrightarrow> server_inv (instance_fds fds) base s w \<longrightarrow> instance_inv conf w \<longrightarrow>
      (\<forall>s' w'. r = Ret (s', w') \<longrightarrow> server_inv (instance_fds fds) base s' w' \<and> instance_inv conf w')"
      and step: "(if \<not> g (xnet (iio w)) then Some (Ret (s, w))
     else case tcp_server_poll os cb 1000 s w of
       Ret (ret, s1, w1) \<Rightarrow> if ret < 0 then Some (Ret (s1, w1)) else loop g os cb s1 w1
     | Undefined \<Rightarrow> Some Undefined | Killed \<Rightarrow> Some Killed | Diverges \<Rightarrow> Some Diverges) = Some r"
      and eq: "os = instance_os os0" "cb = ?cb" and i: "server_inv (instance_fds fds) base s w" "instance_inv conf w" and r: "r = Ret (s', w')"
    show "server_inv (instance_fds fds) base s' w' \<and> instance_inv conf w'"
    proof (cases "g (xnet (iio w))")
      case False
      then show ?thesis using step r i by simp
    next
      case True
      with step r obtain ret s1 w1 where p: "tcp_server_poll os cb 1000 s w = Ret (ret, s1, w1)"
        by (cases "tcp_server_poll os cb 1000 s w") auto
      from icb.poll_keeps[OF instance_os_ok[OF os, of net conf] i(1) _ p[unfolded eq]] net i(2)
      have k: "server_inv (instance_fds fds) base s1 w1" "instance_inv conf w1" by simp_all
      show ?thesis using step True p r k IH[of g os cb s1 w1 r] eq by (auto split: if_splits)
    qed
  qed
  with l inv r show ?thesis by blast
qed

lemma teardown_net: "teardown drv c w = Ret (c', n', d', m') \<Longrightarrow> n' = xnet (iio w) \<and> c' = c"
  by (auto simp: teardown_def bind_out_Ret_iff)

lemma serve_releases:
  assumes os: "os_ok os fds (\<lambda>_. True)" and net: "net_keeps net fds"
    and r: "serve_instance mal net drv os g conf f n = Ret (code, n', d', m')"
  shows "fds n' = fds n"
proof -
  let ?cb = "instance_callbacks mal net drv os conf"
  note ok = instance_os_ok[OF os, of net conf]
  define s where "s = snd (tcp_server_init (port conf) (Some (snd (whitelist_load conf))))"
  have i: "tcp_server_init (port conf) (Some (snd (whitelist_load conf))) = (0, s)" by (simp add: s_def tcp_server_init_def)
  have s: "connections s = replicate MAX_CONNECTIONS closed_conn" "connection_count s = 0"
    by (simp_all add: s_def tcp_server_init_def)
  obtain c0 f1 where f1: "(if frequency conf > 0 then ftdi_adapter_set_frequency drv (frequency conf) f else Ret (0, f)) = Ret (c0, f1)"
    using r by (auto simp: serve_instance_def bind_out_Ret_iff)
  define w where "w = \<lparr>iio = \<lparr>xctx = xvc_zero 0 0, xnet = n, xftdi = f1\<rparr>, active_xvc_conn = None,
                locked_client_ip = [], lock_until = 0, is_locked = False\<rparr>"
  have w: "net_keeps net fds \<and> instance_inv conf w" "xnet (iio w) = n" using net by (simp_all add: w_def instance_inv_def)
  obtain st s1 w1 where st: "tcp_server_start (instance_os os) s w = (st, s1, w1)" by (metis prod_cases3)
  note k = start_inv[OF ok w(1) s st]
  show ?thesis
  proof (cases "st < 0")
    case True
    then have "teardown drv 1 w1 = Ret (code, n', d', m')"
      using r st f1 i by (simp add: serve_instance_def Let_def w_def)
    from teardown_net[OF this] k True w(2) show ?thesis by simp
  next
    case False
    with r st f1 i obtain s2 w2 s3 w3 where l: "instance_loop g (instance_os os) ?cb s1 w1 = Some (Ret (s2, w2))"
      and stop: "tcp_server_stop (instance_os os) ?cb s2 w2 = Ret (s3, w3)" and t: "teardown drv 0 w3 = Ret (code, n', d', m')"
      by (auto simp: serve_instance_def Let_def w_def bind_out_Ret_iff split: option.splits)
    have "server_inv (instance_fds fds) (fds n) s1 w1" "instance_inv conf w1" using k False w(2) by simp_all
    from loop_keeps[OF os net l this refl] net icb.stop_releases[OF ok _ _ stop, of "fds n"] teardown_net[OF t]
    show ?thesis by simp
  qed
qed

text \<open>
  C18. However an instance ends (the adapter cannot be created or opened, the server cannot be
  started, a poll fails, or it is told to stop), the process holds the same descriptors as
  before: the listening socket and every connection have been closed.
\<close>

theorem run_instance_releases:
  assumes "os_ok os fds (\<lambda>_. True)" "net_keeps net fds"
    and "run_instance cmal mal calloc_ok net drv os g_running conf (n, d, m) = Ret (code, n', d', m')"
  shows "fds n' = fds n"
proof (cases "ftdi_adapter_create cmal calloc_ok d m")
  case (Some f)
  with assms(3) obtain ret f1 where "ftdi_adapter_open mal drv (Some (id_value (device_id conf))) 0 f = Ret (ret, f1)"
    and r: "(if ret < 0 then bind_out (ftdi_adapter_destroy drv f1) (\<lambda>(d1, m1). Ret (1, n, d1, m1))
       else serve_instance mal net drv os g_running conf f1 n) = Ret (code, n', d', m')"
    by (auto simp: run_instance_def bind_out_Ret_iff)
  then show ?thesis using serve_releases[OF assms(1,2), of mal drv g_running conf f1 n code n' d' m']
    by (cases "ret < 0") (auto simp: bind_out_Ret_iff)
qed (use assms(3) in \<open>simp add: run_instance_def\<close>)

end
