(* ===== verification/Instance_Ends.thy ===== *)
theory Instance_Ends
  imports Xvc_Ends Tcp_Ends Instance_Props
begin

text \<open>
  An instance process comes to an end once it is told to stop, if no client blocks it: the event
  loop of \<open>run_instance\<close> (\<^verbatim>\<open>src/main.c\<close>) polls as long as \<open>g_running\<close> is set, every poll returns,
  and so does the shutdown after it.
\<close>

section \<open>The callbacks end\<close>

definition instance_ok :: "'n net \<Rightarrow> 'd ft_driver \<Rightarrow> ('n \<Rightarrow> nat) \<Rightarrow> ('n \<Rightarrow> bool) \<Rightarrow> ('n, 'd) instance_ctx \<Rightarrow> bool" where
  "instance_ok net drv left Q w \<longleftrightarrow>
     driver_reads drv \<and> input_ok net left Q \<and> Q (xnet (iio w)) \<and> adapter_ok (xftdi (iio w))"

lemma instance_ok_io: "instance_ok net drv left Q w \<Longrightarrow> iio w' = iio w \<Longrightarrow> instance_ok net drv left Q w'"
  by (simp add: instance_ok_def)

lemma iio_simps [simp]:
  "iio (set_client_lock os conf ip w) = iio w" "iio (release_client_lock w) = iio w"
  by (simp_all add: set_client_lock_def release_client_lock_def)

lemma on_connect_ends:
  assumes "instance_ok net drv left Q w"
  shows "ends_in (\<lambda>(r, w'). instance_ok net drv left Q w') (on_client_connect os conf i c w)"
  using assms by (auto simp: on_client_connect_def Let_def intro: instance_ok_io[OF assms])

lemma on_disconnect_ends:
  assumes "instance_ok net drv left Q w"
  shows "ends_in (instance_ok net drv left Q) (on_client_disconnect os conf i c w)"
  using assms by (auto simp: on_client_disconnect_def Let_def intro: instance_ok_io[OF assms])

lemma xvc_free_ok [simp]: "adapter_ok (xftdi (xvc_free s)) \<longleftrightarrow> adapter_ok (xftdi s)"
  by (simp add: xvc_free_def Let_def put_xmem_def split: option.splits)

lemma on_data_ends:
  assumes "instance_ok net drv left Q w"
  shows "ends_in (\<lambda>(r, w'). instance_ok net drv left Q w') (on_client_data mal net drv conf i c w)"
proof -
  let ?h = "xvc_handle mal net drv (conn_fd c) (xvc_buffer_size conf) (frequency conf) (iio w)"
  have h: "ends_in (\<lambda>(r, io). Q (xnet io) \<and> adapter_ok (xftdi io)) ?h"
    using xvc_handle_live[of drv net left Q "iio w"] assms by (auto simp: ends_in_iff instance_ok_def)
  show ?thesis unfolding on_client_data_def Let_def
    using assms by (cases "active_xvc_conn w") (auto intro!: ends_in_bind[OF h] simp: instance_ok_def xvc_close_def)
qed

interpretation icbe: ending_callbacks "instance_callbacks mal net drv os conf" "instance_ok net drv left Q"
  for mal :: allocator and net :: "'n net" and drv :: "'d ft_driver" and os :: "'n os"
    and conf :: xvc_instance_config_t and left :: "'n \<Rightarrow> nat" and Q :: "'n \<Rightarrow> bool"
  by unfold_locales
    (auto simp: instance_callbacks_def tcp_server_set_callbacks_def intro: on_connect_ends on_data_ends on_disconnect_ends)

section \<open>The event loop\<close>

text \<open>
  A stop signal arrives: \<open>polls n\<close> bounds the number of calls of \<open>select\<close> until \<open>g_running\<close> is
  clear. Each call counts, and what the process does between two calls does not put it off.
\<close>

definition stops_within :: "'n os \<Rightarrow> 'n net \<Rightarrow> ('n \<Rightarrow> bool) \<Rightarrow> ('n \<Rightarrow> nat) \<Rightarrow> bool" where
  "stops_within os net g_running polls \<longleftrightarrow> (\<forall>n. g_running n \<longrightarrow> 0 < polls n) \<and>
     (\<forall>n k l t. polls (snd (os_select os n k l t)) \<le> polls n - 1) \<and>
     (\<forall>n fd. polls (snd (snd (os_accept os n fd))) \<le> polls n) \<and> (\<forall>n fd. polls (os_close os n fd) \<le> polls n) \<and>
     (\<forall>n fd k. polls (snd (net_read net n fd k)) \<le> polls n) \<and> (\<forall>n fd p. polls (snd (net_write net n fd p)) \<le> polls n)"

lemma stops_withinD:
  assumes "stops_within os net g polls"
  shows "g n \<Longrightarrow> 0 < polls n" "polls (snd (os_select os n k l t)) \<le> polls n - 1"
    "polls (snd (snd (os_accept os n fd))) \<le> polls n" "polls (os_close os n fd) \<le> polls n"
    "net_preserves net (\<lambda>n. polls n \<le> b)"
  using assms unfolding stops_within_def net_preserves_def by (blast intro: order_trans)+

lemma instance_os_keeps:
  assumes "stops_within os net g polls"
  shows "os_keeps (instance_os os) (instance_ok net drv left (\<lambda>n. polls n \<le> b))"
  by (auto simp: os_keeps_def instance_os_def instance_ok_def put_net_def
      intro: order_trans[OF stops_withinD(3)[OF assms]] order_trans[OF stops_withinD(4)[OF assms]])

lemma instance_loop_ends:
  assumes stop: "stops_within os net g polls"
  shows "instance_ok net drv left (\<lambda>n. polls n \<le> b) w \<Longrightarrow>
    \<exists>r. instance_loop g (instance_os os) (instance_callbacks mal net drv os conf) s w = Some r \<and>
      ends_in (\<lambda>(s', w'). \<exists>b. instance_ok net drv left (\<lambda>n. polls n \<le> b) w') r"
proof (induction b arbitrary: s w rule: less_induct)
  case (less b)
  let ?cb = "instance_callbacks mal net drv os conf"
  let ?ok = "\<lambda>b. instance_ok net drv left (\<lambda>n. polls n \<le> b)"
  show ?case
  proof (cases "g (xnet (iio w))")
    case False
    then show ?thesis using less.prems by (subst instance_loop.simps) auto
  next
    case True
    then have b: "0 < b" using less.prems stops_withinD(1)[OF stop True] by (auto simp: instance_ok_def)
    have sel: "?ok (b - 1) (snd (os_select (instance_os os) w n l t))" for n l t
      using less.prems stops_withinD(2)[OF stop, of "xnet (iio w)" n l t] stops_withinD(5)[OF stop]
      by (auto simp: instance_ok_def instance_os_def put_net_def input_ok_def)
    have p: "ends_in (\<lambda>(e, _, w'). ?ok (b - 1) w' \<or> e < 0 \<and> w' = w) (tcp_server_poll (instance_os os) ?cb 1000 s w)"
      by (rule icbe.poll_ends[OF instance_os_keeps[OF stop] sel])
    show ?thesis
    proof (cases "tcp_server_poll (instance_os os) ?cb 1000 s w")
      case (Ret x)
      obtain e s1 w1 where x: "x = (e, s1, w1)" by (cases x)
      show ?thesis
      proof (cases "e < 0")
        case True
        then show ?thesis using p Ret x \<open>g (xnet (iio w))\<close> less.prems by (subst instance_loop.simps) auto
      next
        case False
        then have "?ok (b - 1) w1" using p Ret x by auto
        from less.IH[OF _ this, of s1] b Ret x False True show ?thesis by (subst instance_loop.simps) auto
      qed
    qed (use p True in \<open>subst instance_loop.simps, auto\<close>)+
  qed
qed

section \<open>The instance\<close>

lemma teardown_ends: "driver_reads drv \<Longrightarrow> adapter_ok (xftdi (iio w)) \<Longrightarrow> teardown drv c w \<noteq> Diverges"
  by (auto simp: teardown_def bind_out_Diverges_iff ftdi_close_ends dest: ftdi_destroy_ends ftdi_close_keeps)

lemma serve_ends:
  fixes drv :: "'d ft_driver" and net :: "'n net"
  assumes drv: "driver_reads drv" and net: "finite_input net left" "never_blocks net" and stop: "stops_within os net g polls" and f: "adapter_ok f"
  shows "serve_instance mal net drv os g conf f n \<noteq> Diverges"
proof -
  let ?os = "instance_os os :: ('n, 'd) instance_ctx os" and ?cb = "instance_callbacks mal net drv os conf"
  let ?ok = "\<lambda>b. instance_ok net drv left (\<lambda>n. polls n \<le> b)"
  let ?init = "\<lambda>f1. \<lparr>iio = \<lparr>xctx = xvc_zero 0 0, xnet = n, xftdi = f1\<rparr>, active_xvc_conn = None,
                locked_client_ip = [], lock_until = 0, is_locked = False\<rparr>"
  have f1: "ends_in (\<lambda>(c, f1). adapter_ok f1) (if frequency conf > 0 then ftdi_adapter_set_frequency drv (frequency conf) f else Ret (0, f))"
    using f ftdi_set_frequency_ends[OF drv f] ftdi_set_frequency_keeps[OF f] by (auto simp: ends_in_iff)
  have start: "xftdi (iio w1) = xftdi (iio w)" if "tcp_server_start ?os s w = (c, s1, w1)" for s w c s1 w1
    using that by (auto simp: tcp_server_start_def instance_os_def Let_def put_net_def map_prod_def case_prod_beta split: if_splits)
  have serve: "(case instance_loop g ?os ?cb s1 w1 of None \<Rightarrow> Diverges
      | Some r \<Rightarrow> bind_out r (\<lambda>(s2, w2). bind_out (tcp_server_stop ?os ?cb s2 w2) (\<lambda>(_, w3). teardown drv 0 w3))) \<noteq> Diverges"
    if "adapter_ok (xftdi (iio w1))" for s1 w1
  proof -
    have "?ok (polls (xnet (iio w1))) w1"
      using that drv net stops_withinD(5)[OF stop] by (simp add: instance_ok_def input_ok_def)
    from instance_loop_ends[OF stop this, of mal conf s1] obtain r where
      r: "instance_loop g ?os ?cb s1 w1 = Some r" "ends_in (\<lambda>(s', w'). \<exists>b. ?ok b w') r" by blast
    have "ends_in (\<lambda>_. True) (bind_out (tcp_server_stop ?os ?cb s2 w2) (\<lambda>(_, w3). teardown drv 0 w3))" if "?ok b w2" for b s2 w2
      by (rule ends_in_bind[OF icbe.stop_ends[OF instance_os_keeps[OF stop] that]])
        (auto simp: ends_in_iff instance_ok_def teardown_ends[OF drv])
    then have "ends_in (\<lambda>_. True) (bind_out r (\<lambda>(s2, w2). bind_out (tcp_server_stop ?os ?cb s2 w2) (\<lambda>(_, w3). teardown drv 0 w3)))"
      by (intro ends_in_bind[OF r(2)]) auto
    then show ?thesis using r(1) by (simp add: ends_in_iff)
  qed
  have "ends_in (\<lambda>_. True) (serve_instance mal net drv os g conf f n)"
    unfolding serve_instance_def Let_def
  proof (rule ends_in_bind[OF f1], clarsimp simp: tcp_server_init_def)
    fix f1 :: "'d ftdi_io" assume "adapter_ok f1"
    then show "ends_in (\<lambda>_. True) (case tcp_server_start ?os \<lparr>listen_fd = -1, server_port = port conf, running = False,
        connections = replicate MAX_CONNECTIONS closed_conn, connection_count = 0, max_fd = 0, server_whitelist = Some (snd (whitelist_load conf))\<rparr> (?init f1)
      of (code, s1, w1) \<Rightarrow> if code < 0 then teardown drv 1 w1 else
        case instance_loop g ?os ?cb s1 w1 of None \<Rightarrow> Diverges
        | Some r \<Rightarrow> bind_out r (\<lambda>(s2, w2). bind_out (tcp_server_stop ?os ?cb s2 w2) (\<lambda>(_, w3). teardown drv 0 w3)))"
      using serve teardown_ends[OF drv] start by (fastforce simp: ends_in_iff split: prod.split)
  qed
  then show ?thesis by (simp add: ends_in_iff)
qed

lemma instance_ends:
  assumes drv: "driver_reads drv" and net: "finite_input net left" "never_blocks net" and stop: "stops_within os net g_running polls"
  shows "run_instance cmal mal calloc_ok net drv os g_running conf (n, d, m) \<noteq> Diverges"
proof (cases "ftdi_adapter_create cmal calloc_ok d m")
  case (Some f)
  let ?o = "ftdi_adapter_open mal drv (Some (id_value (device_id conf))) 0 f"
  have "ends_in (\<lambda>(c, f1). if c < 0 then \<not> ftdi_is_open (fctx f1) \<and> \<not> mpsse_is_open (mctx (mio f1)) else adapter_ok f1) ?o"
    using ftdi_open_ends[of mal drv "Some (id_value (device_id conf))" 0 f] ftdi_open_keeps[OF Some]
    by (auto simp: ends_in_iff)
  then have "ends_in (\<lambda>_. True) (bind_out ?o (\<lambda>(ret, f1).
      if ret < 0 then bind_out (ftdi_adapter_destroy drv f1) (\<lambda>(d1, m1). Ret (1, n, d1, m1))
      else serve_instance mal net drv os g_running conf f1 n))"
    by (rule ends_in_bind) (auto simp: serve_ends[OF drv net stop] ends_in_iff ftdi_adapter_destroy_def mpsse_adapter_destroy_def bind_out_Diverges_iff split: if_splits)
  then show ?thesis using Some by (simp add: run_instance_def ends_in_iff)
qed (simp add: run_instance_def)

text \<open>
  C8. An instance process ends after a stop signal if no client stalls in the middle of a command:
  with any driver whose successful reads return data, clients that send finitely many bytes between
  two polls and never block a read or write for ever, and a stop signal that arrives within finitely
  many polls, \<open>run_instance\<close> does not go on for ever, whatever the allocator, the other answers of
  the operating system, the clients' commands and the configuration are. It returns, is ended by
  \<open>SIGPIPE\<close>, or reaches a step with undefined behaviour.
\<close>

theorem run_instance_ends:
  assumes drv: "driver_reads drv" and net: "finite_input net left" "never_blocks net" and stop: "stops_within os net g_running polls"
  shows "run_instance cmal mal calloc_ok net drv os g_running conf (n, d, m) \<noteq> Diverges"
  by (rule instance_ends[OF drv net stop])

end
