(* ===== verification/Instance_Serves.thy ===== *)
theory Instance_Serves
  imports Xvc_Refinement Instance_Props
begin

text \<open>
  The components together: an instance process that serves one client from the \<open>accept\<close> to the
  end of the connection. The client's commands pass through the \<open>select\<close> loop, the callbacks, the
  protocol handler and the adapter, in as many polls and calls of the handler as the code makes of
  them; the client gets the replies of the abstract server, in order.
\<close>

section \<open>A conversation\<close>

text \<open>The abstract server on all commands of a client, however the calls split them.\<close>

fun serve_all :: "'t clocked \<Rightarrow> int \<Rightarrow> u32 \<Rightarrow> xvc_cmd list \<Rightarrow> 't server \<Rightarrow> u8 list \<times> 't server" where
  "serve_all clk limit freq [] r = ([], r)"
| "serve_all clk limit freq (c # cs) r =
    (case serve clk limit freq c r of (reply, r1) \<Rightarrow>
     case serve_all clk limit freq cs r1 of (replies, r2) \<Rightarrow> (reply @ replies, r2))"

lemma session_serve_all:
  "session clk limit freq cs r = (code, replies, rest, r1) \<Longrightarrow>
   serve_all clk limit freq cs r = (replies @ fst (serve_all clk limit freq rest r1), snd (serve_all clk limit freq rest r1)) \<and>
   (code = 0 \<and> length rest < length cs \<or> code = 1 \<and> rest = []) \<and> set rest \<subseteq> set cs"
  by (induction cs arbitrary: r replies) (fastforce split: prod.splits if_splits)+

section \<open>The session of an instance\<close>

definition in_session ::
  "'t clocked \<Rightarrow> ('d \<Rightarrow> 't chip) \<Rightarrow> 'd ft_driver \<Rightarrow> int \<Rightarrow> int \<Rightarrow> ('n, 'd) instance_ctx \<Rightarrow> bool" where
  "in_session clk chip_of drv fd limit w \<longleftrightarrow> xvc_wf (iio w) \<and> ftdi_ready clk chip_of drv (xftdi (iio w)) \<and>
     socket_fd (xctx (iio w)) = fd \<and> max_vector_size (xctx (iio w)) = limit \<and> active_xvc_conn w \<noteq> None"

lemma xvc_free_frame:
  "server_of chip_of (xvc_free io) = server_of chip_of io"
  "ftdi_ready clk chip_of drv (xftdi (xvc_free io)) = ftdi_ready clk chip_of drv (xftdi io)"
  by (simp_all add: xvc_free_def Let_def server_of_def put_xmem_def put_mem_def ftdi_ready_def mport.put_laws split: option.splits)

lemma data_in_session:
  assumes net: "stream_net net incoming sent" and w: "in_session clk chip_of drv (conn_fd conn) limit w"
    and cs: "list_all (valid_cmd limit) cs" "incoming (xnet (iio w)) = concat (map cmd_bytes cs)"
    and r: "session clk limit (frequency conf) cs (server_of chip_of (iio w)) = (code, replies, rest, r)"
  shows "\<exists>w'. on_client_data mal net drv conf i conn w = Ret (code, w') \<and> sent (xnet (iio w')) = sent (xnet (iio w)) @ replies \<and>
    incoming (xnet (iio w')) = concat (map cmd_bytes rest) \<and> server_of chip_of (iio w') = r \<and>
    (if code = 0 then in_session clk chip_of drv (conn_fd conn) limit w'
     else active_xvc_conn w' = None \<and> ftdi_ready clk chip_of drv (xftdi (iio w')))"
proof -
  have s: "xvc_wf (iio w)" "ftdi_ready clk chip_of drv (xftdi (iio w))" "socket_fd (xctx (iio w)) = conn_fd conn"
    "max_vector_size (xctx (iio w)) = limit" "active_xvc_conn w \<noteq> None"
    using w by (simp_all add: in_session_def)
  obtain io where h: "xvc_handle mal net drv (conn_fd conn) (xvc_buffer_size conf) (frequency conf) (iio w) = Ret (code, io)"
    "refines clk chip_of drv incoming sent (iio w) replies (concat (map cmd_bytes rest)) r io"
    using handle_session[OF net s(1-3), unfolded s(4), OF cs r] by blast
  from session_serve_all[OF r] have "code = 0 \<or> code = 1" by blast
  then show ?thesis using h s(3-5)
    by (auto simp: on_client_data_def Let_def refines_def in_session_def xvc_close_def xvc_free_frame)
qed

text \<open>
  The first data of a client: the handler sets its context up, also if it held that of another
  client, and the tracked TAP state is Test-Logic-Reset.
\<close>

lemma data_starts_session:
  assumes mal: "malloc_ok mal" "malloc_succeeds mal" "finite (dom (xmem (iio w)))"
    and w: "vector_buf (xctx (iio w)) = None \<or> socket_fd (xctx (iio w)) \<noteq> conn_fd conn" "ftdi_ready clk chip_of drv (xftdi (iio w))"
    and limit: "limit = clamp_vector_size (if xvc_buffer_size conf > 0 then xvc_buffer_size conf else max_vector_size (xctx (iio w)))" "4 \<le> limit"
  shows "\<exists>w1. on_client_data mal net drv conf i conn w = on_client_data mal net drv conf i conn w1 \<and>
    in_session clk chip_of drv (conn_fd conn) limit w1 \<and> xnet (iio w1) = xnet (iio w) \<and>
    server_of chip_of (iio w1) = (server_of chip_of (iio w))\<lparr>tracked := JTAG_TEST_LOGIC_RESET, tlr_seen := False\<rparr>"
proof -
  obtain size where size: "size = (if xvc_buffer_size conf > 0 then xvc_buffer_size conf else max_vector_size (xctx (iio w)))" by simp
  with limit have cl: "clamp_vector_size size = limit" by simp
  define n where "n = nat limit"
  have "mal (xmem (iio w)) k \<noteq> None" for k using mal(2,3) by (simp add: malloc_succeeds_def)
  then obtain a vec res b where m: "mal (xmem (iio w)) (n * 2) = Some (a, vec)" "mal (xmem (iio w)) n = Some (res, b)"
    by (metis not_None_eq surj_pair)
  define s1 where "s1 = put_xmem ((xmem (iio w))(res \<mapsto> b)) ((iio w)\<lparr>xctx := (xvc_zero (conn_fd conn) limit)\<lparr>vector_buf := Some vec, result_buf := Some res\<rparr>\<rparr>)"
  have i: "xvc_init mal (conn_fd conn) size (iio w) = (0, s1)"
    using m by (simp add: xvc_init_def Let_def cl n_def s1_def)
  have wf: "xvc_wf s1" "max_vector_size (xctx s1) = limit" "xnet s1 = xnet (iio w)"
    using xvc_init_wf[OF mal(1) i] limit(2) by (simp_all add: cl)
  have s1: "socket_fd (xctx s1) = conn_fd conn" "vector_buf (xctx s1) \<noteq> None" "ftdi_ready clk chip_of drv (xftdi s1)"
    "server_of chip_of s1 = (server_of chip_of (iio w))\<lparr>tracked := JTAG_TEST_LOGIC_RESET, tlr_seen := False\<rparr>"
    using w(2) by (simp_all add: s1_def put_xmem_def xvc_zero_def server_of_def put_mem_def ftdi_ready_def mport.put_laws)
  have "xvc_handle mal net drv (conn_fd conn) (xvc_buffer_size conf) (frequency conf) (iio w) =
      xvc_handle mal net drv (conn_fd conn) (xvc_buffer_size conf) (frequency conf) s1"
    using i w(1) s1(1,2) by (auto simp: xvc_handle_def size [symmetric])
  moreover define w1 where "w1 = w\<lparr>iio := s1, active_xvc_conn := (if active_xvc_conn w = None then Some i else active_xvc_conn w)\<rparr>"
  ultimately have "on_client_data mal net drv conf i conn w = on_client_data mal net drv conf i conn w1"
    by (simp add: on_client_data_def Let_def cong: if_cong)
  then show ?thesis using wf s1 by (intro exI[of _ w1]) (simp add: in_session_def w1_def)
qed

text \<open>A client in the middle of its session, or one that has sent nothing yet; \<open>r\<close> is the server it will see.\<close>

definition serving ::
  "'t clocked \<Rightarrow> ('d \<Rightarrow> 't chip) \<Rightarrow> 'd ft_driver \<Rightarrow> xvc_instance_config_t \<Rightarrow> int \<Rightarrow> int \<Rightarrow> ('n, 'd) instance_ctx \<Rightarrow> 't server \<Rightarrow> bool" where
  "serving clk chip_of drv conf fd limit w r \<longleftrightarrow>
     in_session clk chip_of drv fd limit w \<and> r = server_of chip_of (iio w) \<or>
     (vector_buf (xctx (iio w)) = None \<or> socket_fd (xctx (iio w)) \<noteq> fd) \<and> ftdi_ready clk chip_of drv (xftdi (iio w)) \<and> finite (dom (xmem (iio w))) \<and>
     limit = clamp_vector_size (if xvc_buffer_size conf > 0 then xvc_buffer_size conf else max_vector_size (xctx (iio w))) \<and>
     r = (server_of chip_of (iio w))\<lparr>tracked := JTAG_TEST_LOGIC_RESET, tlr_seen := False\<rparr>"

lemma in_session_serving: "in_session clk chip_of drv fd limit w \<Longrightarrow> serving clk chip_of drv conf fd limit w (server_of chip_of (iio w))"
  by (simp add: serving_def)

lemma serving_put_net [simp]: "serving clk chip_of drv conf fd limit (put_net w n) r = serving clk chip_of drv conf fd limit w r"
  by (simp add: serving_def in_session_def put_net_def server_of_def xvc_wf_def)

lemma data_serving:
  assumes net: "stream_net net incoming sent" and mal: "malloc_ok mal" "malloc_succeeds mal" and limit: "4 \<le> limit"
    and w: "serving clk chip_of drv conf (conn_fd conn) limit w r0"
    and cs: "list_all (valid_cmd limit) cs" "incoming (xnet (iio w)) = concat (map cmd_bytes cs)"
    and r: "session clk limit (frequency conf) cs r0 = (code, replies, rest, r)"
  shows "\<exists>w'. on_client_data mal net drv conf i conn w = Ret (code, w') \<and> sent (xnet (iio w')) = sent (xnet (iio w)) @ replies \<and>
    incoming (xnet (iio w')) = concat (map cmd_bytes rest) \<and> server_of chip_of (iio w') = r \<and>
    (if code = 0 then serving clk chip_of drv conf (conn_fd conn) limit w' r
     else active_xvc_conn w' = None \<and> ftdi_ready clk chip_of drv (xftdi (iio w')))"
proof -
  obtain w1 where w1: "on_client_data mal net drv conf i conn w = on_client_data mal net drv conf i conn w1"
    "in_session clk chip_of drv (conn_fd conn) limit w1" "xnet (iio w1) = xnet (iio w)" "server_of chip_of (iio w1) = r0"
    using w data_starts_session[OF mal _ _ _ _ limit, where w = w and clk = clk and chip_of = chip_of and drv = drv and conf = conf and net = net and i = i and conn = conn] unfolding serving_def by metis
  from data_in_session[OF net w1(2) cs(1), of conf code replies rest r mal] cs(2) r w1(3,4)
  obtain w' where "on_client_data mal net drv conf i conn w1 = Ret (code, w')" "sent (xnet (iio w')) = sent (xnet (iio w)) @ replies"
    "incoming (xnet (iio w')) = concat (map cmd_bytes rest)" "server_of chip_of (iio w') = r"
    "if code = 0 then in_session clk chip_of drv (conn_fd conn) limit w'
     else active_xvc_conn w' = None \<and> ftdi_ready clk chip_of drv (xftdi (iio w'))" by auto
  then show ?thesis using in_session_serving[of clk chip_of drv "conn_fd conn" limit w' conf] w1(1)
    by (intro exI[of _ w']) (cases "code = 0"; simp)
qed

lemma data_net:
  assumes "net_keeps net F" "on_client_data mal net drv conf i conn w = Ret (v, w')"
  shows "F (xnet (iio w')) = F (xnet (iio w))"
proof -
  obtain ret io where h: "xvc_handle mal net drv (conn_fd conn) (xvc_buffer_size conf) (frequency conf) (iio w) = Ret (ret, io)"
    using assms(2) by (auto simp: on_client_data_def Let_def bind_out_Ret_iff split: if_splits)
  from xvc_handle_net[OF assms(1) h] assms(2) h show ?thesis
    by (auto simp: on_client_data_def Let_def xvc_close_def split: if_splits)
qed

lemma connect_frame: "\<exists>v w'. on_client_connect os conf i conn w = Ret (v, w') \<and> iio w' = iio w \<and> active_xvc_conn w' = active_xvc_conn w"
  by (auto simp: on_client_connect_def Let_def release_client_lock_def set_client_lock_def)

text \<open>
  C21. A second client takes over a session: while another connection's session is active,
  \<open>on_client_connect\<close> refuses the newcomer, but its data is handled all the same. The handler
  drops the context of the session and serves the newcomer's commands on the chain as the first
  client left it, with the tracked TAP state set back to Test-Logic-Reset. When the newcomer is
  gone no session is active any more, though the first client is still connected.
\<close>

theorem second_client_takes_over:
  assumes "stream_net net incoming sent" "malloc_ok mal" "malloc_succeeds mal" "finite (dom (xmem (iio w)))"
    and w: "in_session clk chip_of drv fd old_limit w" "active_xvc_conn w = Some i" "j \<noteq> i" "conn_fd conn \<noteq> fd"
    and limit: "limit = clamp_vector_size (if xvc_buffer_size conf > 0 then xvc_buffer_size conf else old_limit)" "4 \<le> limit"
    and cs: "list_all (valid_cmd limit) cs" "incoming (xnet (iio w)) = concat (map cmd_bytes cs)"
    and r: "session clk limit (frequency conf) cs ((server_of chip_of (iio w))\<lparr>tracked := JTAG_TEST_LOGIC_RESET, tlr_seen := False\<rparr>) =
        (code, replies, rest, r)"
  shows "\<exists>w1 w'. on_client_connect os conf j conn w = Ret (1, w1) \<and> on_client_data mal net drv conf j conn w1 = Ret (code, w') \<and>
    sent (xnet (iio w')) = sent (xnet (iio w)) @ replies \<and> server_of chip_of (iio w') = r \<and>
    active_xvc_conn w' = (if code = 0 then Some i else None)"
proof -
  define w1 where "w1 = (if is_locked w \<and> is_lock_expired os w then release_client_lock w else w)"
  have w1: "on_client_connect os conf j conn w = Ret (1, w1)" "iio w1 = iio w" "active_xvc_conn w1 = Some i"
    using w(2,3) by (simp_all add: on_client_connect_def w1_def Let_def release_client_lock_def)
  have "serving clk chip_of drv conf (conn_fd conn) limit w1 ((server_of chip_of (iio w))\<lparr>tracked := JTAG_TEST_LOGIC_RESET, tlr_seen := False\<rparr>)"
    using w(1,4) assms(4) limit(1) w1(2) by (auto simp: serving_def in_session_def)
  moreover have "active_xvc_conn w' = (if code = 0 then Some i else None)" if "on_client_data mal net drv conf j conn w1 = Ret (code, w')" for w'
    using that w1(3) by (auto simp: on_client_data_def Let_def bind_out_Ret_iff split: if_splits)
  ultimately show ?thesis using data_serving[OF assms(1-3) limit(2) _ cs(1) _ r, where w = w1] cs(2) w1(1,2) by metis
qed

section \<open>A poll with one client\<close>

text \<open>Slot \<open>i\<close> holds the only open connection; \<open>vacant\<close> is a table without any.\<close>

definition vacant :: "tcp_server_t \<Rightarrow> bool" where
  "vacant s \<longleftrightarrow> length (connections s) = MAX_CONNECTIONS \<and> (\<forall>j < MAX_CONNECTIONS. \<not> is_open (connections s ! j))"

definition only_client :: "tcp_server_t \<Rightarrow> nat \<Rightarrow> int \<Rightarrow> bool" where
  "only_client s i fd \<longleftrightarrow> length (connections s) = MAX_CONNECTIONS \<and> i < MAX_CONNECTIONS \<and>
     (\<forall>j < MAX_CONNECTIONS. is_open (connections s ! j) \<longleftrightarrow> j = i) \<and> conn_fd (connections s ! i) = fd"

lemma open_fds_set: "length (connections s) = MAX_CONNECTIONS \<Longrightarrow>
  set (open_fds s) = {conn_fd (connections s ! j) |j. j < MAX_CONNECTIONS \<and> is_open (connections s ! j)}"
  by (auto simp: open_fds_def in_set_conv_nth)

lemma open_fds_vacant [simp]: "vacant s \<Longrightarrow> open_fds s = []"
  using open_fds_set[of s] by (auto simp: vacant_def simp flip: set_empty)

lemma open_fds_only: "only_client s i fd \<Longrightarrow> set (open_fds s) = {fd}"
  using open_fds_set[of s] by (auto simp: only_client_def)

lemma check_clients_append:
  "check_clients os cb rd ex (is @ js) st = bind_out (check_clients os cb rd ex is st) (check_clients os cb rd ex js)"
proof (induction "is" arbitrary: st)
  case (Cons a "is")
  then show ?case by (cases "check_client os cb rd ex a st") simp_all
qed simp

lemma check_closed:
  "(\<And>j. j \<in> set is \<Longrightarrow> \<not> is_open (connections s ! j)) \<Longrightarrow> check_clients os cb rd ex is (e, s, w) = Ret (e, s, w)"
  by (induction "is") (auto simp: check_client_def is_open_def Let_def)

lemma check_only:
  assumes s: "only_client s i fd" and r: "check_client os cb rd ex i (e, s, w) = Ret (e', s', w')"
    and s': "\<And>j. j \<noteq> i \<Longrightarrow> connections s' ! j = connections s ! j"
  shows "check_clients os cb rd ex [0..<MAX_CONNECTIONS] (e, s, w) = Ret (e', s', w')"
proof -
  have i: "i < MAX_CONNECTIONS" "\<And>j. j < MAX_CONNECTIONS \<Longrightarrow> is_open (connections s ! j) \<longleftrightarrow> j = i"
    using s by (auto simp: only_client_def)
  have split: "[0..<MAX_CONNECTIONS] = [0..<i] @ i # [Suc i..<MAX_CONNECTIONS]"
    using upt_split[of 0 i MAX_CONNECTIONS] upt_conv_Cons[OF i(1)] i(1) by simp
  have "check_clients os cb rd ex [0..<i] (e, s, w) = Ret (e, s, w)" using i by (intro check_closed) auto
  moreover have "check_clients os cb rd ex [Suc i..<MAX_CONNECTIONS] (e', s', w') = Ret (e', s', w')"
    using i s' by (intro check_closed) auto
  ultimately show ?thesis by (simp add: split check_clients_append r)
qed

text \<open>The client's data is handled and the connection stays, or it is closed.\<close>

lemma poll_data:
  assumes s: "only_client s i fd" "running s" "fd_ok fd" "fd_ok (listen_fd s)" "listen_fd s \<noteq> fd"
    and sel: "os_select os w (max_fd s + 1) (listen_fd s # open_fds s) t = (Select_Ready [fd] [], w1)"
    and cb: "on_data cb = Some f" and c: "c = (connections s ! i)\<lparr>conn_state := CONN_STATE_ACTIVE\<rparr>" and r: "f i c w1 = Ret (v, w2)"
  shows "v = 0 \<Longrightarrow> \<exists>s'. tcp_server_poll os cb t s w = Ret (1, s', w2) \<and> only_client s' i fd \<and> running s' \<and> listen_fd s' = listen_fd s"
    and "v \<noteq> 0 \<Longrightarrow> disconnect cb i c w2 = Ret w3 \<Longrightarrow>
      \<exists>s'. tcp_server_poll os cb t s w = Ret (1, s', os_close os w3 fd) \<and> vacant s' \<and> running s' \<and> listen_fd s' = listen_fd s"
proof -
  have i: "i < MAX_CONNECTIONS" "length (connections s) = MAX_CONNECTIONS" "is_open (connections s ! i)" "conn_fd (connections s ! i) = fd"
    "\<And>j. j < MAX_CONNECTIONS \<Longrightarrow> is_open (connections s ! j) \<longleftrightarrow> j = i"
    using s(1) by (auto simp: only_client_def)
  have p: "tcp_server_poll os cb t s w = check_clients os cb [fd] [] [0..<MAX_CONNECTIONS] (0, s, w1)"
    using s(2-5) sel open_fds_only[OF s(1)] by (simp add: tcp_server_poll_def list_all_iff)
  define s1 where "s1 = s\<lparr>connections := (connections s)[i := c]\<rparr>"
  have k: "check_client os cb [fd] [] i (0, s, w1) = bind_out (f i c w1) (\<lambda>(result, w1).
      if result \<noteq> 0 then bind_out (tcp_server_close_connection os cb i s1 w1) (\<lambda>(s2, w2). Ret (1, s2, w2)) else Ret (1, s1, w1))"
    using i(3,4) s(3) cb by (simp add: check_client_def Let_def is_open_def c [symmetric] s1_def [symmetric] cong: if_cong)
  have s1: "connections s1 ! i = c" "\<And>j. j \<noteq> i \<Longrightarrow> connections s1 ! j = connections s ! j" using i(1,2) by (simp_all add: s1_def)
  show "\<exists>s'. tcp_server_poll os cb t s w = Ret (1, s', w2) \<and> only_client s' i fd \<and> running s' \<and> listen_fd s' = listen_fd s" if "v = 0"
  proof -
    have "check_client os cb [fd] [] i (0, s, w1) = Ret (1, s1, w2)" using that r by (simp add: k)
    from check_only[OF s(1) this s1(2)] have "tcp_server_poll os cb t s w = Ret (1, s1, w2)" by (simp add: p)
    moreover have "only_client s1 i fd" using i by (auto simp: only_client_def s1_def c nth_list_update is_open_def)
    moreover have "running s1" "listen_fd s1 = listen_fd s" using s(2) by (simp_all add: s1_def)
    ultimately show ?thesis by blast
  qed
  show "\<exists>s'. tcp_server_poll os cb t s w = Ret (1, s', os_close os w3 fd) \<and> vacant s' \<and> running s' \<and> listen_fd s' = listen_fd s"
    if "v \<noteq> 0" and d: "disconnect cb i c w2 = Ret w3"
  proof -
    define s2 where "s2 = update_max_fd (s1\<lparr>connections := (connections s1)[i := c\<lparr>conn_state := CONN_STATE_CLOSED, conn_fd := -1\<rparr>],
        connection_count := connection_count s1 - 1\<rparr>)"
    have "tcp_server_close_connection os cb i s1 w2 = Ret (s2, os_close os w3 fd)"
      using d i(4) by (simp add: tcp_server_close_connection_def s1(1) c Let_def s2_def)
    then have c2: "check_client os cb [fd] [] i (0, s, w1) = Ret (1, s2, os_close os w3 fd)" using that(1) r by (simp add: k)
    have "connections s2 ! j = connections s ! j" if "j \<noteq> i" for j using that s1(2) by (simp add: s2_def)
    from check_only[OF s(1) c2 this] have "tcp_server_poll os cb t s w = Ret (1, s2, os_close os w3 fd)" by (simp add: p)
    moreover have "vacant s2" using i by (auto simp: vacant_def s2_def s1_def nth_list_update is_open_def)
    moreover have "running s2" "listen_fd s2 = listen_fd s" using s(2) by (simp_all add: s2_def s1_def)
    ultimately show ?thesis by blast
  qed
qed

text \<open>A pending connection is accepted into an empty table.\<close>

lemma poll_accept:
  assumes s: "vacant s" "running s" "fd_ok (listen_fd s)" "fd_ok fd" "listen_fd s \<noteq> fd"
    and sel: "os_select os w (max_fd s + 1) [listen_fd s] t = (Select_Ready [listen_fd s] [], w1)"
    and acc: "os_accept os w1 (listen_fd s) = (fd, addr, w2)"
    and wl: "whitelist_check (server_whitelist s) (AF_INET addr) = Ret v" "v \<noteq> WHITELIST_BLOCKED"
    and cb: "on_connect cb = Some f" "\<And>i c. \<exists>v w3. f i c w2 = Ret (v, w3) \<and> P w3"
  shows "\<exists>i s' w'. tcp_server_poll os cb t s w = Ret (1, s', w') \<and> only_client s' i fd \<and> running s' \<and> listen_fd s' = listen_fd s \<and> P w'"
proof -
  have l: "length (connections s) = MAX_CONNECTIONS" "\<And>j. j < MAX_CONNECTIONS \<Longrightarrow> \<not> is_open (connections s ! j)"
    using s(1) by (auto simp: vacant_def)
  then obtain c0 cs where cs: "connections s = c0 # cs" by (cases "connections s") (auto simp: MAX_CONNECTIONS_def)
  have "\<not> is_open c0" using l(2)[of 0] by (simp add: cs MAX_CONNECTIONS_def)
  then have free: "find_free_slot s = Some 0" by (simp add: find_free_slot_def cs is_open_def)
  define c where "c = new_conn fd addr (os_time os w2)"
  define s1 where "s1 = add_conn 0 c s"
  obtain x w3 where x: "f 0 c w2 = Ret (x, w3)" "P w3" using cb(2) by blast
  have s1: "connections s1 = (connections s)[0 := c]" "running s1" "listen_fd s1 = listen_fd s" using s(2) by (simp_all add: s1_def add_conn_def)
  have only: "only_client s1 0 fd"
    using l by (auto simp: only_client_def s1(1) nth_list_update c_def new_conn_def is_open_def MAX_CONNECTIONS_def)
  have "\<not> fd < 0" using s(4) by (simp add: fd_ok_def)
  then have a: "accept_client os cb s w1 = Ret (1, s1, w3)"
    using wl by (simp add: accept_client_def acc free Let_def cb(1) c_def [symmetric] s1_def [symmetric] x(1))
  have "check_client os cb [listen_fd s] [] 0 (1, s1, w3) = Ret (1, s1, w3)"
    using only s(4,5) by (simp add: check_client_def Let_def only_client_def)
  from check_only[OF only this] have "tcp_server_poll os cb t s w = Ret (1, s1, w3)"
    using s(1,2,3) sel by (simp add: tcp_server_poll_def a)
  then show ?thesis using only s1 x(2) by blast
qed

section \<open>An operating system with one client\<close>

text \<open>
  What is assumed of the sockets, \<open>select\<close> and the signals for one client: the listening socket is
  \<open>lfd\<close>; while a client waits it is readable and \<open>accept\<close> gives the client's socket \<open>fd\<close>; after that
  \<open>fd\<close> is readable, with data or because the client has closed it; none of these calls touches what
  the client sends and receives (\<open>view\<close>); and the process is told to stop (\<open>g\<close> becomes false) when
  it has closed the client's socket, not before.
\<close>

definition one_client ::
  "'n os \<Rightarrow> 'n net \<Rightarrow> ('n \<Rightarrow> 'a) \<Rightarrow> ('n \<Rightarrow> bool) \<Rightarrow> ('n \<Rightarrow> bool) \<Rightarrow> int \<Rightarrow> int \<Rightarrow> u32 \<Rightarrow> bool" where
  "one_client os net view waiting g lfd fd addr \<longleftrightarrow>
     fd_ok lfd \<and> fd_ok fd \<and> lfd \<noteq> fd \<and> net_keeps net waiting \<and> net_keeps net g \<and>
     (\<forall>n. \<exists>n'. os_socket os n = (lfd, n') \<and> view n' = view n \<and> waiting n' = waiting n \<and> g n' = g n) \<and>
     (\<forall>n d p. \<exists>n'. os_bind os n d p = (0, n') \<and> view n' = view n \<and> waiting n' = waiting n \<and> g n' = g n) \<and>
     (\<forall>n d. \<exists>n'. os_listen os n d = (0, n') \<and> view n' = view n \<and> waiting n' = waiting n \<and> g n' = g n) \<and>
     (\<forall>n k ds t. waiting n \<longrightarrow> lfd \<in> set ds \<longrightarrow>
        (\<exists>n'. os_select os n k ds t = (Select_Ready [lfd] [], n') \<and> view n' = view n \<and> waiting n' \<and> g n' = g n)) \<and>
     (\<forall>n. waiting n \<longrightarrow> (\<exists>n'. os_accept os n lfd = (fd, addr, n') \<and> view n' = view n \<and> \<not> waiting n' \<and> g n' = g n)) \<and>
     (\<forall>n k ds t. \<not> waiting n \<longrightarrow> fd \<in> set ds \<longrightarrow>
        (\<exists>n'. os_select os n k ds t = (Select_Ready [fd] [], n') \<and> view n' = view n \<and> \<not> waiting n' \<and> g n' = g n)) \<and>
     (\<forall>n d. view (os_close os n d) = view n \<and> g (os_close os n d) = (g n \<and> d \<noteq> fd))"

lemma one_clientD:
  assumes "one_client os net view waiting g lfd fd addr"
  shows "\<exists>n'. os_socket os n = (lfd, n') \<and> view n' = view n \<and> waiting n' = waiting n \<and> g n' = g n"
    "\<exists>n'. os_bind os n d p = (0, n') \<and> view n' = view n \<and> waiting n' = waiting n \<and> g n' = g n"
    "\<exists>n'. os_listen os n d = (0, n') \<and> view n' = view n \<and> waiting n' = waiting n \<and> g n' = g n"
    "waiting n \<Longrightarrow> lfd \<in> set ds \<Longrightarrow> \<exists>n'. os_select os n k ds t = (Select_Ready [lfd] [], n') \<and> view n' = view n \<and> waiting n' \<and> g n' = g n"
    "waiting n \<Longrightarrow> \<exists>n'. os_accept os n lfd = (fd, addr, n') \<and> view n' = view n \<and> \<not> waiting n' \<and> g n' = g n"
    "\<not> waiting n \<Longrightarrow> fd \<in> set ds \<Longrightarrow> \<exists>n'. os_select os n k ds t = (Select_Ready [fd] [], n') \<and> view n' = view n \<and> \<not> waiting n' \<and> g n' = g n"
    "view (os_close os n d) = view n" "g (os_close os n d) \<longleftrightarrow> g n \<and> d \<noteq> fd"
  using assms unfolding one_client_def by (elim conjE, simp only:)+

lemma instance_callbacks_simps [simp]:
  "on_connect (instance_callbacks mal net drv os conf) = Some (on_client_connect os conf)"
  "on_data (instance_callbacks mal net drv os conf) = Some (on_client_data mal net drv conf)"
  "on_disconnect (instance_callbacks mal net drv os conf) = Some (on_client_disconnect os conf)"
  by (simp_all add: instance_callbacks_def tcp_server_set_callbacks_def)

lemma loop_step:
  "g (xnet (iio w)) \<Longrightarrow> tcp_server_poll os cb 1000 s w = Ret (e, s1, w1) \<Longrightarrow> 0 \<le> e \<Longrightarrow>
   instance_loop g os cb s w = instance_loop g os cb s1 w1"
  by (subst instance_loop.simps) simp

text \<open>One poll of the instance is one call of the handler.\<close>

lemma serving_poll:
  assumes oc: "one_client os net (\<lambda>n. (incoming n, sent n)) waiting g lfd fd addr" and net: "stream_net net incoming sent"
    and mal: "malloc_ok mal" "malloc_succeeds mal" and limit: "4 \<le> limit"
    and w: "serving clk chip_of drv conf fd limit w r" "\<not> waiting (xnet (iio w))" "g (xnet (iio w))"
    and s: "only_client s i fd" "running s" "listen_fd s = lfd"
    and cs: "list_all (valid_cmd limit) cs" "incoming (xnet (iio w)) = concat (map cmd_bytes cs)"
    and v: "session clk limit (frequency conf) cs r = (code, replies, rest, r1)"
  shows "\<exists>s1 w1. tcp_server_poll (instance_os os) (instance_callbacks mal net drv os conf) 1000 s w = Ret (1, s1, w1) \<and>
    listen_fd s1 = lfd \<and> sent (xnet (iio w1)) = sent (xnet (iio w)) @ replies \<and>
    (if code = 0 then only_client s1 i fd \<and> running s1 \<and> \<not> waiting (xnet (iio w1)) \<and> g (xnet (iio w1)) \<and>
       serving clk chip_of drv conf fd limit w1 r1 \<and> incoming (xnet (iio w1)) = concat (map cmd_bytes rest)
     else vacant s1 \<and> \<not> g (xnet (iio w1)) \<and> server_of chip_of (iio w1) = r1 \<and> ftdi_ready clk chip_of drv (xftdi (iio w1)))"
proof -
  let ?os = "instance_os os :: ('a, 'c) instance_ctx os" and ?cb = "instance_callbacks mal net drv os conf"
  define c where "c = (connections s ! i)\<lparr>conn_state := CONN_STATE_ACTIVE\<rparr>"
  have fd: "conn_fd c = fd" using s(1) by (simp add: c_def only_client_def)
  have lfd: "fd_ok (listen_fd s)" "fd_ok fd" "listen_fd s \<noteq> fd" "net_keeps net waiting" "net_keeps net g"
    using oc s(3) by (simp_all add: one_client_def)
  obtain n1 where n1: "os_select os (xnet (iio w)) (max_fd s + 1) (listen_fd s # open_fds s) 1000 = (Select_Ready [fd] [], n1)"
    "incoming n1 = incoming (xnet (iio w))" "sent n1 = sent (xnet (iio w))" "\<not> waiting n1" "g n1"
    using one_clientD(6)[OF oc w(2), of "listen_fd s # open_fds s" "max_fd s + 1" 1000] w(3) open_fds_only[OF s(1)] by auto
  have sel: "os_select ?os w (max_fd s + 1) (listen_fd s # open_fds s) 1000 = (Select_Ready [fd] [], put_net w n1)"
    using n1(1) by (simp add: instance_os_def)
  have a: "serving clk chip_of drv conf (conn_fd c) limit (put_net w n1) r" "incoming (xnet (iio (put_net w n1))) = concat (map cmd_bytes cs)"
    using w(1) cs(2) n1(2) by (simp_all add: fd)
  obtain w2 where w2: "on_client_data mal net drv conf i c (put_net w n1) = Ret (code, w2)"
    "sent (xnet (iio w2)) = sent (xnet (iio w)) @ replies" "incoming (xnet (iio w2)) = concat (map cmd_bytes rest)" "server_of chip_of (iio w2) = r1"
    "if code = 0 then serving clk chip_of drv conf fd limit w2 r1 else active_xvc_conn w2 = None \<and> ftdi_ready clk chip_of drv (xftdi (iio w2))"
    using data_serving[OF net mal limit a(1) cs(1) a(2) v] unfolding fd xnet_simps n1(3) by blast
  note poll = poll_data[OF s(1,2) lfd(2,1,3) sel, of ?cb, OF _ c_def]
  show ?thesis
  proof (cases "code = 0")
    case True
    moreover have "\<not> waiting (xnet (iio w2))" "g (xnet (iio w2))"
      using data_net[OF lfd(4) w2(1)] data_net[OF lfd(5) w2(1)] n1(4,5) by simp_all
    ultimately show ?thesis using poll(1) w2 s(3) by fastforce
  next
    case False
    then have "disconnect ?cb i c w2 = Ret w2" using w2(5) by (simp add: disconnect_def on_client_disconnect_def)
    then obtain s1 where s1: "tcp_server_poll ?os ?cb 1000 s w = Ret (1, s1, os_close ?os w2 fd)" "vacant s1" "listen_fd s1 = lfd"
      using poll(2)[of _ code w2] w2(1) s(3) False by fastforce
    then show ?thesis using False w2 one_clientD(7,8)[OF oc, of "xnet (iio w2)" fd]
      by (simp add: instance_os_def server_of_def put_net_def)
  qed
qed

lemma serving_loop:
  assumes oc: "one_client os net (\<lambda>n. (incoming n, sent n)) waiting g lfd fd addr" and net: "stream_net net incoming sent"
    and mal: "malloc_ok mal" "malloc_succeeds mal" and limit: "4 \<le> limit"
  shows "serving clk chip_of drv conf fd limit w r \<Longrightarrow> \<not> waiting (xnet (iio w)) \<Longrightarrow> g (xnet (iio w)) \<Longrightarrow>
    only_client s i fd \<Longrightarrow> running s \<Longrightarrow> listen_fd s = lfd \<Longrightarrow> list_all (valid_cmd limit) cs \<Longrightarrow>
    incoming (xnet (iio w)) = concat (map cmd_bytes cs) \<Longrightarrow>
    \<exists>s' w'. instance_loop g (instance_os os) (instance_callbacks mal net drv os conf) s w = Some (Ret (s', w')) \<and>
      vacant s' \<and> listen_fd s' = lfd \<and> sent (xnet (iio w')) = sent (xnet (iio w)) @ fst (serve_all clk limit (frequency conf) cs r) \<and>
      server_of chip_of (iio w') = snd (serve_all clk limit (frequency conf) cs r) \<and> ftdi_ready clk chip_of drv (xftdi (iio w'))"
proof (induction "length cs" arbitrary: cs s w r rule: less_induct)
  case less
  let ?os = "instance_os os :: ('a, 'c) instance_ctx os" and ?cb = "instance_callbacks mal net drv os conf"
  obtain code replies rest r1 where v: "session clk limit (frequency conf) cs r = (code, replies, rest, r1)" by (metis prod_cases4)
  note all = session_serve_all[OF v]
  obtain s1 w1 where p: "tcp_server_poll ?os ?cb 1000 s w = Ret (1, s1, w1)" "listen_fd s1 = lfd"
    "sent (xnet (iio w1)) = sent (xnet (iio w)) @ replies"
    and k: "if code = 0 then only_client s1 i fd \<and> running s1 \<and> \<not> waiting (xnet (iio w1)) \<and> g (xnet (iio w1)) \<and>
       serving clk chip_of drv conf fd limit w1 r1 \<and> incoming (xnet (iio w1)) = concat (map cmd_bytes rest)
     else vacant s1 \<and> \<not> g (xnet (iio w1)) \<and> server_of chip_of (iio w1) = r1 \<and> ftdi_ready clk chip_of drv (xftdi (iio w1))"
    using serving_poll[OF oc net mal limit less.prems v] by blast
  have step: "instance_loop g ?os ?cb s w = instance_loop g ?os ?cb s1 w1" using loop_step[of g, OF less.prems(3) p(1)] by simp
  show ?case
  proof (cases "code = 0")
    case True
    have "length rest < length cs" "list_all (valid_cmd limit) rest" using all True less.prems(7) by (auto simp: list_all_iff)
    then show ?thesis using less.hyps[of rest w1 r1 s1] k True p(2,3) all step by simp
  next
    case False
    then have "rest = []" using all by simp
    moreover have "instance_loop g ?os ?cb s1 w1 = Some (Ret (s1, w1))" using k False by (simp add: instance_loop.simps[of g ?os])
    ultimately show ?thesis using k False p(2,3) all step by simp
  qed
qed

section \<open>The whole instance\<close>

lemma stop_vacant:
  assumes "vacant s"
  shows "\<exists>s'. tcp_server_stop os cb s w = Ret (s', if listen_fd s \<ge> 0 then os_close os w (listen_fd s) else w)"
proof -
  have "\<forall>c \<in> set cs. \<not> is_open c \<Longrightarrow> stop_connections os cb k cs w = Ret (cs, w)" for k cs
    by (induction cs arbitrary: k) simp_all
  moreover have "\<forall>c \<in> set (connections s). \<not> is_open c" using assms by (auto simp: vacant_def in_set_conv_nth)
  ultimately show ?thesis by (simp add: tcp_server_stop_def Let_def)
qed

lemma ready_teardown:
  assumes "ftdi_ready clk chip_of drv (xftdi (iio w))"
  shows "\<exists>d m. teardown drv c w = Ret (c, xnet (iio w), d, m)"
proof -
  let ?f = "xftdi (iio w)"
  have r: "ideal_driver clk chip_of drv" "adapter_ready chip_of (mio ?f)" "ftdi_is_open (fctx ?f)"
    using assms by (simp_all add: ftdi_ready_def mpsse_ready_def)
  then have o: "mpsse_is_open (mctx (mio ?f))" by (simp add: adapter_ready_def Let_def)
  obtain io' where "mpsse_buffer_flush drv (mio ?f) = Ret (0, io')"
    using flush_abstracts[OF r(1) ready_abstracts[OF r(2)]] by blast
  then show ?thesis using o r(3)
    by (auto simp: teardown_def ftdi_adapter_close_def mpsse_adapter_close_def ftdi_adapter_destroy_def mpsse_adapter_destroy_def Let_def)
qed

text \<open>The server a client finds: the chain as the adapter left it, at the configured rate if there is one.\<close>

definition found :: "('d \<Rightarrow> 't chip) \<Rightarrow> xvc_instance_config_t \<Rightarrow> 'd ftdi_io \<Rightarrow> 't server" where
  "found chip_of conf f =
    \<lparr>chain = target (chip_of (mdev (mio f))), chain_tap = tap_state (mctx (mio f)), tdi_level = last_tdi (mctx (mio f)),
     clock_div = (if frequency conf > 0 then tck_divisor (unat (frequency conf)) else divisor (chip_of (mdev (mio f)))),
     tracked = JTAG_TEST_LOGIC_RESET, tlr_seen = False\<rparr>"

lemma initial_rate:
  assumes ready: "ftdi_ready clk chip_of drv f"
  shows "\<exists>c f1. (if frequency conf > 0 then ftdi_adapter_set_frequency drv (frequency conf) f else Ret (0, f)) = Ret (c, f1) \<and>
    ftdi_ready clk chip_of drv f1 \<and> mmem (mio f1) = mmem (mio f) \<and>
    (\<forall>n. server_of chip_of \<lparr>xctx = xvc_zero 0 0, xnet = n, xftdi = f1\<rparr> = found chip_of conf f)"
proof (cases "frequency conf > 0")
  case True
  then have "frequency conf \<noteq> 0" by auto
  moreover obtain io' where "mpsse_adapter_set_frequency drv (frequency conf) (mio f) = Ret (int (30000000 div (tck_divisor (unat (frequency conf)) + 1)), io')"
    "chip_of (mdev io') = (chip_of (mdev (mio f)))\<lparr>divisor := tck_divisor (unat (frequency conf))\<rparr>" "adapter_ready chip_of io'"
    "mmem io' = mmem (mio f)" "tap_state (mctx io') = tap_state (mctx (mio f))" "last_tdi (mctx io') = last_tdi (mctx (mio f))"
    using set_frequency_ok[of chip_of "mio f" clk drv "frequency conf"] ready by (auto simp: ftdi_ready_def mpsse_ready_def)
  ultimately show ?thesis using ready True
    by (auto simp: ftdi_adapter_set_frequency_def on_mpsse_def ftdi_ready_def mpsse_ready_def server_of_def found_def xvc_zero_def)
qed (use ready in \<open>simp add: server_of_def found_def xvc_zero_def\<close>)

lemma start_one_client:
  assumes oc: "one_client os net view waiting g lfd fd addr" and s: "connections s = replicate MAX_CONNECTIONS closed_conn"
  shows "\<exists>s1 n1. tcp_server_start (instance_os os) s w = (0, s1, put_net w n1) \<and> vacant s1 \<and> running s1 \<and> listen_fd s1 = lfd \<and>
    server_whitelist s1 = server_whitelist s \<and> view n1 = view (xnet (iio w)) \<and> waiting n1 = waiting (xnet (iio w)) \<and> g n1 = g (xnet (iio w))"
proof -
  obtain n1 where n1: "os_socket os (xnet (iio w)) = (lfd, n1)" "view n1 = view (xnet (iio w))" "waiting n1 = waiting (xnet (iio w))" "g n1 = g (xnet (iio w))"
    using one_clientD(1)[OF oc] by blast
  obtain n2 where n2: "os_bind os n1 lfd (word_of_int (server_port s)) = (0, n2)" "view n2 = view n1" "waiting n2 = waiting n1" "g n2 = g n1"
    using one_clientD(2)[OF oc] by blast
  obtain n3 where n3: "os_listen os n2 lfd = (0, n3)" "view n3 = view n2" "waiting n3 = waiting n2" "g n3 = g n2"
    using one_clientD(3)[OF oc] by blast
  have "\<not> lfd < 0" using oc by (simp add: one_client_def fd_ok_def)
  then show ?thesis using n1 n2 n3 s
    by (auto simp: tcp_server_start_def instance_os_def put_net_def Let_def vacant_def closed_conn_def is_open_def intro!: exI[of _ n3])
qed

lemma loop_serves_client:
  assumes oc: "one_client os net (\<lambda>n. (incoming n, sent n)) waiting g lfd fd addr" and net: "stream_net net incoming sent"
    and mal: "malloc_ok mal" "malloc_succeeds mal" and limit: "4 \<le> limit"
    and wl: "whitelist_check (server_whitelist s) (AF_INET addr) = Ret v" "v \<noteq> WHITELIST_BLOCKED"
    and w: "serving clk chip_of drv conf fd limit w r" "waiting (xnet (iio w))" "g (xnet (iio w))" "active_xvc_conn w = None"
    and s: "vacant s" "running s" "listen_fd s = lfd"
    and cs: "list_all (valid_cmd limit) cs" "incoming (xnet (iio w)) = concat (map cmd_bytes cs)"
  shows "\<exists>s' w'. instance_loop g (instance_os os) (instance_callbacks mal net drv os conf) s w = Some (Ret (s', w')) \<and>
      vacant s' \<and> listen_fd s' = lfd \<and> sent (xnet (iio w')) = sent (xnet (iio w)) @ fst (serve_all clk limit (frequency conf) cs r) \<and>
      server_of chip_of (iio w') = snd (serve_all clk limit (frequency conf) cs r) \<and> ftdi_ready clk chip_of drv (xftdi (iio w'))"
proof -
  let ?os = "instance_os os :: ('a, 'c) instance_ctx os" and ?cb = "instance_callbacks mal net drv os conf"
  have fds: "fd_ok (listen_fd s)" "fd_ok fd" "listen_fd s \<noteq> fd" using oc s(3) by (simp_all add: one_client_def)
  obtain n1 where n1: "os_select os (xnet (iio w)) (max_fd s + 1) [listen_fd s] 1000 = (Select_Ready [listen_fd s] [], n1)"
    "incoming n1 = incoming (xnet (iio w))" "sent n1 = sent (xnet (iio w))" "waiting n1" "g n1"
    using one_clientD(4)[OF oc w(2), of "[listen_fd s]" "max_fd s + 1" 1000] w(3) s(3) by auto
  obtain n2 where n2: "os_accept os n1 (listen_fd s) = (fd, addr, n2)" "incoming n2 = incoming n1" "sent n2 = sent n1" "\<not> waiting n2" "g n2"
    using one_clientD(5)[OF oc n1(4)] n1(5) s(3) by auto
  let ?P = "\<lambda>w'. iio w' = iio (put_net w n2) \<and> active_xvc_conn w' = None"
  have sel: "os_select ?os w (max_fd s + 1) [listen_fd s] 1000 = (Select_Ready [listen_fd s] [], put_net w n1)"
    and acc: "os_accept ?os (put_net w n1) (listen_fd s) = (fd, addr, put_net w n2)"
    using n1(1) n2(1) by (simp_all add: instance_os_def put_net_def)
  have "\<exists>v w3. on_client_connect os conf i c (put_net w n2) = Ret (v, w3) \<and> ?P w3" for i c
    using connect_frame[of os conf i c "put_net w n2"] w(4) by (auto simp: put_net_def)
  then obtain i s1 w1 where s1: "tcp_server_poll ?os ?cb 1000 s w = Ret (1, s1, w1)" "only_client s1 i fd" "running s1" "listen_fd s1 = lfd" "?P w1"
    using poll_accept[OF s(1,2) fds sel acc wl, of ?cb "on_client_connect os conf" ?P] s(3) by auto
  have "serving clk chip_of drv conf fd limit (put_net w n2) r" using w(1) by simp
  then have "serving clk chip_of drv conf fd limit w1 r" using s1(5) w(4) by (simp add: serving_def in_session_def put_net_def)
  moreover have "xnet (iio w1) = n2" using s1(5) by simp
  ultimately show ?thesis
    using serving_loop[OF oc net mal limit, where clk = clk and chip_of = chip_of and drv = drv and conf = conf and i = i and w = w1 and r = r and s = s1 and cs = cs] s1(2-4) n1(2,3) n2(2-5) cs loop_step[of g, OF w(3) s1(1)] by simp
qed

text \<open>
  C20. The client lock does not protect the chain: while the instance is locked to another address,
  \<open>on_client_connect\<close> refuses the client, whatever slot it gets and whatever the network has done;
  the event loop serves it all the same, with every reply a client that holds the lock would get.
\<close>

theorem locked_out_client_served:
  assumes "one_client os net (\<lambda>n. (incoming n, sent n)) waiting g lfd fd addr" "stream_net net incoming sent"
    "malloc_ok mal" "malloc_succeeds mal"
    and limit: "limit = clamp_vector_size (if xvc_buffer_size conf > 0 then xvc_buffer_size conf else max_vector_size (xctx (iio w)))" "4 \<le> limit"
    and wl: "whitelist_check (server_whitelist s) (AF_INET addr) = Ret v" "v \<noteq> WHITELIST_BLOCKED"
    and w: "active_xvc_conn w = None" "vector_buf (xctx (iio w)) = None" "ftdi_ready clk chip_of drv (xftdi (iio w))" "finite (dom (xmem (iio w)))"
    and lock: "is_locked w" "locked_client_ip w \<noteq> inet_ntop addr" "\<And>n. os_time os n < lock_until w"
    and s: "vacant s" "running s" "listen_fd s = lfd" "waiting (xnet (iio w))" "g (xnet (iio w))"
    and cs: "list_all (valid_cmd limit) cs" "incoming (xnet (iio w)) = concat (map cmd_bytes cs)"
  defines "r \<equiv> (server_of chip_of (iio w))\<lparr>tracked := JTAG_TEST_LOGIC_RESET, tlr_seen := False\<rparr>"
  shows "on_client_connect os conf i (new_conn fd addr t) (put_net w n) = Ret (1, put_net w n) \<and>
    (\<exists>s' w'. instance_loop g (instance_os os) (instance_callbacks mal net drv os conf) s w = Some (Ret (s', w')) \<and>
      sent (xnet (iio w')) = sent (xnet (iio w)) @ fst (serve_all clk limit (frequency conf) cs r))"
proof -
  have "\<not> lock_until w \<le> os_time os n" "inet_ntop addr \<noteq> locked_client_ip w" using lock(2) lock(3)[of n] by simp_all
  then have "on_client_connect os conf i (new_conn fd addr t) (put_net w n) = Ret (1, put_net w n)"
    using w(1) lock(1) by (simp add: on_client_connect_def Let_def is_lock_expired_def client_ip_matches_def put_net_def
        tcp_connection_ip_def new_conn_def)
  moreover have sv: "serving clk chip_of drv conf fd limit w r" using w limit(1) by (simp add: serving_def r_def)
  ultimately show ?thesis
    using loop_serves_client[OF assms(1-4) limit(2) wl sv s(4,5) w(1) s(1-3) cs] by blast
qed

lemma serve_instance_client:
  assumes "one_client os net (\<lambda>n. (incoming n, sent n)) waiting g lfd fd addr" "stream_net net incoming sent"
    "malloc_ok mal" "malloc_succeeds mal" "ftdi_ready clk chip_of drv f" "finite (dom (mmem (mio f)))"
    and limit: "limit = clamp_vector_size (xvc_buffer_size conf)" "4 \<le> limit"
    and wl: "whitelist_check (Some (snd (whitelist_load conf))) (AF_INET addr) = Ret v" "v \<noteq> WHITELIST_BLOCKED"
    and n: "waiting n" "g n" "list_all (valid_cmd limit) cs" "incoming n = concat (map cmd_bytes cs)"
  shows "\<exists>n' d' m'. serve_instance mal net drv os g conf f n = Ret (0, n', d', m') \<and>
    sent n' = sent n @ fst (serve_all clk limit (frequency conf) cs (found chip_of conf f))"
proof -
  let ?os = "instance_os os :: ('a, 'c) instance_ctx os" and ?cb = "instance_callbacks mal net drv os conf"
  obtain c0 f1 where f1: "(if frequency conf > 0 then ftdi_adapter_set_frequency drv (frequency conf) f else Ret (0, f)) = Ret (c0, f1)"
    "ftdi_ready clk chip_of drv f1" "mmem (mio f1) = mmem (mio f)"
    "\<And>n :: 'a. server_of chip_of \<lparr>xctx = xvc_zero 0 0, xnet = n, xftdi = f1\<rparr> = found chip_of conf f"
    using initial_rate[OF assms(5), of conf] by blast
  define w where "w = \<lparr>iio = \<lparr>xctx = xvc_zero 0 0, xnet = n, xftdi = f1\<rparr>, active_xvc_conn = None,
                locked_client_ip = [], lock_until = 0, is_locked = False\<rparr>"
  obtain s where s: "tcp_server_init (port conf) (Some (snd (whitelist_load conf))) = (0, s)"
    "connections s = replicate MAX_CONNECTIONS closed_conn" "server_whitelist s = Some (snd (whitelist_load conf))"
    by (simp add: tcp_server_init_def)
  obtain s1 n1 where st: "tcp_server_start ?os s w = (0, s1, put_net w n1)" "vacant s1" "running s1" "listen_fd s1 = lfd"
    "server_whitelist s1 = Some (snd (whitelist_load conf))" "incoming n1 = incoming n" "sent n1 = sent n" "waiting n1" "g n1"
    using start_one_client[OF assms(1) s(2), of w] s(3) n(1,2) by (auto simp: w_def)
  have "limit = clamp_vector_size (if xvc_buffer_size conf > 0 then xvc_buffer_size conf else 0)"
    using limit(1) by (simp add: clamp_vector_size_def)
  moreover have "(found chip_of conf f)\<lparr>tracked := JTAG_TEST_LOGIC_RESET, tlr_seen := False\<rparr> = found chip_of conf f" by (simp add: found_def)
  moreover have "vector_buf (xvc_zero 0 0) = None" "max_vector_size (xvc_zero 0 0) = 0" by (simp_all add: xvc_zero_def)
  ultimately have "serving clk chip_of drv conf fd limit w (found chip_of conf f)"
    using f1(2-4) assms(6) by (simp add: serving_def w_def)
  then have sv: "serving clk chip_of drv conf fd limit (put_net w n1) (found chip_of conf f)" by simp
  have wl1: "whitelist_check (server_whitelist s1) (AF_INET addr) = Ret v" using wl(1) st(5) by simp
  obtain s2 w2 where l: "instance_loop g ?os ?cb s1 (put_net w n1) = Some (Ret (s2, w2))" "vacant s2"
    "sent (xnet (iio w2)) = sent n @ fst (serve_all clk limit (frequency conf) cs (found chip_of conf f))" "ftdi_ready clk chip_of drv (xftdi (iio w2))"
    using loop_serves_client[OF assms(1-4) limit(2) wl1 wl(2) sv, of cs] st n(3,4) by (auto simp: w_def put_net_def)
  define w3 where "w3 = (if listen_fd s2 \<ge> 0 then os_close ?os w2 (listen_fd s2) else w2)"
  obtain s3 where stop: "tcp_server_stop ?os ?cb s2 w2 = Ret (s3, w3)" using stop_vacant[OF l(2), of ?os ?cb w2] unfolding w3_def by blast
  have w3: "sent (xnet (iio w3)) = sent (xnet (iio w2))" "xftdi (iio w3) = xftdi (iio w2)"
    using one_clientD(7)[OF assms(1)] by (simp_all add: w3_def instance_os_def put_net_def)
  obtain d' m' where "teardown drv 0 w3 = Ret (0, xnet (iio w3), d', m')" using ready_teardown[of clk chip_of drv w3 0] l(4) w3(2) by auto
  then show ?thesis using f1(1) s(1) st(1) l stop w3(1) by (simp add: serve_instance_def Let_def w_def [symmetric])
qed

text \<open>The chain \<open>t\<close> behind an adapter that has just been opened, at 1 MHz or the configured rate.\<close>

definition fresh_server :: "xvc_instance_config_t \<Rightarrow> 't \<Rightarrow> 't server" where
  "fresh_server conf t =
    \<lparr>chain = t, chain_tap = TEST_LOGIC_RESET, tdi_level = False,
     clock_div = (if frequency conf > 0 then tck_divisor (unat (frequency conf)) else 29),
     tracked = JTAG_TEST_LOGIC_RESET, tlr_seen = False\<rparr>"

text \<open>
  C1. An instance process, from its start to its exit, with a device that can be opened and a
  client that connects from an address the whitelist lets in, sends any sequence of \<open>getinfo:\<close>,
  \<open>settck:\<close> and valid shift commands and closes the connection: the process opens the adapter,
  listens, accepts the client, serves it over as many polls as it takes, closes the connection,
  stops, takes the adapter down and exits with 0; what the client has received is, byte for byte,
  what the abstract server answers to the commands, on the chain the opened adapter finds, with
  the TAP in Test-Logic-Reset and at the configured clock rate if there is one.
\<close>

theorem instance_serves_client:
  assumes "one_client os net (\<lambda>n. (incoming n, sent n)) waiting g lfd fd addr" "stream_net net incoming sent"
    and mal: "malloc_ok mal" "malloc_succeeds mal" "finite (dom m)" "malloc_succeeds cmal"
    and drv: "ideal_driver clk chip_of drv" "clean_open chip_of drv" "device_present drv"
    and limit: "limit = clamp_vector_size (xvc_buffer_size conf)" "4 \<le> limit"
    and wl: "whitelist_check (Some (snd (whitelist_load conf))) (AF_INET addr) = Ret v" "v \<noteq> WHITELIST_BLOCKED"
    and n: "waiting n" "g n" "list_all (valid_cmd limit) cs" "incoming n = concat (map cmd_bytes cs)"
  shows "\<exists>f f1 n' d' m'. ftdi_adapter_create cmal True d m = Some f \<and>
    ftdi_adapter_open mal drv (Some (id_value (device_id conf))) 0 f = Ret (0, f1) \<and>
    run_instance cmal mal True net drv os g conf (n, d, m) = Ret (0, n', d', m') \<and>
    sent n' = sent n @ fst (serve_all clk limit (frequency conf) cs (fresh_server conf (target (chip_of (mdev (mio f1))))))"
proof -
  have m: "mal m k \<noteq> None" "cmal m k \<noteq> None" for k using mal(2-4) by (simp_all add: malloc_succeeds_def)
  obtain f where f: "ftdi_adapter_create cmal True d m = Some f"
    using m(2) by (auto simp: ftdi_adapter_create_def mpsse_adapter_create_def block_of_def)
  obtain f1 where o: "ftdi_adapter_open mal drv (Some (id_value (device_id conf))) 0 f = Ret (0, f1)" "mmem (mio f1) = m"
    "ftdi_ready clk chip_of drv f1" "tap_state (mctx (mio f1)) = TEST_LOGIC_RESET" "\<not> last_tdi (mctx (mio f1))" "divisor (chip_of (mdev (mio f1))) = 29"
    using ftdi_open_ok[OF drv(1,2) f, of mal "Some (id_value (device_id conf))" 0] drv(3) m(1) by auto
  have "found chip_of conf f1 = fresh_server conf (target (chip_of (mdev (mio f1))))"
    using o(4-6) by (simp add: found_def fresh_server_def)
  moreover obtain n' d' m' where "serve_instance mal net drv os g conf f1 n = Ret (0, n', d', m')"
    "sent n' = sent n @ fst (serve_all clk limit (frequency conf) cs (found chip_of conf f1))"
    using serve_instance_client[OF assms(1,2) mal(1,2) o(3) _ limit wl n] o(2) mal(3) by auto
  ultimately show ?thesis using f o(1) by (simp add: run_instance_def)
qed

end
