(* ===== verification/Instance_Stalls.thy ===== *)
theory Instance_Stalls
  imports Instance_Serves
begin

text \<open>
  A client that sends the beginning of a command and then neither goes on nor closes its connection:
  the handler waits for the rest in \<open>read\<close>, which has no timeout and is restarted after a signal,
  so the event loop of the instance does not come back to look at \<open>g_running\<close>.
\<close>

section \<open>Reading from a client that stalls\<close>

definition stalling_net :: "'n net \<Rightarrow> ('n \<Rightarrow> u8 list) \<Rightarrow> bool" where
  "stalling_net net incoming \<longleftrightarrow>
     (\<forall>n fd k. 0 < k \<longrightarrow> (case net_read net n fd k of
         (Got data, n1) \<Rightarrow> data \<noteq> [] \<and> length data \<le> k \<and> incoming n = data @ incoming n1
       | (Read_Blocked, n1) \<Rightarrow> incoming n = []
       | _ \<Rightarrow> False))"

lemma read_exact_stalls:
  assumes "stalling_net net incoming" "0 \<le> len"
  shows "if nat len \<le> length (incoming n)
    then \<exists>n'. incoming n' = drop (nat len) (incoming n) \<and> xvc_read_exact net fd len acc n = Ret (1, acc @ take (nat len) (incoming n), n')
    else xvc_read_exact net fd len acc n = Diverges"
  using assms(2)
proof (induction "nat len" arbitrary: len acc n rule: less_induct)
  case less
  show ?case
  proof (cases "len = 0")
    case True
    then show ?thesis by (subst xvc_read_exact.simps) auto
  next
    case False
    then have pos: "0 < len" "0 < nat len" using less.prems by auto
    obtain res n1 where rd: "net_read net n fd (nat len) = (res, n1)" by fastforce
    have spec: "case res of Got data \<Rightarrow> data \<noteq> [] \<and> length data \<le> nat len \<and> incoming n = data @ incoming n1
        | Read_Blocked \<Rightarrow> incoming n = [] | _ \<Rightarrow> False"
      using assms(1)[unfolded stalling_net_def, rule_format, OF pos(2), of n fd] rd by (cases res) simp_all
    show ?thesis
    proof (cases res)
      case (Got d)
      then have d: "d \<noteq> []" "length d \<le> nat len" "incoming n = d @ incoming n1" using spec by auto
      have nat: "nat (len - int (length d)) = nat len - length d" by linarith
      have step: "xvc_read_exact net fd len acc n = xvc_read_exact net fd (len - int (length d)) (acc @ d) n1"
        using d pos rd Got by (subst xvc_read_exact.simps) auto
      have "nat (len - int (length d)) < nat len" "0 \<le> len - int (length d)" using d pos by auto
      from less.hyps[OF this, of n1 "acc @ d"] show ?thesis
        using d(2,3) unfolding step nat by (auto simp: le_diff_conv add.commute)
    qed (use spec rd pos in \<open>(subst xvc_read_exact.simps, simp)+\<close>)
  qed
qed

text \<open>After a read that got its bytes.\<close>

definition fed :: "('n \<Rightarrow> u8 list) \<Rightarrow> nat \<Rightarrow> nat \<Rightarrow> ('n, 'd) xvc_io \<Rightarrow> ('n, 'd) xvc_io \<Rightarrow> bool" where
  "fed incoming off n s s1 \<longleftrightarrow> incoming (xnet s1) = drop n (incoming (xnet s)) \<and>
     cmd_buf (xctx s1) = take off (cmd_buf (xctx s)) @ take n (incoming (xnet s)) @ drop (off + n) (cmd_buf (xctx s)) \<and>
     max_vector_size (xctx s1) = max_vector_size (xctx s) \<and> vector_buf (xctx s1) = vector_buf (xctx s)"

lemma read_cmd_stalls:
  assumes "stalling_net net incoming"
  shows "\<not> n \<le> length (incoming (xnet s)) \<Longrightarrow> read_cmd net off n s k = Diverges"
    and "n \<le> length (incoming (xnet s)) \<Longrightarrow> \<exists>s1. (\<forall>k. read_cmd net off n s k = k s1) \<and> fed incoming off n s s1"
proof -
  note r = read_exact_stalls[OF assms, of "int n" "xnet s" "socket_fd (xctx s)" "[]"]
  show "\<not> n \<le> length (incoming (xnet s)) \<Longrightarrow> read_cmd net off n s k = Diverges"
    using r by (simp add: read_cmd_def)
  show "\<exists>s1. (\<forall>k. read_cmd net off n s k = k s1) \<and> fed incoming off n s s1" if le: "n \<le> length (incoming (xnet s))"
  proof -
    obtain n' where n': "incoming n' = drop n (incoming (xnet s))"
      "xvc_read_exact net (socket_fd (xctx s)) (int n) [] (xnet s) = Ret (1, take n (incoming (xnet s)), n')"
      using r le by auto
    define b where "b = take off (cmd_buf (xctx s)) @ take n (incoming (xnet s)) @ drop (off + n) (cmd_buf (xctx s))"
    define s1 where "s1 = s\<lparr>xnet := n', xctx := (xctx s)\<lparr>cmd_buf := b, bytes_rx := bytes_rx (xctx s) + of_nat n\<rparr>\<rparr>"
    have "read_cmd net off n s k = k s1" for k
      using n' le by (simp add: read_cmd_def s1_def b_def Let_def)
    moreover have "fed incoming off n s s1" using n' by (simp add: fed_def s1_def b_def)
    ultimately show ?thesis by blast
  qed
qed

section \<open>An unfinished command\<close>

text \<open>The first two bytes select the command; the rest of it is missing or incomplete.\<close>

lemma unfinished_command:
  assumes net: "stalling_net net incoming" and s: "length (cmd_buf (xctx s)) = 16"
    and inc: "incoming (xnet s) = take k ([a, b] @ rest)"
    and more: "\<And>s1. incoming (xnet s1) = take (k - 2) rest \<Longrightarrow> take 2 (cmd_buf (xctx s1)) = [a, b] \<Longrightarrow> length (cmd_buf (xctx s1)) = 16 \<Longrightarrow>
      max_vector_size (xctx s1) = max_vector_size (xctx s) \<Longrightarrow> vector_buf (xctx s1) = vector_buf (xctx s) \<Longrightarrow> 2 \<le> k \<Longrightarrow>
      (if [a, b] = chars ''ge'' then handle_getinfo net s1 else if [a, b] = chars ''se'' then handle_settck net drv f s1
       else if [a, b] = chars ''sh'' then handle_shift net drv s1 else Ret (Some (-1), s1)) = Diverges"
  shows "handle_command net drv f s = Diverges"
proof (cases "2 \<le> k")
  case True
  then have "2 \<le> length (incoming (xnet s))" by (simp add: inc)
  from read_cmd_stalls(2)[OF net this, of 0] obtain s1 where s1: "\<And>k. read_cmd net 0 2 s k = k s1" "fed incoming 0 2 s s1" by blast
  have two: "take 2 (take k ([a, b] @ rest)) = [a, b]" "drop 2 (take k ([a, b] @ rest)) = take (k - 2) rest"
    using True by (simp_all add: drop_take min_absorb1)
  have c: "cmd_buf (xctx s1) = [a, b] @ drop 2 (cmd_buf (xctx s))" using s1(2) unfolding fed_def inc two by (simp add: numeral_2_eq_2)
  then have "take 2 (cmd_buf (xctx s1)) = [a, b]" "length (cmd_buf (xctx s1)) = 16" using s by simp_all
  then have "handle_command net drv f s = (if [a, b] = chars ''ge'' then handle_getinfo net s1
      else if [a, b] = chars ''se'' then handle_settck net drv f s1
      else if [a, b] = chars ''sh'' then handle_shift net drv s1 else Ret (Some (-1), s1))"
    by (simp add: handle_command_def s1(1) Let_def)
  also have "\<dots> = Diverges"
    by (rule more) (use s1(2)[unfolded fed_def inc two] c s True in simp_all)
  finally show ?thesis .
next
  case False
  then have "\<not> 2 \<le> length (incoming (xnet s))" by (auto simp: inc)
  then show ?thesis by (simp add: handle_command_def read_cmd_stalls(1)[OF net])
qed

lemma unfinished_shift:
  assumes net: "stalling_net net incoming" and s: "length (cmd_buf (xctx s)) = 16" "take 2 (cmd_buf (xctx s)) = chars ''sh''"
    and vec: "vector_buf (xctx s) = Some vec" and n: "n = (bits + 7) div 8" "int n \<le> max_vector_size (xctx s)" "bits \<le> 524280"
    and inc: "incoming (xnet s) = take k (chars ''ift:'' @ xvc_put_int32 (of_nat bits) @ tms @ tdi)" "length tms = n" "length tdi = n" "k < 8 + 2 * n"
  shows "handle_shift net drv s = Diverges"
proof -
  consider "k < 4" | "4 \<le> k" "k < 8" | "8 \<le> k" by linarith
  then show ?thesis
  proof cases
    case 1
    then have "\<not> 4 \<le> length (incoming (xnet s))" by (auto simp: inc)
    then show ?thesis by (simp add: handle_shift_def read_cmd_stalls(1)[OF net])
  next
    case 2
    then have "4 \<le> length (incoming (xnet s))" by (simp add: inc)
    from read_cmd_stalls(2)[OF net this, of 2] obtain s1 where s1: "\<And>k. read_cmd net 2 4 s k = k s1" "fed incoming 2 4 s s1" by blast
    have "cmd_buf (xctx s1) = chars ''sh'' @ chars ''ift:'' @ drop 6 (cmd_buf (xctx s))" using s1(2) s 2 by (simp add: fed_def inc)
    then have e: "\<not> (cmd_buf (xctx s1) ! 4 = of_char (CHR ''e'') \<or> cmd_buf (xctx s1) ! 4 = of_char (CHR ''E''))" by (simp add: chars_def)
    have "\<not> 4 \<le> length (incoming (xnet s1))" using s1(2) 2 by (simp add: fed_def inc)
    then show ?thesis using e read_cmd_stalls(1)[OF net] by (simp add: handle_shift_def s1(1) shift_rest_def)
  next
    case 3
    then have "4 \<le> length (incoming (xnet s))" by (simp add: inc)
    from read_cmd_stalls(2)[OF net this, of 2] obtain s1 where s1: "\<And>k. read_cmd net 2 4 s k = k s1" "fed incoming 2 4 s s1" by blast
    have c1: "cmd_buf (xctx s1) = chars ''sh'' @ chars ''ift:'' @ drop 6 (cmd_buf (xctx s))" using s1(2) s 3 by (simp add: fed_def inc)
    then have e: "\<not> (cmd_buf (xctx s1) ! 4 = of_char (CHR ''e'') \<or> cmd_buf (xctx s1) ! 4 = of_char (CHR ''E''))" by (simp add: chars_def)
    have i1: "incoming (xnet s1) = take (k - 4) (xvc_put_int32 (of_nat bits) @ tms @ tdi)" 
      using s1(2) unfolding fed_def inc(1) drop_take by (simp del: take_append)
    then have "4 \<le> length (incoming (xnet s1))" using 3 by simp
    from read_cmd_stalls(2)[OF net this, of 6] obtain s2 where s2: "\<And>k. read_cmd net 6 4 s1 k = k s2" "fed incoming 6 4 s1 s2" by blast
    have c2: "drop 6 (cmd_buf (xctx s2)) = xvc_put_int32 (of_nat bits) @ drop 10 (cmd_buf (xctx s1))"
      using s2(2) 3 c1 by (simp add: fed_def i1)
    have len: "sint (xvc_get_int32 (drop 6 (cmd_buf (xctx s2)))) = int bits"
      using n(3) by (simp add: c2 get_int32_append get_put_int32 u32_small)
    have cd: "c_div (int bits + 7) 8 = int n" by (simp add: n(1) zdiv_int)
    have s2v: "vector_buf (xctx s2) = Some vec" "max_vector_size (xctx s2) = max_vector_size (xctx s)"
      using s1(2) s2(2) vec by (simp_all add: fed_def)
    have short: "length (incoming (xnet s2)) < 2 * n" using s2(2) inc(4) 3 by (auto simp: fed_def i1 simp del: take_append)
    have "xvc_read_exact net (socket_fd (xctx s2)) (int n * 2) [] (xnet s2) = Diverges"
      using read_exact_stalls[OF net, of "int n * 2" "xnet s2" "socket_fd (xctx s2)" "[]"] short by (simp add: nat_mult_distrib)
    then show ?thesis using e s2v(1,2) n(2,3)
      by (simp add: handle_shift_def s1(1) shift_rest_def s2(1) len cd read_vectors_def Let_def)
  qed
qed

lemma unfinished_diverges:
  fixes s :: "('n, 'd) xvc_io"
  assumes net: "stalling_net net incoming" and wf: "xvc_wf s"
    and c: "valid_cmd (max_vector_size (xctx s)) c" "k < length (cmd_bytes c)" "incoming (xnet s) = take k (cmd_bytes c)"
  shows "handle_command net drv f s = Diverges"
proof -
  obtain vec where s: "length (cmd_buf (xctx s)) = 16" "vector_buf (xctx s) = Some vec" using wf by (auto simp: xvc_wf_def)
  show ?thesis
  proof (cases c)
    case Getinfo
    show ?thesis
    proof (rule unfinished_command[OF net s(1), where a = 103 and b = 101 and rest = "chars ''tinfo:''"])
      show "incoming (xnet s) = take k ([103, 101] @ chars ''tinfo:'')" using c(3) Getinfo by (simp add: chars_def)
    next
      fix s1 :: "('n, 'd) xvc_io" assume s1: "incoming (xnet s1) = take (k - 2) (chars ''tinfo:'')"
      have "\<not> 6 \<le> length (incoming (xnet s1))" using c(2) Getinfo by (auto simp: s1)
      from read_cmd_stalls(1)[OF net this] show "(if [103, 101] = chars ''ge'' then handle_getinfo net s1
         else if [103, 101] = chars ''se'' then handle_settck net drv f s1
         else if [103, 101] = chars ''sh'' then handle_shift net drv s1 else Ret (Some (-1), s1)) = Diverges"
        by (simp add: chars_def handle_getinfo_def)
    qed
  next
    case (Settck p)
    show ?thesis
    proof (rule unfinished_command[OF net s(1), where a = 115 and b = 101 and rest = "chars ''ttck:'' @ xvc_put_int32 p"])
      show "incoming (xnet s) = take k ([115, 101] @ chars ''ttck:'' @ xvc_put_int32 p)" using c(3) Settck by (simp add: chars_def)
    next
      fix s1 :: "('n, 'd) xvc_io" assume s1: "incoming (xnet s1) = take (k - 2) (chars ''ttck:'' @ xvc_put_int32 p)"
      have "\<not> 9 \<le> length (incoming (xnet s1))" using c(2) Settck by (auto simp: s1)
      from read_cmd_stalls(1)[OF net this] show "(if [115, 101] = chars ''ge'' then handle_getinfo net s1
         else if [115, 101] = chars ''se'' then handle_settck net drv f s1
         else if [115, 101] = chars ''sh'' then handle_shift net drv s1 else Ret (Some (-1), s1)) = Diverges"
        by (simp add: chars_def handle_settck_def)
    qed
  next
    case (Shift bits tms tdi)
    show ?thesis
    proof (rule unfinished_command[OF net s(1), where a = 115 and b = 104 and rest = "chars ''ift:'' @ xvc_put_int32 (of_nat bits) @ tms @ tdi"])
      show "incoming (xnet s) = take k ([115, 104] @ chars ''ift:'' @ xvc_put_int32 (of_nat bits) @ tms @ tdi)" using c(3) Shift by (simp add: chars_def)
    next
      fix s1 :: "('n, 'd) xvc_io" assume s1: "incoming (xnet s1) = take (k - 2) (chars ''ift:'' @ xvc_put_int32 (of_nat bits) @ tms @ tdi)"
        "take 2 (cmd_buf (xctx s1)) = [115, 104]" "length (cmd_buf (xctx s1)) = 16"
        "max_vector_size (xctx s1) = max_vector_size (xctx s)" "vector_buf (xctx s1) = vector_buf (xctx s)" "2 \<le> k"
      have "handle_shift net drv s1 = Diverges"
        by (rule unfinished_shift[OF net s1(3) _ s1(5)[unfolded s(2)] refl _ _ s1(1)]) (use s1 c Shift in \<open>auto simp: chars_def\<close>)
      then show "(if [115, 104] = chars ''ge'' then handle_getinfo net s1 else if [115, 104] = chars ''se'' then handle_settck net drv f s1
         else if [115, 104] = chars ''sh'' then handle_shift net drv s1 else Ret (Some (-1), s1)) = Diverges"
        by (simp add: chars_def)
    qed
  qed
qed

section \<open>The event loop hangs\<close>

lemma poll_data_diverges:
  assumes s: "only_client s i fd" "running s" "fd_ok fd" "fd_ok (listen_fd s)" "listen_fd s \<noteq> fd"
    and sel: "os_select os w (max_fd s + 1) (listen_fd s # open_fds s) t = (Select_Ready [fd] [], w')"
    and cb: "on_data cb = Some f" and r: "\<And>c. conn_fd c = fd \<Longrightarrow> f i c w' = Diverges"
  shows "tcp_server_poll os cb t s w = Diverges"
proof -
  have i: "i < MAX_CONNECTIONS" "is_open (connections s ! i)" "conn_fd (connections s ! i) = fd"
    "\<And>j. j < MAX_CONNECTIONS \<Longrightarrow> is_open (connections s ! j) \<longleftrightarrow> j = i"
    using s(1) by (auto simp: only_client_def)
  have split: "[0..<MAX_CONNECTIONS] = [0..<i] @ i # [Suc i..<MAX_CONNECTIONS]"
    using upt_split[of 0 i MAX_CONNECTIONS] upt_conv_Cons[OF i(1)] i(1) by simp
  have "check_client os cb [fd] [] i (0, s, w') = Diverges"
    using i(2,3) s(3) cb r by (simp add: check_client_def Let_def is_open_def)
  moreover have "check_clients os cb [fd] [] [0..<i] (0, s, w') = Ret (0, s, w')" using i by (intro check_closed) auto
  ultimately have "check_clients os cb [fd] [] [0..<MAX_CONNECTIONS] (0, s, w') = Diverges"
    by (simp add: split check_clients_append)
  then show ?thesis using s(2-5) sel open_fds_only[OF s(1)] by (simp add: tcp_server_poll_def list_all_iff)
qed

text \<open>
  C33. A client that stalls hangs its instance: when the data of the client in session is the
  beginning of a valid command and nothing else comes while the connection stays open, the event loop
  never ends, whether or not a signal has cleared \<open>g_running\<close> in the meantime.
\<close>

theorem stalled_client_hangs:
  assumes net: "stalling_net net incoming"
    and s: "only_client s i fd" "running s" "fd_ok fd" "fd_ok (listen_fd s)" "listen_fd s \<noteq> fd"
    and w: "xvc_wf (iio w)" "socket_fd (xctx (iio w)) = fd" "g (xnet (iio w))"
    and sel: "os_select os (xnet (iio w)) (max_fd s + 1) (listen_fd s # open_fds s) 1000 = (Select_Ready [fd] [], n1)"
    and c: "valid_cmd (max_vector_size (xctx (iio w))) c" "k < length (cmd_bytes c)" "incoming n1 = take k (cmd_bytes c)"
  shows "instance_loop g (instance_os os) (instance_callbacks mal net drv os conf) s w = Some Diverges"
proof -
  define w1 where "w1 = put_net w n1"
  have wf: "xvc_wf (iio w1)" using w(1) by (simp add: w1_def put_net_def xvc_wf_def)
  have "handle_command net drv (frequency conf) (iio w1) = Diverges"
    using unfinished_diverges[OF net wf _ c(2)] c(1,3) by (simp add: w1_def put_net_def)
  then have loop: "command_loop net drv (frequency conf) (iio w1) = Some Diverges" by (subst command_loop.simps) simp
  have v: "vector_buf (xctx (iio w1)) \<noteq> None" "socket_fd (xctx (iio w1)) = fd"
    using wf w(2) by (auto simp: xvc_wf_def w1_def put_net_def)
  have "on_client_data mal net drv conf i c1 w1 = Diverges" if "conn_fd c1 = fd" for c1
  proof -
    have "xvc_handle mal net drv fd (xvc_buffer_size conf) (frequency conf) (iio w1) = Diverges"
      using loop v by (auto simp: xvc_handle_def)
    moreover have "iio (if active_xvc_conn w1 = None then w1\<lparr>active_xvc_conn := Some i\<rparr> else w1) = iio w1" by simp
    ultimately show ?thesis using that by (simp add: on_client_data_def Let_def)
  qed
  then have "tcp_server_poll (instance_os os) (instance_callbacks mal net drv os conf) 1000 s w = Diverges"
    using sel by (intro poll_data_diverges[where w = w and w' = w1 and f = "on_client_data mal net drv conf", OF s])
      (simp_all add: instance_os_def w1_def instance_callbacks_def tcp_server_set_callbacks_def)
  then show ?thesis using w(3) by (subst instance_loop.simps) simp
qed

end
