(* ===== verification/Server_Instances.thy ===== *)
theory Server_Instances
  imports Instances Instance_Ends Instance_Stalls
begin

text \<open>
  A concrete operating system for the TCP server: a process with its descriptors, clients waiting
  to connect and a clock that every \<open>select\<close> advances. The witnesses of the server's and the
  instance's properties run on it.
\<close>

record desk =
  stream :: "u8 list \<times> u8 list"
  held :: "int list"
  waiting :: "u32 list"
  clock :: int

definition fresh_fd :: "int list \<Rightarrow> int" where
  "fresh_fd fds = fold max fds 2 + 1"

lemma fold_max_ge: "m \<le> fold max fds (m :: int) \<and> (\<forall>fd \<in> set fds. fd \<le> fold max fds m)"
  by (induction fds arbitrary: m) (simp, fastforce)

lemma fresh_fd: "fresh_fd fds \<notin> set fds" "0 \<le> fresh_fd fds" "\<not> fresh_fd fds < 0"
  using fold_max_ge[of 2 fds] by (fastforce simp: fresh_fd_def)+

definition open_desk :: "desk \<Rightarrow> int \<times> desk" where
  "open_desk n = (fresh_fd (held n), n\<lparr>held := fresh_fd (held n) # held n\<rparr>)"

definition desk_os :: "desk os" where
  "desk_os = \<lparr>os_socket = open_desk, os_bind = (\<lambda>n _ _. (0, n)), os_listen = (\<lambda>n _. (0, n)),
     os_accept = (\<lambda>n _. case waiting n of [] \<Rightarrow> (-1, 0, n)
        | a # as \<Rightarrow> (fst (open_desk n), a, (snd (open_desk n))\<lparr>waiting := as\<rparr>)),
     os_close = (\<lambda>n fd. n\<lparr>held := filter (\<lambda>x. x \<noteq> fd) (held n)\<rparr>),
     os_select = (\<lambda>n k l t. (if waiting n = [] then Select_Timeout else Select_Ready [hd l] [], n\<lparr>clock := clock n + 1\<rparr>)),
     os_time = clock\<rparr>"

lemma desk_os_ok: "os_ok desk_os (\<lambda>n. set (held n)) (\<lambda>_. True)"
  by (auto simp: os_ok_def desk_os_def opens_fd_def keeps_fds_def open_desk_def fresh_fd split: list.splits)

definition desk_net :: "desk net" where
  "desk_net =
     \<lparr>net_read = (\<lambda>n fd k. case net_read pipe_net (stream n) fd k of (r, p) \<Rightarrow> (r, n\<lparr>stream := p\<rparr>)),
      net_write = (\<lambda>n fd p. case net_write pipe_net (stream n) fd p of (r, q) \<Rightarrow> (r, n\<lparr>stream := q\<rparr>))\<rparr>"

lemma desk_net_keeps: "net_keeps desk_net (\<lambda>n. set (held n))"
  by (simp add: net_keeps_def desk_net_def split: prod.splits)

definition ex_conf :: xvc_instance_config_t where
  "ex_conf = (default_instance 0)\<lparr>frequency := 0\<rparr>"

definition ex_desk :: "u32 list \<Rightarrow> desk" where
  "ex_desk as = \<lparr>stream = ([], []), held = [0, 1, 2], waiting = as, clock = 100\<rparr>"

definition ex_inst :: "desk \<Rightarrow> (desk, bool chip) instance_ctx" where
  "ex_inst n = \<lparr>iio = \<lparr>xctx = xvc_zero 0 0, xnet = n, xftdi = ex_ftdi RUN_TEST_IDLE Map.empty\<rparr>, active_xvc_conn = None,
     locked_client_ip = inet_ntop 0x0100007F, lock_until = 110, is_locked = True\<rparr>"

lemma ex_conf_timeout: "client_lock_timeout ex_conf > 0"
  by (simp add: ex_conf_def default_instance_def DEFAULT_CLIENT_LOCK_TIMEOUT_def)

lemma ex_inst_inv: "instance_inv ex_conf (ex_inst n)"
  using ex_conf_timeout by (auto simp: instance_inv_def ex_inst_def)

lemma now_ex [simp]: "now desk_os (ex_inst (ex_desk as)) = 100"
  by (simp add: ex_inst_def ex_desk_def desk_os_def)

section \<open>Witnesses\<close>

text \<open>A second address is refused while the lock of the first one lasts.\<close>

theorem connect_decision_witness:
  "\<exists>w'. on_client_connect desk_os ex_conf 0 (new_conn 4 0x0200007F 100) (ex_inst (ex_desk [])) = Ret (1, w') \<and> instance_inv ex_conf w'"
proof -
  have l: "is_locked (ex_inst n) \<and> lock_until (ex_inst n) = 110 \<and> locked_client_ip (ex_inst n) \<noteq> tcp_connection_ip (new_conn 4 0x0200007F 100)" for n
    by (simp add: ex_inst_def tcp_connection_ip_def new_conn_def)
  then show ?thesis
    using connect_decision[OF ex_inst_inv[of "ex_desk []"], where i = 0 and conn = "new_conn 4 0x0200007F 100" and os = desk_os] by fastforce
qed

text \<open>The client has closed the connection.\<close>

lemma desk_net_stream: "stream_net desk_net (\<lambda>n. fst (stream n)) (\<lambda>n. snd (stream n))"
  by (auto simp: stream_net_def desk_net_def pipe_net_def split: if_splits prod.splits)

lemma closed_client:
  assumes "fst (stream (xnet s)) = []"
  shows "\<exists>s'. command_loop desk_net drv f s = Some (Ret (1, s'))"
proof -
  obtain n' where "xvc_read_exact desk_net (socket_fd (xctx s)) 2 [] (xnet s) = Ret (0, [], n')"
    using read_exact_stream[OF desk_net_stream, of 2 "xnet s" "socket_fd (xctx s)" "[]"] assms by auto
  then obtain s' where "handle_command desk_net drv f s = Ret (Some 1, s')"
    by (simp add: handle_command_def read_cmd_def)
  then show ?thesis by (subst command_loop.simps) simp
qed

lemma closed_session:
  assumes "fst (stream (xnet s)) = []"
  shows "\<exists>c s'. xvc_handle mal desk_net drv fd n f s = Ret (c, s') \<and> c \<noteq> 0"
proof -
  let ?i = "if vector_buf (xctx s) = None \<or> socket_fd (xctx s) \<noteq> fd
            then xvc_init mal fd (if n > 0 then n else max_vector_size (xctx s)) s else (0, s)"
  obtain code t where i: "?i = (code, t)" by fastforce
  have "xnet t = xnet s" using i xvc_init_net by (metis snd_conv)
  then obtain s' where "command_loop desk_net drv f t = Some (Ret (1, s'))" using closed_client[of t] assms by auto
  then show ?thesis using i by (simp add: xvc_handle_def)
qed

theorem failed_session_keeps_lock_witness:
  "\<exists>w1. on_client_data zero_malloc desk_net (chip_driver bypass) ex_conf 0 (new_conn 4 0x0100007F 100) (ex_inst (ex_desk [])) = Ret (1, w1) \<and>
     lock_until w1 = 110"
proof -
  obtain w1 where w1: "on_client_data zero_malloc desk_net (chip_driver bypass) ex_conf 0 (new_conn 4 0x0100007F 100) (ex_inst (ex_desk [])) = Ret (1, w1)"
    using closed_session[of "iio (ex_inst (ex_desk []))" zero_malloc "chip_driver bypass" 4 "xvc_buffer_size ex_conf" "frequency ex_conf"]
    by (auto simp: on_client_data_def Let_def ex_inst_def ex_desk_def new_conn_def)
  with failed_session_keeps_lock[OF w1] show ?thesis by (simp add: ex_inst_def)
qed

text \<open>A client from another address is waiting while the instance is locked.\<close>

definition ex_server :: tcp_server_t where
  "ex_server = (snd (tcp_server_init 2542 None))\<lparr>listen_fd := 3, max_fd := 3, running := True\<rparr>"

definition ex_guest :: "int \<Rightarrow> (desk, bool chip) instance_ctx" where
  "ex_guest t = ex_inst ((ex_desk [0x0200007F])\<lparr>held := [3, 0, 1, 2], clock := t\<rparr>)"

abbreviation ex_callbacks :: "(desk, bool chip) instance_ctx callbacks" where
  "ex_callbacks \<equiv> instance_callbacks zero_malloc desk_net (chip_driver bypass) desk_os ex_conf"

definition ex_accepted :: "int \<Rightarrow> (desk, bool chip) instance_ctx" where
  "ex_accepted t = put_net (ex_guest t) ((ex_desk [])\<lparr>held := [4, 3, 0, 1, 2], clock := t\<rparr>)"

lemma ex_accept: "os_accept (instance_os desk_os) (ex_guest t) 3 = (4, 0x0200007F, ex_accepted t)"
  by (simp add: instance_os_def desk_os_def ex_guest_def ex_inst_def ex_desk_def open_desk_def fresh_fd_def put_net_def ex_accepted_def)

lemma ex_connect:
  "t < 110 \<Longrightarrow> on_client_connect desk_os ex_conf 0 (new_conn 4 0x0200007F u) (ex_accepted t) = Ret (1, ex_accepted t)"
  by (simp add: on_client_connect_def Let_def is_lock_expired_def client_ip_matches_def tcp_connection_ip_def new_conn_def ex_guest_def
      ex_inst_def ex_accepted_def ex_desk_def desk_os_def put_net_def)

lemma ex_server_simps [simp]:
  "listen_fd ex_server = 3" "server_whitelist ex_server = None" "running ex_server" "max_fd ex_server = 3" "open_fds ex_server = []"
  "connection_count ex_server = 0" "connections ex_server = replicate MAX_CONNECTIONS closed_conn" "find_free_slot ex_server = Some 0"
  by code_simp+

theorem rejection_not_enforced_witness:
  "\<exists>s'. accept_client (instance_os desk_os) ex_callbacks ex_server (ex_guest 100) = Ret (1, s', ex_accepted 100) \<and> 4 \<in> set (open_fds s')"
  using rejection_not_enforced[of "instance_os desk_os" "ex_guest 100" ex_server 4 "0x0200007F" "ex_accepted 100" WHITELIST_ALLOWED 0
      ex_callbacks "on_client_connect desk_os ex_conf" 1 "ex_accepted 100"]
  by (auto simp: ex_accept ex_connect instance_callbacks_def tcp_server_set_callbacks_def)

lemma ex_server_inv: "server_inv (instance_fds (\<lambda>n. set (held n))) {0, 1, 2} ex_server (ex_guest t)"
  by (auto simp: server_inv_def ex_guest_def ex_inst_def)

text \<open>The same client over a whole poll.\<close>

lemma quiet_clients:
  "(\<And>i. i \<in> set is \<Longrightarrow> is_open (connections s ! i) \<Longrightarrow> fd_ok (conn_fd (connections s ! i)) \<and> conn_fd (connections s ! i) \<notin> set rd) \<Longrightarrow>
   check_clients os cb rd [] is (e, s, w) = Ret (e, s, w)"
  by (induction "is") (auto simp: check_client_def is_open_def Let_def)

lemma ex_poll:
  "tcp_server_poll (instance_os desk_os) ex_callbacks 1000 ex_server (ex_guest 100) =
     Ret (1, add_conn 0 (new_conn 4 0x0200007F 101) ex_server, ex_accepted 101)"
proof -
  let ?s = "add_conn 0 (new_conn 4 0x0200007F 101) ex_server"
  have sel: "os_select (instance_os desk_os) (ex_guest 100) 4 [3] 1000 = (Select_Ready [3] [], ex_guest 101)"
    by (simp add: instance_os_def desk_os_def ex_guest_def ex_inst_def ex_desk_def put_net_def)
  have t: "os_time (instance_os desk_os) (ex_accepted 101) = 101"
    by (simp add: instance_os_def desk_os_def put_net_def ex_accepted_def ex_desk_def)
  have acc: "accept_client (instance_os desk_os) ex_callbacks ex_server (ex_guest 101) = Ret (1, ?s, ex_accepted 101)"
    by (simp add: accept_client_def ex_accept ex_connect t instance_callbacks_def tcp_server_set_callbacks_def Let_def)
  have "connections ?s = (replicate MAX_CONNECTIONS closed_conn)[0 := new_conn 4 0x0200007F 101]" by (simp add: add_conn_def)
  then have "check_clients (instance_os desk_os) ex_callbacks [3] [] [0..<MAX_CONNECTIONS] (1, ?s, ex_accepted 101) = Ret (1, ?s, ex_accepted 101)"
    by (intro quiet_clients) (auto simp: nth_list_update closed_conn_def is_open_def new_conn_def fd_ok_def split: if_splits)
  then show ?thesis by (simp add: tcp_server_poll_def fd_ok_def sel acc)
qed

theorem instance_poll_invariant_witness:
  "\<exists>s' w'. tcp_server_poll (instance_os desk_os) ex_callbacks 1000 ex_server (ex_guest 100) = Ret (1, s', w') \<and>
     server_inv (instance_fds (\<lambda>n. set (held n))) {0, 1, 2} s' w'"
  using instance_poll_invariant[OF desk_os_ok desk_net_keeps ex_server_inv _ ex_poll] ex_inst_inv ex_poll by (auto simp: ex_guest_def)

text \<open>An instance that is told to stop as soon as it listens.\<close>

lemma serve_stops:
  fixes drv :: "'d ft_driver"
  assumes "ftdi_ready clk chip_of drv f"
  shows "\<exists>n' d' m'. serve_instance mal net drv desk_os (\<lambda>_. False) ex_conf f (ex_desk []) = Ret (0, n', d', m')"
proof -
  let ?os = "instance_os desk_os :: (desk, 'd) instance_ctx os" and ?cb = "instance_callbacks mal net drv desk_os ex_conf"
  obtain s where i: "tcp_server_init (port ex_conf) (Some (snd (whitelist_load ex_conf))) = (0, s)" "connections s = replicate MAX_CONNECTIONS closed_conn"
    by (simp add: tcp_server_init_def)
  let ?w = "\<lparr>iio = \<lparr>xctx = xvc_zero 0 0, xnet = ex_desk [], xftdi = f\<rparr>, active_xvc_conn = None, locked_client_ip = [], lock_until = 0, is_locked = False\<rparr>"
  obtain s1 w1 where st: "tcp_server_start ?os s ?w = (0, s1, w1)" "connections s1 = connections s" "xftdi (iio w1) = f"
    using i(2) by (simp add: tcp_server_start_def instance_os_def desk_os_def open_desk_def ex_desk_def fresh_fd_def Let_def put_net_def)
  have c: "stop_connections ?os ?cb k (replicate n closed_conn) w = Ret (replicate n closed_conn, w)" for k n w
    by (induction n arbitrary: k) (simp_all add: closed_conn_def is_open_def)
  have x: "xftdi (iio (os_close ?os w fd)) = xftdi (iio w)" for w fd by (simp add: instance_os_def put_net_def)
  obtain s2 w2 where stop: "tcp_server_stop ?os ?cb s1 w1 = Ret (s2, w2)" "xftdi (iio w2) = f"
    using st(2,3) i(2) x by (cases "0 \<le> listen_fd s1") (auto simp: tcp_server_stop_def Let_def c)
  have l: "instance_loop (\<lambda>_. False) ?os ?cb s1 w1 = Some (Ret (s1, w1))" by (subst instance_loop.simps) simp
  obtain n' d' m' where "teardown drv 0 w2 = Ret (0, n', d', m')" using ready_teardown[of clk chip_of drv w2 0] assms stop(2) by auto
  then show ?thesis using i(1) st(1) stop(1) l by (simp add: serve_instance_def Let_def ex_conf_def)
qed

theorem run_instance_releases_witness:
  "\<exists>code n' d' m'. run_instance zero_malloc zero_malloc True desk_net (chip_driver bypass) desk_os (\<lambda>_. False) ex_conf (ex_desk [], idle_chip, Map.empty) =
      Ret (code, n', d', m') \<and> set (held n') = {0, 1, 2}"
proof -
  obtain f where f: "ftdi_adapter_create zero_malloc True idle_chip Map.empty = Some f"
    by (auto simp: ftdi_adapter_create_def mpsse_adapter_create_def block_of_def zero_malloc_def)
  obtain f1 where o: "ftdi_adapter_open zero_malloc (chip_driver bypass) (Some (id_value (device_id ex_conf))) 0 f = Ret (0, f1)"
    "ftdi_ready bypass (\<lambda>c. c) (chip_driver bypass) f1"
    using ftdi_open_ok[OF chip_driver_ideal[of bypass] chip_driver_clean f, of zero_malloc "Some (id_value (device_id ex_conf))" 0] chip_driver_present[of bypass]
    by (auto simp: zero_malloc_def)
  obtain code' n' d' m' where r: "run_instance zero_malloc zero_malloc True desk_net (chip_driver bypass) desk_os (\<lambda>_. False) ex_conf (ex_desk [], idle_chip, Map.empty) =
      Ret (code', n', d', m')"
    using serve_stops[OF o(2), of zero_malloc desk_net] f o(1) by (auto simp: run_instance_def)
  with run_instance_releases[OF desk_os_ok desk_net_keeps r] show ?thesis by (auto simp: ex_desk_def)
qed

text \<open>An instance that is told to stop when the clock shows 105, five polls later.\<close>

lemma desk_net_finite: "finite_input desk_net (\<lambda>n. length (fst (stream n)))"
  by (auto simp: finite_input_def desk_net_def pipe_net_def split: prod.splits if_splits)

lemma desk_net_never_blocks: "never_blocks desk_net"
  by (auto simp: never_blocks_def desk_net_def never_blocksD[OF pipe_net_never_blocks] split: prod.splits)

lemma desk_stops: "stops_within desk_os desk_net (\<lambda>n. clock n < 105) (\<lambda>n. nat (105 - clock n))"
  by (auto simp: stops_within_def desk_os_def desk_net_def open_desk_def split: prod.splits list.splits)

theorem run_instance_ends_witness:
  "run_instance zero_malloc zero_malloc True desk_net (chip_driver bypass) desk_os (\<lambda>n. clock n < 105) ex_conf (ex_desk [0x0200007F], idle_chip, Map.empty) \<noteq> Diverges"
  by (rule run_instance_ends[OF chip_driver_reads desk_net_finite desk_net_never_blocks desk_stops])

section \<open>One client\<close>

text \<open>
  The desk with one client, within one second: it is waiting until it has been accepted, then its
  socket is readable; the process is told to stop when the socket has been closed.
\<close>

record phone =
  desk_of :: desk
  pending :: bool
  hung_up :: bool

definition phone_os :: "phone os" where
  "phone_os = \<lparr>os_socket = (\<lambda>n. (3, n)), os_bind = (\<lambda>n _ _. (0, n)), os_listen = (\<lambda>n _. (0, n)),
     os_accept = (\<lambda>n _. if pending n then (4, 0x0200007F, n\<lparr>pending := False\<rparr>) else (-1, 0, n)),
     os_close = (\<lambda>n fd. if fd = 4 then n\<lparr>hung_up := True\<rparr> else n),
     os_select = (\<lambda>n k l t. (Select_Ready [if pending n then 3 else 4] [], n)),
     os_time = (\<lambda>n. 100)\<rparr>"

definition phone_net :: "phone net" where
  "phone_net =
     \<lparr>net_read = (\<lambda>n fd k. map_prod id (\<lambda>d. n\<lparr>desk_of := d\<rparr>) (net_read desk_net (desk_of n) fd k)),
      net_write = (\<lambda>n fd p. map_prod id (\<lambda>d. n\<lparr>desk_of := d\<rparr>) (net_write desk_net (desk_of n) fd p))\<rparr>"

lemma phone_stream: "stream_net phone_net (\<lambda>n. fst (stream (desk_of n))) (\<lambda>n. snd (stream (desk_of n)))"
  by (auto simp: stream_net_def phone_net_def desk_net_def pipe_net_def split: if_splits prod.splits)

lemma phone_one_client:
  "one_client phone_os phone_net (\<lambda>n. (fst (stream (desk_of n)), snd (stream (desk_of n)))) pending (\<lambda>n. \<not> hung_up n) 3 4 0x0200007F"
  by (simp add: one_client_def phone_os_def phone_net_def net_keeps_def fd_ok_def)

definition ex_phone :: "xvc_cmd list \<Rightarrow> phone" where
  "ex_phone cs = \<lparr>desk_of = (ex_desk [])\<lparr>stream := (concat (map cmd_bytes cs), [])\<rparr>, pending = True, hung_up = False\<rparr>"

definition ex_talk :: "xvc_cmd list" where
  "ex_talk = [Getinfo, Settck 100, Shift 6 [31] [0], Shift 12 [2, 8] [0xA5, 0x0F]]"

lemma ex_conf_limit: "clamp_vector_size (xvc_buffer_size ex_conf) = 2048" "0 < xvc_buffer_size ex_conf" "frequency ex_conf = 0"
  by (simp_all add: ex_conf_def default_instance_def DEFAULT_XVC_BUFFER_SIZE_def clamp_vector_size_def XVC_MAX_VECTOR_SIZE_LIMIT_def)

lemma ex_conf_allows: "whitelist_check (Some (snd (whitelist_load ex_conf))) (AF_INET a) = Ret WHITELIST_ALLOWED"
  by (simp add: ex_conf_def default_instance_def whitelist_load_def whitelist_init_def whitelist_check_ipv4_def)

lemma ex_talk_valid: "list_all (valid_cmd 2048) ex_talk"
  by (simp add: ex_talk_def)

theorem instance_serves_client_witness:
  "\<exists>f f1 n' d' m'. ftdi_adapter_create zero_malloc True idle_chip Map.empty = Some f \<and>
    ftdi_adapter_open zero_malloc (chip_driver bypass) (Some (id_value (device_id ex_conf))) 0 f = Ret (0, f1) \<and>
    run_instance zero_malloc zero_malloc True phone_net (chip_driver bypass) phone_os (\<lambda>n. \<not> hung_up n) ex_conf (ex_phone ex_talk, idle_chip, Map.empty) =
      Ret (0, n', d', m') \<and>
    snd (stream (desk_of n')) = fst (serve_all bypass 2048 0 ex_talk (fresh_server ex_conf (target (mdev (mio f1)))))"
proof -
  have n: "pending (ex_phone ex_talk)" "\<not> hung_up (ex_phone ex_talk)" "fst (stream (desk_of (ex_phone ex_talk))) = concat (map cmd_bytes ex_talk)"
    "snd (stream (desk_of (ex_phone ex_talk))) = []" "finite (dom (Map.empty :: memory))" "(4 :: int) \<le> 2048"
    by (simp_all add: ex_phone_def)
  show ?thesis
    using instance_serves_client[OF phone_one_client phone_stream zero_malloc_ok zero_malloc_succeeds n(5) zero_malloc_succeeds chip_driver_ideal[of bypass] chip_driver_clean chip_driver_present
        ex_conf_limit(1)[symmetric] n(6) ex_conf_allows _ n(1,2) ex_talk_valid n(3), of idle_chip]
    unfolding n(4) ex_conf_limit(3) by simp
qed

definition ex_intruder :: "(phone, bool chip) instance_ctx" where
  "ex_intruder = \<lparr>iio = \<lparr>xctx = xvc_zero 0 0, xnet = ex_phone ex_talk, xftdi = ex_ftdi RUN_TEST_IDLE Map.empty\<rparr>, active_xvc_conn = None,
     locked_client_ip = inet_ntop 0x0100007F, lock_until = 110, is_locked = True\<rparr>"

lemma ex_intruder_simps:
  "active_xvc_conn ex_intruder = None" "vector_buf (xctx (iio ex_intruder)) = None" "is_locked ex_intruder" "lock_until ex_intruder = 110"
  "locked_client_ip ex_intruder = inet_ntop 0x0100007F" "xnet (iio ex_intruder) = ex_phone ex_talk" "xftdi (iio ex_intruder) = ex_ftdi RUN_TEST_IDLE Map.empty"
  "max_vector_size (xctx (iio ex_intruder)) = 0"
  by (simp_all add: ex_intruder_def xvc_zero_def)

theorem locked_out_client_served_witness:
  "\<exists>s' w'. instance_loop (\<lambda>n. \<not> hung_up n) (instance_os phone_os) (instance_callbacks zero_malloc phone_net (chip_driver bypass) phone_os ex_conf)
      ex_server ex_intruder = Some (Ret (s', w')) \<and>
    snd (stream (desk_of (xnet (iio w')))) =
      fst (serve_all bypass 2048 0 ex_talk ((server_of (\<lambda>c. c) (iio ex_intruder))\<lparr>tracked := JTAG_TEST_LOGIC_RESET, tlr_seen := False\<rparr>))"
proof -
  have ne: "locked_client_ip ex_intruder \<noteq> inet_ntop 0x0200007F" by (simp add: ex_intruder_simps)
  have wl: "whitelist_check (server_whitelist ex_server) (AF_INET 0x0200007F) = Ret WHITELIST_ALLOWED" by simp
  have v: "vacant ex_server" by (simp add: vacant_def closed_conn_def is_open_def)
  show ?thesis
    using locked_out_client_served[OF phone_one_client phone_stream zero_malloc_ok zero_malloc_succeeds _ _ wl, of 2048 ex_conf ex_intruder bypass "\<lambda>c. c" "chip_driver bypass" ex_talk]
      v ne ex_talk_valid ex_ftdi_ready[of RUN_TEST_IDLE Map.empty]
    by (simp add: ex_intruder_simps ex_conf_limit phone_os_def) (simp add: ex_phone_def ex_desk_def ex_ftdi_def ex_io_def)
qed

text \<open>The first client has left the target in Shift-DR in the middle of its session on slot 0; the newcomer is on slot 1.\<close>

definition ex_taken :: "(phone, bool chip) instance_ctx" where
  "ex_taken = ex_intruder\<lparr>iio := \<lparr>xctx = xctx (ex_xvc []), xnet = ex_phone ex_talk, xftdi = xftdi (ex_xvc [])\<rparr>, active_xvc_conn := Some 0\<rparr>"

lemma ex_taken_session: "in_session bypass (\<lambda>c. c) (chip_driver bypass) 5 64 ex_taken"
  using ex_xvc_wf[of "[]"] ex_xvc_ready[of "[]"] by (simp add: in_session_def ex_taken_def xvc_wf_def) (simp add: ex_xvc_def xvc_zero_def)

theorem second_client_takes_over_witness:
  "\<exists>code replies rest r w1 w'.
    session bypass 2048 0 ex_talk ((server_of (\<lambda>c. c) (iio ex_taken))\<lparr>tracked := JTAG_TEST_LOGIC_RESET, tlr_seen := False\<rparr>) = (code, replies, rest, r) \<and>
    on_client_connect phone_os ex_conf 1 (new_conn 6 0x0200007F 100) ex_taken = Ret (1, w1) \<and>
    on_client_data zero_malloc phone_net (chip_driver bypass) ex_conf 1 (new_conn 6 0x0200007F 100) w1 = Ret (code, w') \<and>
    snd (stream (desk_of (xnet (iio w')))) = replies"
proof -
  obtain code replies rest r where v:
    "session bypass 2048 0 ex_talk ((server_of (\<lambda>c. c) (iio ex_taken))\<lparr>tracked := JTAG_TEST_LOGIC_RESET, tlr_seen := False\<rparr>) = (code, replies, rest, r)"
    by (metis prod_cases4)
  have w: "finite (dom (xmem (iio ex_taken)))" "active_xvc_conn ex_taken = Some 0" "conn_fd (new_conn 6 0x0200007F 100) \<noteq> 5"
    "fst (stream (desk_of (xnet (iio ex_taken)))) = concat (map cmd_bytes ex_talk)" "snd (stream (desk_of (xnet (iio ex_taken)))) = []"
    by (simp_all add: ex_taken_def ex_xvc_def ex_ftdi_def ex_io_def ex_phone_def new_conn_def)
  have l: "2048 = clamp_vector_size (if xvc_buffer_size ex_conf > 0 then xvc_buffer_size ex_conf else 64)" "(4 :: int) \<le> 2048" "(1 :: nat) \<noteq> 0"
    by (simp_all add: ex_conf_limit)
  show ?thesis
    using second_client_takes_over[OF phone_stream zero_malloc_ok zero_malloc_succeeds w(1) ex_taken_session w(2) l(3) w(3) l(1,2) ex_talk_valid w(4),
        unfolded ex_conf_limit(3), OF v, of phone_os] v w(5) by auto
qed

section \<open>A client that stalls\<close>

text \<open>The same desk, but the client keeps its connection open: a read with nothing to get waits.\<close>

definition mute_net :: "phone net" where
  "mute_net = phone_net\<lparr>net_read := \<lambda>n fd k. if fst (stream (desk_of n)) = [] then (Read_Blocked, n) else net_read phone_net n fd k\<rparr>"

lemma mute_net_stalls: "stalling_net mute_net (\<lambda>n. fst (stream (desk_of n)))"
  by (auto simp: stalling_net_def mute_net_def phone_net_def desk_net_def pipe_net_def split: prod.splits)

definition ex_session :: tcp_server_t where
  "ex_session = ex_server\<lparr>connections := (replicate MAX_CONNECTIONS closed_conn)[0 := new_conn 4 0x0200007F 100], connection_count := 1, max_fd := 4\<rparr>"

text \<open>Thirteen bytes of a command of fourteen have come: the last byte of TDI is missing.\<close>

definition ex_stalled :: "(phone, bool chip) instance_ctx" where
  "ex_stalled = ex_intruder\<lparr>iio := \<lparr>xctx = (xctx (ex_xvc []))\<lparr>socket_fd := 4\<rparr>,
     xnet = \<lparr>desk_of = (ex_desk [])\<lparr>stream := (take 13 (cmd_bytes (Shift 12 [2, 8] [0xA5, 0x0F])), [])\<rparr>, pending = False, hung_up = False\<rparr>,
     xftdi = xftdi (ex_xvc [])\<rparr>, active_xvc_conn := Some 0\<rparr>"

theorem stalled_client_hangs_witness:
  "instance_loop (\<lambda>_. True) (instance_os phone_os) (instance_callbacks zero_malloc mute_net (chip_driver bypass) phone_os ex_conf) ex_session ex_stalled
     = Some Diverges"
proof -
  have s: "only_client ex_session 0 4" "running ex_session" "fd_ok 4" "fd_ok (listen_fd ex_session)" "listen_fd ex_session \<noteq> 4"
    by (auto simp: only_client_def MAX_CONNECTIONS_def ex_session_def fd_ok_def closed_conn_def is_open_def new_conn_def nth_list_update)
  have w: "xvc_wf (iio ex_stalled)" "socket_fd (xctx (iio ex_stalled)) = 4" "max_vector_size (xctx (iio ex_stalled)) = 64"
    using ex_xvc_wf[of "[]"] by (simp_all add: ex_stalled_def xvc_wf_def)
  let ?c = "Shift 12 [2, 8] [0xA5, 0x0F]"
  have n: "fst (stream (desk_of (xnet (iio ex_stalled)))) = take 13 (cmd_bytes ?c)" "\<not> pending (xnet (iio ex_stalled))"
    by (simp_all add: ex_stalled_def)
  have sel: "os_select phone_os (xnet (iio ex_stalled)) (max_fd ex_session + 1) (listen_fd ex_session # open_fds ex_session) 1000 =
      (Select_Ready [4] [], xnet (iio ex_stalled))"
    using n(2) by (simp add: phone_os_def)
  have c: "valid_cmd (max_vector_size (xctx (iio ex_stalled))) ?c" "13 < length (cmd_bytes ?c)"
    by (simp_all add: w(3))
  show ?thesis by (rule stalled_client_hangs[OF mute_net_stalls s w(1,2) TrueI sel c n(1)])
qed

end
