(* ===== verification/Logging.thy ===== *)
theory Logging
  imports Config_Props
begin

text \<open>
  \<^verbatim>\<open>src/logging.c\<close>: levels, the logger's global state, the line a message is turned into and
  the outputs it goes to. The text of a message after its format has been applied, the time
  stamp and whether files and mutexes can be had are arguments; what is written is a list of
  outputs, and whether the process then exits. The other components leave their log calls out.
\<close>

section \<open>Levels\<close>

datatype log_level_t = XVC_LOG_TRACE | XVC_LOG_DEBUG | XVC_LOG_INFO | XVC_LOG_WARN | XVC_LOG_ERROR | XVC_LOG_FATAL

definition level_no :: "log_level_t \<Rightarrow> nat" where
  "level_no l = (case l of XVC_LOG_TRACE \<Rightarrow> 0 | XVC_LOG_DEBUG \<Rightarrow> 1 | XVC_LOG_INFO \<Rightarrow> 2
     | XVC_LOG_WARN \<Rightarrow> 3 | XVC_LOG_ERROR \<Rightarrow> 4 | XVC_LOG_FATAL \<Rightarrow> 5)"

lemma level_no_inject [simp]: "level_no a = level_no b \<longleftrightarrow> a = b"
  by (cases a; cases b) (simp_all add: level_no_def)

instantiation log_level_t :: linorder
begin

definition less_eq_log_level_t :: "log_level_t \<Rightarrow> log_level_t \<Rightarrow> bool" where
  "less_eq_log_level_t a b \<longleftrightarrow> level_no a \<le> level_no b"

definition less_log_level_t :: "log_level_t \<Rightarrow> log_level_t \<Rightarrow> bool" where
  "less_log_level_t a b \<longleftrightarrow> level_no a < level_no b"

instance
  by standard (auto simp: less_eq_log_level_t_def less_log_level_t_def)

end

definition level_names :: "string list" where
  "level_names = [''TRACE'', ''DEBUG'', ''INFO'', ''WARN'', ''ERROR'', ''FATAL'']"

definition syslog_priority :: "int list" where
  "syslog_priority = [7, 7, 6, 4, 3, 2]"

text \<open>The argument is the number of a level, which may be out of range.\<close>

definition log_level_name :: "int \<Rightarrow> string" where
  "log_level_name level = (if 0 \<le> level \<and> level < int (length level_names) then level_names ! nat level else ''UNKNOWN'')"

definition tolower :: "char \<Rightarrow> char" where
  "tolower c = (let n = of_char c :: nat in if 65 \<le> n \<and> n \<le> 90 then char_of (n + 32) else c)"

definition strcaseeq :: "string \<Rightarrow> string \<Rightarrow> bool" where
  "strcaseeq a b \<longleftrightarrow> map tolower a = map tolower b"

definition log_level_from_string :: "string option \<Rightarrow> log_level_t" where
  "log_level_from_string str = (case str of None \<Rightarrow> XVC_LOG_INFO | Some s \<Rightarrow>
     if strcaseeq s ''debug'' then XVC_LOG_DEBUG
     else if strcaseeq s ''info'' then XVC_LOG_INFO
     else if strcaseeq s ''warn'' \<or> strcaseeq s ''warning'' then XVC_LOG_WARN
     else if strcaseeq s ''error'' then XVC_LOG_ERROR
     else if strcaseeq s ''fatal'' then XVC_LOG_FATAL
     else XVC_LOG_INFO)"

section \<open>The logger\<close>

definition LOG_TARGET_STDOUT :: u32 where [simp]: "LOG_TARGET_STDOUT = 1"
definition LOG_TARGET_STDERR :: u32 where [simp]: "LOG_TARGET_STDERR = 2"
definition LOG_TARGET_FILE :: u32 where [simp]: "LOG_TARGET_FILE = 4"
definition LOG_TARGET_SYSLOG :: u32 where [simp]: "LOG_TARGET_SYSLOG = 8"

record log_config_t =
  log_lvl :: log_level_t
  targets :: u32
  log_path :: string
  include_timestamp :: bool
  include_level :: bool
  include_source :: bool
  log_instance :: int

record g_log =
  log_config :: log_config_t
  log_handle :: bool \<comment> \<open>the log file is open\<close>
  log_initialized :: bool

definition to_target :: "log_config_t \<Rightarrow> u32 \<Rightarrow> bool" where
  "to_target c t \<longleftrightarrow> targets c AND t \<noteq> 0"

definition log_init :: "bool \<Rightarrow> bool \<Rightarrow> log_config_t \<Rightarrow> g_log \<Rightarrow> int \<times> g_log" where
  "log_init mutex_ok fopen_ok config g =
    (if log_initialized g then (0, g)
     else
       let g1 = g\<lparr>log_config := config\<rparr> in
       if \<not> mutex_ok then (-1, g1)
       else if to_target config LOG_TARGET_FILE \<and> log_path config \<noteq> [] then
         if \<not> fopen_ok then (-1, g1\<lparr>log_handle := False\<rparr>)
         else (0, g1\<lparr>log_handle := True, log_initialized := True\<rparr>)
       else (0, g1\<lparr>log_initialized := True\<rparr>))"

definition log_shutdown :: "g_log \<Rightarrow> g_log" where
  "log_shutdown g = (if \<not> log_initialized g then g else g\<lparr>log_handle := False, log_initialized := False\<rparr>)"

definition log_set_level :: "log_level_t \<Rightarrow> g_log \<Rightarrow> g_log" where
  "log_set_level level g = g\<lparr>log_config := (log_config g)\<lparr>log_lvl := level\<rparr>\<rparr>"

definition log_set_instance :: "int \<Rightarrow> g_log \<Rightarrow> g_log" where
  "log_set_instance inst g = g\<lparr>log_config := (log_config g)\<lparr>log_instance := inst\<rparr>\<rparr>"

definition log_enabled :: "g_log \<Rightarrow> log_level_t \<Rightarrow> bool" where
  "log_enabled g level \<longleftrightarrow> level \<ge> log_lvl (log_config g)"

section \<open>The prefix\<close>

text \<open>
  \<open>pos += snprintf(prefix + pos, sizeof(prefix) - pos, ...)\<close> on the array of 128 bytes: with
  \<open>pos\<close> beyond the end the size wraps around and the write is out of bounds.
\<close>

definition put_piece :: "string \<Rightarrow> string \<times> nat \<Rightarrow> (string \<times> nat) outcome" where
  "put_piece piece = (\<lambda>(buf, pos).
     if pos > 128 then Undefined
     else if pos = 128 then Ret (buf, pos + length piece)
     else Ret (take pos buf @ take (127 - pos) piece, pos + length piece))"

definition put_if :: "bool \<Rightarrow> string \<Rightarrow> (string \<times> nat) outcome \<Rightarrow> (string \<times> nat) outcome" where
  "put_if b piece r = bind_out r (if b then put_piece piece else Ret)"

definition basename :: "string \<Rightarrow> string" where
  "basename file = rev (takeWhile (\<lambda>c. c \<noteq> CHR ''/'') (rev file))"

text \<open>\<open>file\<close> is \<open>None\<close> for NULL.\<close>

definition log_prefix :: "log_config_t \<Rightarrow> log_level_t \<Rightarrow> string \<Rightarrow> string option \<Rightarrow> int \<Rightarrow> (string \<times> nat) outcome" where
  "log_prefix c level timestamp file line =
     put_if (include_source c \<and> file \<noteq> None) (basename (the file) @ '':'' @ show_int line @ '': '')
      (put_if (include_level c) (''['' @ level_names ! level_no level @ ''] '')
        (put_if (log_instance c > 0) (''[I'' @ show_int (log_instance c) @ ''] '')
          (put_if (include_timestamp c) (''['' @ timestamp @ ''] '') (Ret ([], 0)))))"

section \<open>Messages\<close>

datatype log_output = To_Stdout string | To_Stderr string | To_File string | To_Syslog int string

definition log_outputs :: "g_log \<Rightarrow> log_level_t \<Rightarrow> string \<Rightarrow> string \<Rightarrow> log_output list" where
  "log_outputs g level pre message =
    (let c = log_config g; line = pre @ message @ [NL] in
     (if to_target c LOG_TARGET_STDOUT then [To_Stdout line] else []) @
     (if to_target c LOG_TARGET_STDERR then [To_Stderr line] else []) @
     (if to_target c LOG_TARGET_FILE \<and> log_handle g then [To_File line] else []) @
     (if to_target c LOG_TARGET_SYSLOG then [To_Syslog (syslog_priority ! level_no level) message] else []))"

text \<open>What is written, and whether the process exits.\<close>

definition log_vmsg :: "g_log \<Rightarrow> log_level_t \<Rightarrow> string option \<Rightarrow> int \<Rightarrow> string \<Rightarrow> string \<Rightarrow> (log_output list \<times> bool) outcome" where
  "log_vmsg g level file line timestamp message =
    (if level < log_lvl (log_config g) then Ret ([], False)
     else bind_out (log_prefix (log_config g) level timestamp file line) (\<lambda>(pre, _).
       Ret (log_outputs g level pre (snd (snprintf 1024 message)), level = XVC_LOG_FATAL)))"

definition log_msg :: "g_log \<Rightarrow> log_level_t \<Rightarrow> string option \<Rightarrow> int \<Rightarrow> string \<Rightarrow> string \<Rightarrow> (log_output list \<times> bool) outcome" where
  "log_msg g level file line timestamp message = log_vmsg g level file line timestamp message"

section \<open>Properties\<close>

text \<open>The texts and numbers that stand for a level, written out for the statement below.\<close>

definition level_text :: "log_level_t \<Rightarrow> string \<times> int" where
  "level_text l = (case l of XVC_LOG_TRACE \<Rightarrow> (''TRACE'', 7) | XVC_LOG_DEBUG \<Rightarrow> (''DEBUG'', 7) | XVC_LOG_INFO \<Rightarrow> (''INFO'', 6)
     | XVC_LOG_WARN \<Rightarrow> (''WARN'', 4) | XVC_LOG_ERROR \<Rightarrow> (''ERROR'', 3) | XVC_LOG_FATAL \<Rightarrow> (''FATAL'', 2))"

lemma level_tables:
  "level_names ! level_no l = fst (level_text l)" "syslog_priority ! level_no l = snd (level_text l)"
  by (cases l; simp add: level_names_def syslog_priority_def level_no_def level_text_def)+

definition prefix_text :: "log_config_t \<Rightarrow> log_level_t \<Rightarrow> string \<Rightarrow> string option \<Rightarrow> int \<Rightarrow> string" where
  "prefix_text c level timestamp file line =
     (if include_timestamp c then ''['' @ timestamp @ ''] '' else []) @
     (if log_instance c > 0 then ''[I'' @ show_int (log_instance c) @ ''] '' else []) @
     (if include_level c then ''['' @ fst (level_text level) @ ''] '' else []) @
     (if include_source c \<and> file \<noteq> None then basename (the file) @ '':'' @ show_int line @ '': '' else [])"

lemma put_piece_fits: "length buf \<le> 127 \<Longrightarrow> put_piece piece (buf, length buf) = Ret (take 127 (buf @ piece), length buf + length piece)"
  by (simp add: put_piece_def)

lemma put_if_fits:
  assumes "b \<Longrightarrow> length buf + length piece \<le> 127"
  shows "put_if b piece (Ret (buf, length buf)) = Ret (buf @ (if b then piece else []), length (buf @ (if b then piece else [])))"
  using assms by (cases b) (simp_all add: put_if_def put_piece_fits)

lemma put_if_last:
  "length buf \<le> 127 \<Longrightarrow> \<exists>pos. put_if b piece (Ret (buf, length buf)) = Ret (take 127 (buf @ (if b then piece else [])), pos)"
  by (simp add: put_if_def put_piece_fits)

lemma length_level_name: "length (level_names ! level_no level) \<le> 5"
  by (cases level) (simp_all add: level_names_def level_no_def)

lemma log_prefix_fits:
  assumes "length timestamp \<le> 31" "log_instance c < 2 ^ 31"
  shows "\<exists>pos. log_prefix c level timestamp file line = Ret (take 127 (prefix_text c level timestamp file line), pos)"
proof -
  let ?t = "if include_timestamp c then ''['' @ timestamp @ ''] '' else []"
  let ?i = "if log_instance c > 0 then ''[I'' @ show_int (log_instance c) @ ''] '' else []"
  let ?l = "if include_level c then ''['' @ level_names ! level_no level @ ''] '' else []"
  have t: "length ?t \<le> 34" using assms(1) by simp
  have "length (show_int (log_instance c)) \<le> 11" if "log_instance c > 0"
    using length_show_int[of "log_instance c" 10] that assms(2) by simp
  then have i: "length ?i \<le> 15" by (auto simp del: show_int_pos)
  have l: "length ?l \<le> 8" using length_level_name[of level] by simp
  have 1: "put_if (include_timestamp c) (''['' @ timestamp @ ''] '') (Ret ([], 0)) = Ret (?t, length ?t)"
    using put_if_fits[of "include_timestamp c" "[]" "''['' @ timestamp @ ''] ''"] assms(1) by simp
  have 2: "put_if (log_instance c > 0) (''[I'' @ show_int (log_instance c) @ ''] '') (Ret (?t, length ?t)) = Ret (?t @ ?i, length (?t @ ?i))"
    using i t by (intro put_if_fits) simp
  have 3: "put_if (include_level c) (''['' @ level_names ! level_no level @ ''] '') (Ret (?t @ ?i, length (?t @ ?i))) =
      Ret ((?t @ ?i) @ ?l, length ((?t @ ?i) @ ?l))"
    using i t l by (intro put_if_fits) simp
  have n: "length ((?t @ ?i) @ ?l) \<le> 127" using i t l by simp
  show ?thesis
    unfolding log_prefix_def 1 2 3 prefix_text_def level_tables(1) [symmetric] using put_if_last[OF n] by (simp only: append_assoc)
qed

text \<open>
  The outputs of a message, written out: what each of them gets and under which condition,
  with the bits of \<^verbatim>\<open>targets\<close> by number.
\<close>

definition expected_output :: "g_log \<Rightarrow> log_level_t \<Rightarrow> string \<Rightarrow> string \<Rightarrow> log_output \<Rightarrow> bool" where
  "expected_output g level line text out \<longleftrightarrow> (case out of
     To_Stdout s \<Rightarrow> bit (targets (log_config g)) 0 \<and> s = line
   | To_Stderr s \<Rightarrow> bit (targets (log_config g)) 1 \<and> s = line
   | To_File s \<Rightarrow> bit (targets (log_config g)) 2 \<and> log_handle g \<and> s = line
   | To_Syslog p s \<Rightarrow> bit (targets (log_config g)) 3 \<and> p = snd (level_text level) \<and> s = text)"

lemma to_target_bit:
  "to_target c LOG_TARGET_STDOUT \<longleftrightarrow> bit (targets c) 0" "to_target c LOG_TARGET_STDERR \<longleftrightarrow> bit (targets c) 1"
  "to_target c LOG_TARGET_FILE \<longleftrightarrow> bit (targets c) 2" "to_target c LOG_TARGET_SYSLOG \<longleftrightarrow> bit (targets c) 3"
proof -
  have "x AND 2 ^ n \<noteq> 0 \<longleftrightarrow> bit x n" if "n < 32" for x :: u32 and n
    using that and_exp_eq_0_iff_not_bit[of x n] by simp
  from this[of 0] this[of 1] this[of 2] this[of 3]
  show "to_target c LOG_TARGET_STDOUT \<longleftrightarrow> bit (targets c) 0" "to_target c LOG_TARGET_STDERR \<longleftrightarrow> bit (targets c) 1"
    "to_target c LOG_TARGET_FILE \<longleftrightarrow> bit (targets c) 2" "to_target c LOG_TARGET_SYSLOG \<longleftrightarrow> bit (targets c) 3"
    by (simp_all add: to_target_def)
qed

lemma log_outputs_expected:
  "distinct (log_outputs g level pre text) \<and>
   (out \<in> set (log_outputs g level pre text) \<longleftrightarrow> expected_output g level (pre @ text @ [NL]) text out)"
  by (cases out) (auto simp: log_outputs_def Let_def to_target_bit level_tables expected_output_def
      simp del: LOG_TARGET_STDOUT_def LOG_TARGET_STDERR_def LOG_TARGET_FILE_def LOG_TARGET_SYSLOG_def)


definition ex_log :: g_log where
  "ex_log = \<lparr>log_config = \<lparr>log_lvl = XVC_LOG_INFO, targets = 14, log_path = ''/var/log/xvc.log'', include_timestamp = False,
     include_level = True, include_source = True, log_instance = 3\<rparr>, log_handle = True, log_initialized = True\<rparr>"


text \<open>
  Parsing the name of a level gives the level back, for every level but \<open>TRACE\<close>, whose name
  is read as \<open>INFO\<close>.
\<close>

theorem log_level_round_trip:
  "log_level_from_string (Some (log_level_name (int (level_no l)))) = (if l = XVC_LOG_TRACE then XVC_LOG_INFO else l)"
  by (induction l; code_simp)

end
