(* ===== verification/Manager.thy ===== *)
theory Manager
  imports Instance Logging Discover
begin

text \<open>
  The instance manager, the rest of \<^verbatim>\<open>src/main.c\<close>: signals, spawning and reaping the child
  processes, the options and the main function. The operating system's process calls are a
  parameter. A process is followed through \<open>fork\<close> on whichever side \<open>fork\<close> returns, so a spawn
  may end the process: as the child, with the exit code of its instance.
\<close>

section \<open>Signals\<close>

datatype signal = SIGTERM | SIGINT | SIGHUP | SIGCHLD

record sig_flags =
  g_running :: bool
  g_reload :: bool

definition signal_handler :: "signal \<Rightarrow> sig_flags \<Rightarrow> sig_flags" where
  "signal_handler sig g = (case sig of
     SIGTERM \<Rightarrow> g\<lparr>g_running := False\<rparr>
   | SIGINT \<Rightarrow> g\<lparr>g_running := False\<rparr>
   | SIGHUP \<Rightarrow> g\<lparr>g_reload := True\<rparr>
   | SIGCHLD \<Rightarrow> g)"

text \<open>
  What the kernel does with a signal: the default action, or the handler. \<open>SA_RESTART\<close> makes the
  kernel resume interrupted reads and writes, so those of the model are never interrupted;
  \<open>select\<close> is (\<open>Select_Error True\<close>).
\<close>

datatype disposition = SIG_DFL | SA_HANDLER

definition setup_signals :: "(signal \<Rightarrow> disposition) \<Rightarrow> signal \<Rightarrow> disposition" where
  "setup_signals d = d(SIGTERM := SA_HANDLER, SIGINT := SA_HANDLER, SIGHUP := SA_HANDLER, SIGCHLD := SA_HANDLER)"

text \<open>\<open>None\<close> is a process the default action has killed; that of \<open>SIGCHLD\<close> is to do nothing.\<close>

definition deliver :: "(signal \<Rightarrow> disposition) \<Rightarrow> signal \<Rightarrow> sig_flags option \<Rightarrow> sig_flags option" where
  "deliver d sig g = (case d sig of
     SA_HANDLER \<Rightarrow> map_option (signal_handler sig) g
   | SIG_DFL \<Rightarrow> if sig = SIGCHLD then g else None)"

text \<open>
  What the program runs on. \<open>signals\<close> are the signals the process has handled so far; the flags
  are what the handler made of them.
\<close>

record ('n, 'd) platform =
  p_create_malloc :: allocator \<comment> \<open>while an adapter is created\<close>
  p_malloc :: allocator
  p_calloc_ok :: bool
  p_net :: "'n net"
  p_drv :: "'d ft_driver"
  p_os :: "'n os"
  p_signals :: "'n \<Rightarrow> signal list"
  p_fork :: "'n \<Rightarrow> int \<times> 'n"
  p_waitpid_any :: "'n \<Rightarrow> int \<times> 'n" \<comment> \<open>with \<open>WNOHANG\<close>\<close>
  p_waitpid :: "'n \<Rightarrow> int \<Rightarrow> 'n option" \<comment> \<open>without options: \<open>None\<close> if the child never ends\<close>
  p_kill :: "'n \<Rightarrow> int \<Rightarrow> 'n" \<comment> \<open>\<open>SIGTERM\<close>\<close>
  p_sleep :: "'n \<Rightarrow> 'n"
  p_daemon :: "'n \<Rightarrow> int \<times> 'n"

definition flags_after :: "signal list \<Rightarrow> sig_flags" where
  "flags_after sigs = fold signal_handler sigs \<lparr>g_running = True, g_reload = False\<rparr>"

definition still_running :: "('n, 'd) platform \<Rightarrow> 'n \<Rightarrow> bool" where
  "still_running P n \<longleftrightarrow> g_running (flags_after (p_signals P n))"

section \<open>Child processes\<close>

record ('n, 'd) manager =
  m_config :: xvc_global_config_t
  m_net :: 'n
  m_dev :: 'd
  m_mem :: memory
  m_reloads :: nat \<comment> \<open>how many signals had come when \<open>g_reload\<close> was last cleared\<close>

text \<open>The process has exited, or goes on.\<close>

datatype ('w, 'a) proc = Exited int 'w | Cont 'a

type_synonym ('n, 'd) world = "'n \<times> 'd \<times> memory"
type_synonym ('n, 'd) step = "(('n, 'd) world, ('n, 'd) manager) proc outcome"

fun and_then :: "('w, 'a) proc outcome \<Rightarrow> ('a \<Rightarrow> ('w, 'b) proc outcome) \<Rightarrow> ('w, 'b) proc outcome" where
  "and_then (Ret (Cont a)) f = f a"
| "and_then (Ret (Exited code w)) f = Ret (Exited code w)"
| "and_then Undefined f = Undefined"
| "and_then Killed f = Killed"
| "and_then Diverges f = Diverges"

definition inst_at :: "('n, 'd) manager \<Rightarrow> nat \<Rightarrow> xvc_instance_config_t" where
  "inst_at s i = instances (m_config s) ! i"

definition set_pid :: "nat \<Rightarrow> int \<Rightarrow> ('n, 'd) manager \<Rightarrow> ('n, 'd) manager" where
  "set_pid i p s = s\<lparr>m_config := (m_config s)\<lparr>instances := (instances (m_config s))[i := (inst_at s i)\<lparr>pid := p\<rparr>]\<rparr>\<rparr>"

definition run_here :: "('n, 'd) platform \<Rightarrow> xvc_instance_config_t \<Rightarrow> ('n, 'd) world \<Rightarrow> (int \<times> ('n, 'd) world) outcome" where
  "run_here P = run_instance (p_create_malloc P) (p_malloc P) (p_calloc_ok P) (p_net P) (p_drv P) (p_os P) (still_running P)"

definition spawn_instance :: "('n, 'd) platform \<Rightarrow> nat \<Rightarrow> ('n, 'd) manager \<Rightarrow> (('n, 'd) world, int \<times> ('n, 'd) manager) proc outcome" where
  "spawn_instance P i s =
    (case p_fork P (m_net s) of (p, n1) \<Rightarrow>
     let s1 = s\<lparr>m_net := n1\<rparr> in
     if p < 0 then Ret (Cont (-1, s1))
     else if p = 0 then bind_out (run_here P (inst_at s1 i) (n1, m_dev s1, m_mem s1)) (\<lambda>(ret, w). Ret (Exited ret w))
     else Ret (Cont (p, set_pid i p s1)))"

text \<open>The instances in use.\<close>

definition active :: "('n, 'd) manager \<Rightarrow> nat list" where
  "active s = [0..<nat (instance_count (m_config s))]"

definition find_child :: "int \<Rightarrow> ('n, 'd) manager \<Rightarrow> nat option" where
  "find_child p s = first_index (\<lambda>i. pid (inst_at s i) = p) 0 (active s)"

text \<open>What \<open>check_children\<close> does about one reaped child.\<close>

definition child_exited :: "('n, 'd) platform \<Rightarrow> int \<Rightarrow> ('n, 'd) manager \<Rightarrow> ('n, 'd) step" where
  "child_exited P p s =
    (case find_child p s of
       None \<Rightarrow> Ret (Cont s)
     | Some i \<Rightarrow>
         let s1 = set_pid i 0 s in
         if still_running P (m_net s1) \<and> enabled (inst_at s1 i)
         then and_then (spawn_instance P i (s1\<lparr>m_net := p_sleep P (m_net s1)\<rparr>)) (\<lambda>(_, s2). Ret (Cont s2))
         else Ret (Cont s1))"

partial_function (option) check_children :: "('n, 'd) platform \<Rightarrow> ('n, 'd) manager \<Rightarrow> ('n, 'd) step option" where
  "check_children pl s =
    (case p_waitpid_any pl (m_net s) of (p, n1) \<Rightarrow>
     if p > 0 then
       (case child_exited pl p (s\<lparr>m_net := n1\<rparr>) of
          Ret (Cont s1) \<Rightarrow> check_children pl s1
        | Ret (Exited code w) \<Rightarrow> Some (Ret (Exited code w))
        | Undefined \<Rightarrow> Some Undefined
        | Killed \<Rightarrow> Some Killed
        | Diverges \<Rightarrow> Some Diverges)
     else Some (Ret (Cont (s\<lparr>m_net := n1\<rparr>))))"

declare check_children.simps [code]

fun spawn_enabled :: "('n, 'd) platform \<Rightarrow> nat list \<Rightarrow> ('n, 'd) manager \<Rightarrow> ('n, 'd) step" where
  "spawn_enabled P [] s = Ret (Cont s)"
| "spawn_enabled P (i # is) s =
    (if enabled (inst_at s i)
     then and_then (spawn_instance P i s) (\<lambda>(_, s1). spawn_enabled P is s1)
     else spawn_enabled P is s)"

text \<open>The reload request is acknowledged, nothing is reloaded.\<close>

definition check_reload :: "('n, 'd) platform \<Rightarrow> ('n, 'd) manager \<Rightarrow> ('n, 'd) manager" where
  "check_reload P s =
    (if g_reload (flags_after (drop (m_reloads s) (p_signals P (m_net s))))
     then s\<lparr>m_reloads := length (p_signals P (m_net s))\<rparr> else s)"

partial_function (option) manager_loop :: "('n, 'd) platform \<Rightarrow> ('n, 'd) manager \<Rightarrow> ('n, 'd) step option" where
  "manager_loop pl s =
    (if \<not> still_running pl (m_net s) then Some (Ret (Cont s))
     else case check_children pl s of
       None \<Rightarrow> None
     | Some r \<Rightarrow>
         (case r of
            Ret (Cont s1) \<Rightarrow> let s2 = check_reload pl s1 in manager_loop pl (s2\<lparr>m_net := p_sleep pl (m_net s2)\<rparr>)
          | Ret (Exited code w) \<Rightarrow> Some (Ret (Exited code w))
          | Undefined \<Rightarrow> Some Undefined
          | Killed \<Rightarrow> Some Killed
          | Diverges \<Rightarrow> Some Diverges))"

declare manager_loop.simps [code]

definition live_pids :: "('n, 'd) manager \<Rightarrow> int list" where
  "live_pids s = filter (\<lambda>p. p > 0) (map (\<lambda>i. pid (inst_at s i)) (active s))"

fun wait_children :: "('n, 'd) platform \<Rightarrow> int list \<Rightarrow> 'n \<Rightarrow> 'n outcome" where
  "wait_children P [] n = Ret n"
| "wait_children P (p # ps) n = (case p_waitpid P n p of None \<Rightarrow> Diverges | Some n1 \<Rightarrow> wait_children P ps n1)"

definition stop_children :: "('n, 'd) platform \<Rightarrow> ('n, 'd) manager \<Rightarrow> ('n, 'd) manager outcome" where
  "stop_children P s =
    bind_out (wait_children P (live_pids s) (fold (\<lambda>p n. p_kill P n p) (live_pids s) (m_net s))) (\<lambda>n. Ret (s\<lparr>m_net := n\<rparr>))"

text \<open>
  From the loaded configuration to the end of the process: one enabled instance runs in place.
  \<open>Cont\<close> is a return from here, \<open>Exited\<close> the end of a child.
\<close>

definition run_manager :: "('n, 'd) platform \<Rightarrow> ('n, 'd) manager \<Rightarrow> (('n, 'd) world, int \<times> ('n, 'd) world) proc outcome" where
  "run_manager P s =
    (if instance_count (m_config s) = 1 \<and> enabled (inst_at s 0)
     then bind_out (run_here P (inst_at s 0) (m_net s, m_dev s, m_mem s)) (\<lambda>r. Ret (Cont r))
     else and_then (spawn_enabled P (active s) s) (\<lambda>s1.
       case manager_loop P s1 of
         None \<Rightarrow> Diverges
       | Some r \<Rightarrow> and_then r (\<lambda>s2. bind_out (stop_children P s2) (\<lambda>s3. Ret (Cont (0, m_net s3, m_dev s3, m_mem s3))))))"

section \<open>Options\<close>

datatype server_option = Srv_Daemon | Srv_Port string | Srv_Verbose | Srv_Help | Srv_Version | Srv_Unknown

record server_opts =
  srv_daemonize :: bool
  srv_verbose :: int
  srv_port :: int

definition print_usage :: "string \<Rightarrow> string" where
  "print_usage prog =
     nl (''Usage: '' @ prog @ '' [OPTIONS] <config-file>'') @ [NL] @
     nl ''Run XVC server for Digilent HS2 devices.'' @ [NL] @
     nl ''Options:'' @
     nl ''  -d, --daemon           Run as daemon'' @
     nl ''  -p, --port PORT        Override base port'' @
     nl ''  -v, --verbose          Increase log level (can be used multiple times)'' @
     nl ''                          0 = INFO (default)'' @
     nl ''                          1 = DEBUG (-v)'' @
     nl ''                          2+ = TRACE (-vv, -vvv)'' @
     nl ''  -h, --help             Display this help message'' @
     nl ''  -V, --version          Display version information'' @
     [NL] @ nl ''Examples:'' @
     nl (''  '' @ prog @ '' /etc/xvc-server/xvc-server-multi.conf'') @
     nl (''  '' @ prog @ '' -d /etc/xvc-server/xvc-server-multi.conf'') @
     nl (''  '' @ prog @ '' -v /etc/xvc-server/xvc-server-multi.conf'') @
     nl (''  '' @ prog @ '' -vv /etc/xvc-server/xvc-server-multi.conf'')"

definition print_version :: string where
  "print_version = nl (''xvc-server version '' @ VERSION) @ nl ''XVC Server for Digilent HS2 JTAG Adapters''"

fun server_options :: "string \<Rightarrow> server_option list \<Rightarrow> server_opts \<Rightarrow> (int \<times> string) + server_opts" where
  "server_options prog [] o' = Inr o'"
| "server_options prog (x # xs) o' = (case x of
     Srv_Daemon \<Rightarrow> server_options prog xs (o'\<lparr>srv_daemonize := True\<rparr>)
   | Srv_Port p \<Rightarrow> server_options prog xs (o'\<lparr>srv_port := atoi p\<rparr>)
   | Srv_Verbose \<Rightarrow> server_options prog xs (o'\<lparr>srv_verbose := srv_verbose o' + 1\<rparr>)
   | Srv_Help \<Rightarrow> Inl (0, print_usage prog)
   | Srv_Version \<Rightarrow> Inl (0, print_version)
   | Srv_Unknown \<Rightarrow> Inl (1, print_usage prog))"

definition verbose_level :: "int \<Rightarrow> log_level_t" where
  "verbose_level verbose = (if verbose = 0 then XVC_LOG_INFO else if verbose = 1 then XVC_LOG_DEBUG else XVC_LOG_TRACE)"

definition server_log :: "server_opts \<Rightarrow> log_config_t" where
  "server_log o' =
    \<lparr>log_lvl = verbose_level (srv_verbose o'),
     targets = LOG_TARGET_STDERR OR (if srv_daemonize o' then LOG_TARGET_SYSLOG else 0), log_path = [],
     include_timestamp = True, include_level = True, include_source = srv_verbose o' \<ge> 2, log_instance = 0\<rparr>"

text \<open>\<open>port_override + i\<close> may overflow an \<open>int\<close>.\<close>

definition override_ports :: "int \<Rightarrow> xvc_global_config_t \<Rightarrow> xvc_global_config_t outcome" where
  "override_ports p c =
    (if p = 0 then Ret c
     else if p + instance_count c - 1 > 2147483647 \<and> instance_count c > 0 then Undefined
     else Ret (c\<lparr>base_port := p,
                 instances := map (\<lambda>i. if int i < instance_count c then (instances c ! i)\<lparr>port := p + int i\<rparr> else instances c ! i)
                                [0..<length (instances c)]\<rparr>))"

section \<open>The main function\<close>

record ('n, 'd) main_end =
  main_code :: int
  main_out :: string
  main_err :: string
  main_log :: g_log
  main_world :: "('n, 'd) world"

text \<open>
  \<open>args\<close> are the options as \<open>getopt_long\<close> delivers them and \<open>operands\<close> what is left of the
  command line. \<open>Cont\<close> is a return from \<open>main\<close>; \<open>Exited\<close> is the end of a child, or of
  the process because \<open>LOG_FATAL\<close> exits with 1. \<open>c0\<close> is \<open>g_config\<close> before it is loaded. \<open>main_log\<close> is the logger without the
  instance number that \<open>run_instance\<close> gives it. \<open>config_free\<close> and \<open>device_manager_shutdown\<close> act on
  globals that are not read again.
\<close>

definition main ::
  "('n, 'd) platform \<Rightarrow> (string \<Rightarrow> string option) \<Rightarrow> xvc_global_config_t \<Rightarrow> g_log \<Rightarrow> string \<Rightarrow> server_option list \<Rightarrow> string list \<Rightarrow>
   ('n, 'd) world \<Rightarrow> (('n, 'd) world, ('n, 'd) main_end) proc outcome" where
  "main P fopen c0 g prog args operands = (\<lambda>(n, d, m).
    (case server_options prog args \<lparr>srv_daemonize = False, srv_verbose = 0, srv_port = 0\<rparr> of
       Inl (code, txt) \<Rightarrow> Ret (Cont \<lparr>main_code = code, main_out = txt, main_err = [], main_log = g, main_world = (n, d, m)\<rparr>)
     | Inr o' \<Rightarrow>
         if operands = []
         then Ret (Cont \<lparr>main_code = 1, main_out = print_usage prog, main_err = nl ''Error: Configuration file required'' @ [NL],
                         main_log = g, main_world = (n, d, m)\<rparr>)
         else
           let g1 = snd (log_init True True (server_log o') g)
           in bind_out (config_load fopen (hd operands) c0) (\<lambda>(code, c).
              if code < 0 then Ret (Exited 1 (n, d, m))
              else bind_out (override_ports (srv_port o') c) (\<lambda>c1.
                case (if srv_daemonize o' then p_daemon P n else (0, n)) of (dm, n1) \<Rightarrow>
                if dm < 0 then Ret (Exited 1 (n1, d, m))
                else and_then (run_manager P \<lparr>m_config = c1, m_net = n1, m_dev = d, m_mem = m, m_reloads = 0\<rparr>) (\<lambda>(code, w).
                  Ret (Cont \<lparr>main_code = code, main_out = [], main_err = [], main_log = log_shutdown g1, main_world = w\<rparr>))))))"

end
