(* ===== verification/Manager_Props.thy ===== *)
theory Manager_Props
  imports Manager
begin

text \<open>
  The table of children: the positive pids in the configuration are exactly the children the
  process has not waited for, each of one instance, from the first \<open>fork\<close> to the last \<open>waitpid\<close>.
\<close>

section \<open>The process calls\<close>

text \<open>\<open>kids\<close> are the children not waited for. Signals already handled stay handled.\<close>

definition same_kids :: "('n, 'd) platform \<Rightarrow> ('n \<Rightarrow> int set) \<Rightarrow> 'n \<Rightarrow> 'n \<Rightarrow> bool" where
  "same_kids P kids n n' \<longleftrightarrow> kids n' = kids n \<and> (still_running P n' \<longrightarrow> still_running P n)"

definition proc_ok :: "('n, 'd) platform \<Rightarrow> ('n \<Rightarrow> int set) \<Rightarrow> bool" where
  "proc_ok P kids \<longleftrightarrow>
     (\<forall>n p n'. p_fork P n = (p, n') \<longrightarrow> (still_running P n' \<longrightarrow> still_running P n) \<and>
        (if p > 0 then p \<notin> kids n \<and> kids n' = insert p (kids n) else if p < 0 then kids n' = kids n else True)) \<and>
     (\<forall>n p n'. p_waitpid_any P n = (p, n') \<longrightarrow> (still_running P n' \<longrightarrow> still_running P n) \<and>
        (if p > 0 then p \<in> kids n \<and> kids n' = kids n - {p} else kids n' = kids n)) \<and>
     (\<forall>n p n'. p_waitpid P n p = Some n' \<longrightarrow> kids n' = kids n - {p}) \<and>
     (\<forall>n p. same_kids P kids n (p_kill P n p)) \<and> (\<forall>n. same_kids P kids n (p_sleep P n)) \<and>
     (\<forall>n. same_kids P kids n (snd (p_daemon P n)))"

lemma proc_okD:
  assumes "proc_ok P kids"
  shows "p_waitpid P n p = Some n' \<Longrightarrow> kids n' = kids n - {p}" "same_kids P kids n (p_kill P n p)" "same_kids P kids n (p_sleep P n)"
    "same_kids P kids n (snd (p_daemon P n))"
  using assms unfolding proc_ok_def by blast+

lemma handled_flags:
  "fold (deliver (setup_signals d)) sigs (Some g) = Some (fold signal_handler sigs g)"
  "g_running (fold signal_handler sigs g) \<longleftrightarrow> g_running g \<and> SIGTERM \<notin> set sigs \<and> SIGINT \<notin> set sigs"
  "g_reload (fold signal_handler sigs g) \<longleftrightarrow> g_reload g \<or> SIGHUP \<in> set sigs"
proof (induction sigs arbitrary: g)
  case (Cons sig sigs)
  {
    case 1
    show ?case using Cons by (cases sig) (simp_all add: deliver_def setup_signals_def)
  next
    case 2
    show ?case using Cons by (cases sig) (simp_all add: signal_handler_def)
  next
    case 3
    show ?case using Cons by (cases sig) (simp_all add: signal_handler_def)
  }
qed simp_all

lemma default_kills: "fold (deliver (\<lambda>_. SIG_DFL)) sigs g = (if set sigs \<subseteq> {SIGCHLD} then g else None)"
proof (induction sigs arbitrary: g)
  case (Cons sig sigs)
  then show ?case by (cases sig) (auto simp: deliver_def)
qed simp

text \<open>
  C22. After \<open>setup_signals\<close> no sequence of the four signals kills the process: they only set the two
  flags; \<open>g_running\<close> is cleared exactly by \<open>SIGTERM\<close> and \<open>SIGINT\<close>, \<open>g_reload\<close> set exactly by \<open>SIGHUP\<close>.
  With the default actions each of these three kills it.
\<close>

theorem signals_handled:
  "fold (deliver (setup_signals d)) sigs (Some \<lparr>g_running = True, g_reload = False\<rparr>) = Some (flags_after sigs) \<and>
   (g_running (flags_after sigs) \<longleftrightarrow> SIGTERM \<notin> set sigs \<and> SIGINT \<notin> set sigs) \<and>
   (g_reload (flags_after sigs) \<longleftrightarrow> SIGHUP \<in> set sigs) \<and>
   (fold (deliver (\<lambda>_. SIG_DFL)) sigs (Some g) = None \<longleftrightarrow> SIGTERM \<in> set sigs \<or> SIGINT \<in> set sigs \<or> SIGHUP \<in> set sigs)"
proof -
  have "x = SIGCHLD" if "x \<in> set sigs" "SIGTERM \<notin> set sigs" "SIGINT \<notin> set sigs" "SIGHUP \<notin> set sigs" for x
    by (cases x) (use that in auto)
  then have "set sigs \<subseteq> {SIGCHLD} \<longleftrightarrow> SIGTERM \<notin> set sigs \<and> SIGINT \<notin> set sigs \<and> SIGHUP \<notin> set sigs" by auto
  then show ?thesis by (simp add: flags_after_def handled_flags default_kills)
qed

lemma flags_stop: "\<not> g_running g \<Longrightarrow> \<not> g_running (fold signal_handler sigs g)"
  by (induction sigs arbitrary: g) (simp_all add: signal_handler_def split: signal.splits)

lemma flags_after_append: "g_running (flags_after (xs @ ys)) \<Longrightarrow> g_running (flags_after xs)"
  using flags_stop by (auto simp: flags_after_def)

section \<open>The table\<close>

lemma active_set [simp]: "i \<in> set (active s) \<longleftrightarrow> int i < instance_count (m_config s)"
  by (auto simp: active_def)

definition table_ok :: "('n, 'd) manager \<Rightarrow> bool" where
  "table_ok s \<longleftrightarrow> instance_count (m_config s) \<le> int (length (instances (m_config s))) \<and>
     (\<forall>i \<in> set (active s). \<forall>j \<in> set (active s). pid (inst_at s i) = pid (inst_at s j) \<and> pid (inst_at s i) > 0 \<longrightarrow> i = j)"

definition kids_inv :: "('n \<Rightarrow> int set) \<Rightarrow> ('n, 'd) manager \<Rightarrow> bool" where
  "kids_inv kids s \<longleftrightarrow> table_ok s \<and> kids (m_net s) = set (live_pids s)"

lemma live_pids_set: "set (live_pids s) = {p. p > 0 \<and> (\<exists>i \<in> set (active s). pid (inst_at s i) = p)}"
  by (auto simp: live_pids_def)

lemma net_update [simp]:
  "inst_at (s\<lparr>m_net := n\<rparr>) i = inst_at s i" "active (s\<lparr>m_net := n\<rparr>) = active s" "live_pids (s\<lparr>m_net := n\<rparr>) = live_pids s"
  "table_ok (s\<lparr>m_net := n\<rparr>) = table_ok s" "m_net (set_pid i p s) = m_net s" "active (set_pid i p s) = active s"
  by (simp_all add: inst_at_def active_def live_pids_def table_ok_def set_pid_def)

lemma inst_at_set_pid:
  assumes "table_ok s" "i \<in> set (active s)"
  shows "inst_at (set_pid i p s) j = (if j = i then (inst_at s i)\<lparr>pid := p\<rparr> else inst_at s j)"
  using assms by (auto simp: set_pid_def inst_at_def table_ok_def)

lemma set_pid_table:
  assumes "table_ok s" "i \<in> set (active s)" "p > 0 \<Longrightarrow> p \<notin> set (live_pids s)"
  shows "table_ok (set_pid i p s)"
proof -
  have "instance_count (m_config (set_pid i p s)) \<le> int (length (instances (m_config (set_pid i p s))))"
    using assms(1) by (simp add: table_ok_def set_pid_def)
  moreover have "pid (inst_at (set_pid i p s) j) = pid (inst_at (set_pid i p s) k) \<Longrightarrow> pid (inst_at (set_pid i p s) j) > 0 \<Longrightarrow> j = k"
    if "j \<in> set (active s)" "k \<in> set (active s)" for j k
    using that assms unfolding inst_at_set_pid[OF assms(1,2)] live_pids_set by (auto simp: table_ok_def split: if_splits)
  ultimately show ?thesis unfolding table_ok_def by simp
qed

lemma live_set_pid:
  assumes "table_ok s" "i \<in> set (active s)"
  shows "set (live_pids (set_pid i p s)) = (set (live_pids s) - {pid (inst_at s i)}) \<union> (if p > 0 then {p} else {})"
  using assms unfolding live_pids_set inst_at_set_pid[OF assms] by (auto simp: table_ok_def inst_at_set_pid[OF assms] split: if_splits)

section \<open>Spawning\<close>

definition forks_succeed :: "('n, 'd) platform \<Rightarrow> bool" where
  "forks_succeed P \<longleftrightarrow> (\<forall>n. 0 \<le> fst (p_fork P n))"

text \<open>
  From \<open>s\<close> to \<open>s'\<close> the instances in use and which are enabled stay the same, and while the process
  is not told to stop no enabled instance loses its child for good, if \<open>fork\<close> does not fail.
\<close>

definition kept :: "('n, 'd) platform \<Rightarrow> ('n, 'd) manager \<Rightarrow> ('n, 'd) manager \<Rightarrow> bool" where
  "kept P s s' \<longleftrightarrow> active s' = active s \<and> (\<forall>i \<in> set (active s). enabled (inst_at s' i) = enabled (inst_at s i)) \<and>
     (still_running P (m_net s') \<longrightarrow> still_running P (m_net s)) \<and>
     (forks_succeed P \<and> still_running P (m_net s') \<longrightarrow>
        (\<forall>i \<in> set (active s). enabled (inst_at s i) \<and> pid (inst_at s i) > 0 \<longrightarrow> pid (inst_at s' i) > 0))"

lemma kept_refl [simp]: "kept P s s"
  by (simp add: kept_def)

lemma kept_trans: "kept P s1 s2 \<Longrightarrow> kept P s2 s3 \<Longrightarrow> kept P s1 s3"
  by (simp add: kept_def)

lemma kept_net: "same_kids P kids (m_net s) n \<Longrightarrow> kept P s (s\<lparr>m_net := n\<rparr>)"
  by (simp add: kept_def same_kids_def)

lemma spawn_keeps:
  assumes ok: "proc_ok P kids" and inv: "kids_inv kids s" "i \<in> set (active s)" "pid (inst_at s i) \<le> 0"
    and r: "spawn_instance P i s = Ret (Cont (p, s'))"
  shows "kids_inv kids s' \<and> active s' = active s \<and> (\<forall>j. j \<noteq> i \<longrightarrow> inst_at s' j = inst_at s j) \<and>
    enabled (inst_at s' i) = enabled (inst_at s i) \<and> (still_running P (m_net s') \<longrightarrow> still_running P (m_net s)) \<and>
    (forks_succeed P \<longrightarrow> pid (inst_at s' i) > 0)"
proof -
  obtain p0 n1 where f: "p_fork P (m_net s) = (p0, n1)" by fastforce
  note k = ok[unfolded proc_ok_def, THEN conjunct1, rule_format, OF f]
  have p0: "p0 \<noteq> 0" using r f by (auto simp: spawn_instance_def Let_def bind_out_Ret_iff)
  note t = inv(1)[unfolded kids_inv_def]
  show ?thesis
  proof (cases "p0 < 0")
    case True
    then have s': "s' = s\<lparr>m_net := n1\<rparr>" using r f by (auto simp: spawn_instance_def Let_def)
    have "\<not> forks_succeed P" using f True by (auto simp: forks_succeed_def intro!: exI[of _ "m_net s"])
    with s' k True t show ?thesis by (simp add: kids_inv_def)
  next
    case False
    then have s': "s' = set_pid i p0 (s\<lparr>m_net := n1\<rparr>)" and p: "p0 > 0" using r f p0 by (auto simp: spawn_instance_def Let_def)
    have t1: "table_ok (s\<lparr>m_net := n1\<rparr>)" "i \<in> set (active (s\<lparr>m_net := n1\<rparr>))" using t inv(2) by simp_all
    have fresh: "p0 \<notin> set (live_pids s)" "kids n1 = insert p0 (set (live_pids s))" using k p t by simp_all
    have "table_ok s'" unfolding s' using fresh(1) by (intro set_pid_table[OF t1]) simp
    moreover have "set (live_pids s') = insert p0 (set (live_pids s))"
      unfolding s' live_set_pid[OF t1] using p inv(3) by (auto simp: live_pids_set)
    ultimately show ?thesis using s' p fresh(2) k by (simp add: kids_inv_def inst_at_set_pid[OF t1])
  qed
qed

lemma and_then_Cont: "and_then m f = Ret (Cont b) \<longleftrightarrow> (\<exists>a. m = Ret (Cont a) \<and> f a = Ret (Cont b))"
proof (cases m)
  case (Ret x)
  then show ?thesis by (cases x) simp_all
qed simp_all

lemma child_exited_keeps:
  assumes ok: "proc_ok P kids" and t: "table_ok s" and p: "p \<in> set (live_pids s)" "kids (m_net s) = set (live_pids s) - {p}"
    and r: "child_exited P p s = Ret (Cont s')"
  shows "kids_inv kids s' \<and> kept P s s'"
proof -
  from p(1) obtain j where j: "j \<in> set (active s)" "pid (inst_at s j) = p" "p > 0" by (auto simp: live_pids_set)
  obtain i where i: "find_child p s = Some i"
    using j first_index_None[of "\<lambda>i. pid (inst_at s i) = p" 0 "active s"] by (cases "find_child p s") (auto simp: find_child_def)
  from first_index_Some[OF i[unfolded find_child_def]] have ia: "i \<in> set (active s)" "pid (inst_at s i) = p"
    by (auto simp: active_def)
  define s1 where "s1 = set_pid i 0 s"
  have at1: "inst_at s1 k = (if k = i then (inst_at s i)\<lparr>pid := 0\<rparr> else inst_at s k)" "m_net s1 = m_net s" "active s1 = active s" for k
    by (simp_all add: s1_def inst_at_set_pid[OF t ia(1)])
  have inv1: "kids_inv kids s1"
    using set_pid_table[OF t ia(1), of 0] live_set_pid[OF t ia(1), of 0] p(2) ia(2) by (simp add: kids_inv_def s1_def)
  show ?thesis
  proof (cases "still_running P (m_net s) \<and> enabled (inst_at s i)")
    case False
    then have "s' = s1" using r i by (auto simp: child_exited_def Let_def s1_def[symmetric] at1 split: if_splits)
    then show ?thesis using inv1 False at1 by (auto simp: kept_def)
  next
    case True
    define s2 where "s2 = s1\<lparr>m_net := p_sleep P (m_net s)\<rparr>"
    have sl: "same_kids P kids (m_net s1) (p_sleep P (m_net s1))" by (rule proc_okD(3)[OF ok])
    have inv2: "kids_inv kids s2" "i \<in> set (active s2)" "pid (inst_at s2 i) \<le> 0"
      using inv1 sl ia(1) by (simp_all add: s2_def kids_inv_def same_kids_def at1)
    obtain q where q: "spawn_instance P i s2 = Ret (Cont (q, s'))"
      using r i True by (auto simp: child_exited_def Let_def s1_def[symmetric] s2_def[symmetric] at1 and_then_Cont)
    from spawn_keeps[OF ok inv2 q] sl show ?thesis
      by (auto simp: kept_def s2_def at1 same_kids_def)
  qed
qed

lemma check_children_keeps:
  fixes P :: "('n, 'd) platform"
  assumes ok: "proc_ok P kids" and inv: "kids_inv kids s" and r: "check_children P s = Some (Ret (Cont s'))"
  shows "kids_inv kids s' \<and> kept P s s'"
proof -
  let ?Q = "\<lambda>P' (s :: ('n, 'd) manager) (r :: ('n, 'd) step). P' = P \<longrightarrow> kids_inv kids s \<longrightarrow> (\<forall>s'. r = Ret (Cont s') \<longrightarrow> kids_inv kids s' \<and> kept P s s')"
  have "?Q P s (Ret (Cont s'))"
  proof (rule check_children.raw_induct[OF _ r, where P = ?Q], intro impI allI)
    fix cc P' s r s'
    assume IH: "\<And>P' s r. cc P' s = Some r \<Longrightarrow> ?Q P' s r"
      and step: "(case p_waitpid_any P' (m_net s) of (p, n1) \<Rightarrow> if p > 0 then
         (case child_exited P' p (s\<lparr>m_net := n1\<rparr>) of Ret (Exited code w) \<Rightarrow> Some (Ret (Exited code w)) | Ret (Cont s1) \<Rightarrow> cc P' s1
          | Undefined \<Rightarrow> Some Undefined | Killed \<Rightarrow> Some Killed | Diverges \<Rightarrow> Some Diverges)
       else Some (Ret (Cont (s\<lparr>m_net := n1\<rparr>)))) = Some r"
      and eq: "P' = P" and i: "kids_inv kids s" and rr: "r = Ret (Cont s')"
    obtain p n1 where w: "p_waitpid_any P (m_net s) = (p, n1)" by fastforce
    have k: "still_running P n1 \<longrightarrow> still_running P (m_net s)" "if p > 0 then p \<in> kids (m_net s) \<and> kids n1 = kids (m_net s) - {p} else kids n1 = kids (m_net s)"
      using ok w unfolding proc_ok_def by blast+
    have kn: "kept P s (s\<lparr>m_net := n1\<rparr>)" using k(1) by (simp add: kept_def)
    show "kids_inv kids s' \<and> kept P s s'"
    proof (cases "p > 0")
      case False
      then show ?thesis using step rr eq w k i kn by (auto simp: kids_inv_def)
    next
      case True
      then obtain s1 where c: "child_exited P p (s\<lparr>m_net := n1\<rparr>) = Ret (Cont s1)" "cc P s1 = Some r"
        using step rr eq w by (auto split: outcome.splits proc.splits)
      have "kids_inv kids s1 \<and> kept P (s\<lparr>m_net := n1\<rparr>) s1"
        using child_exited_keeps[OF ok _ _ _ c(1)] k True i by (simp add: kids_inv_def)
      with IH[OF c(2)] rr kept_trans[OF kn] kept_trans show ?thesis by blast
    qed
  qed
  with inv show ?thesis by blast
qed

text \<open>
  C16. Reaping keeps the books: after \<open>check_children\<close> the positive pids in the table are again
  exactly the children not waited for, no two instances share one, and unless the process has
  been told to stop every enabled instance that had a child has one, if \<open>fork\<close> does not fail. Restarts are neither
  limited nor optional, although the example configuration and the architecture document say so.
\<close>

theorem children_accounted:
  assumes "proc_ok P kids" "kids_inv kids s" "check_children P s = Some (Ret (Cont s'))"
  shows "kids_inv kids s' \<and> (forks_succeed P \<and> still_running P (m_net s') \<longrightarrow>
    (\<forall>i \<in> set (active s). enabled (inst_at s i) \<and> pid (inst_at s i) > 0 \<longrightarrow> pid (inst_at s' i) > 0))"
  using check_children_keeps[OF assms] by (simp add: kept_def)

section \<open>The life of the manager\<close>

lemma loop_keeps_kids:
  fixes P :: "('n, 'd) platform"
  assumes ok: "proc_ok P kids" and inv: "kids_inv kids s" and r: "manager_loop P s = Some (Ret (Cont s'))"
  shows "kids_inv kids s' \<and> \<not> still_running P (m_net s')"
proof -
  let ?Q = "\<lambda>P' (s :: ('n, 'd) manager) (r :: ('n, 'd) step). P' = P \<longrightarrow> kids_inv kids s \<longrightarrow> (\<forall>s'. r = Ret (Cont s') \<longrightarrow> kids_inv kids s' \<and> \<not> still_running P (m_net s'))"
  have "?Q P s (Ret (Cont s'))"
  proof (rule manager_loop.raw_induct[OF _ r, where P = ?Q], intro impI allI)
    fix loop P' s r s'
    assume IH: "\<And>P' s r. loop P' s = Some r \<Longrightarrow> ?Q P' s r"
      and step: "(if \<not> still_running P' (m_net s) then Some (Ret (Cont s))
        else case check_children P' s of None \<Rightarrow> None
         | Some (Ret (Exited code w)) \<Rightarrow> Some (Ret (Exited code w))
         | Some (Ret (Cont s1)) \<Rightarrow> let s2 = check_reload P' s1 in loop P' (s2\<lparr>m_net := p_sleep P' (m_net s2)\<rparr>)
         | Some Undefined \<Rightarrow> Some Undefined | Some Killed \<Rightarrow> Some Killed | Some Diverges \<Rightarrow> Some Diverges) = Some r"
      and eq: "P' = P" and i: "kids_inv kids s" and rr: "r = Ret (Cont s')"
    show "kids_inv kids s' \<and> \<not> still_running P (m_net s')"
    proof (cases "still_running P (m_net s)")
      case False
      then show ?thesis using step eq i rr by simp
    next
      case True
      then obtain s1 where c: "check_children P s = Some (Ret (Cont s1))"
        "loop P ((check_reload P s1)\<lparr>m_net := p_sleep P (m_net (check_reload P s1))\<rparr>) = Some r"
        using step eq rr by (auto simp: Let_def split: option.splits outcome.splits proc.splits)
      have "m_net (check_reload P s1) = m_net s1" "m_config (check_reload P s1) = m_config s1" by (simp_all add: check_reload_def)
      moreover have "same_kids P kids n (p_sleep P n)" for n by (rule proc_okD(3)[OF ok])
      moreover have "kids_inv kids s1" using check_children_keeps[OF ok i c(1)] by simp
      ultimately have "kids_inv kids ((check_reload P s1)\<lparr>m_net := p_sleep P (m_net (check_reload P s1))\<rparr>)"
        by (simp add: kids_inv_def same_kids_def table_ok_def live_pids_def inst_at_def active_def)
      with IH[OF c(2)] rr show ?thesis by blast
    qed
  qed
  with inv show ?thesis by blast
qed

lemma wait_children_kids: "proc_ok P kids \<Longrightarrow> wait_children P ps n = Ret n' \<Longrightarrow> kids n' = kids n - set ps"
  by (induction ps arbitrary: n) (auto dest: proc_okD(1) split: option.splits)

lemma fold_kill_kids: "proc_ok P kids \<Longrightarrow> kids (fold (\<lambda>p n. p_kill P n p) ps n) = kids n"
  using proc_okD(2)[of P kids] by (induction ps arbitrary: n) (simp_all add: same_kids_def)

lemma stop_reaps: "proc_ok P kids \<Longrightarrow> kids_inv kids s \<Longrightarrow> stop_children P s = Ret s' \<Longrightarrow> kids (m_net s') = {}"
  using wait_children_kids[of P kids "live_pids s"] fold_kill_kids[of P kids "live_pids s" "m_net s"]
  by (auto simp: stop_children_def bind_out_Ret_iff kids_inv_def)

lemma spawn_enabled_keeps:
  assumes "proc_ok P kids" "kids_inv kids s" "distinct is" "set is \<subseteq> set (active s)" "\<forall>i \<in> set is. pid (inst_at s i) \<le> 0"
    "spawn_enabled P is s = Ret (Cont s')"
  shows "kids_inv kids s' \<and> active s' = active s \<and> (\<forall>j. j \<notin> set is \<longrightarrow> inst_at s' j = inst_at s j) \<and>
    (\<forall>j \<in> set is. enabled (inst_at s' j) = enabled (inst_at s j) \<and>
       (if enabled (inst_at s j) then forks_succeed P \<longrightarrow> pid (inst_at s' j) > 0 else pid (inst_at s' j) \<le> 0))"
  using assms
proof (induction "is" arbitrary: s)
  case (Cons i "is")
  show ?case
  proof (cases "enabled (inst_at s i)")
    case False
    with Cons.prems have r: "spawn_enabled P is s = Ret (Cont s')" by simp
    from Cons.IH[OF Cons.prems(1,2) _ _ _ r] Cons.prems False show ?thesis by auto
  next
    case True
    with Cons.prems(6) obtain p s1 where s1: "spawn_instance P i s = Ret (Cont (p, s1))" "spawn_enabled P is s1 = Ret (Cont s')"
      by (auto simp: and_then_Cont)
    from spawn_keeps[OF Cons.prems(1,2) _ _ s1(1)] Cons.prems have k: "kids_inv kids s1" "active s1 = active s" "\<forall>j. j \<noteq> i \<longrightarrow> inst_at s1 j = inst_at s j"
      "enabled (inst_at s1 i) = enabled (inst_at s i)" "forks_succeed P \<longrightarrow> pid (inst_at s1 i) > 0" by simp_all
    have "\<forall>j \<in> set is. inst_at s1 j = inst_at s j" using k(3) Cons.prems(3) by auto
    with Cons.IH[OF Cons.prems(1) k(1) _ _ _ s1(2)] Cons.prems(3-5) k True show ?thesis by auto
  qed
qed simp

text \<open>
  After the first round of spawns in the parent, exactly the enabled instances have a child,
  each its own, and the process has no other children, if \<open>fork\<close> does not fail.
\<close>

theorem spawns_enabled:
  assumes "proc_ok P kids" "forks_succeed P" "kids_inv kids s" "\<forall>i \<in> set (active s). pid (inst_at s i) \<le> 0"
    "spawn_enabled P (active s) s = Ret (Cont s')"
  shows "kids_inv kids s' \<and> (\<forall>i \<in> set (active s). pid (inst_at s' i) > 0 \<longleftrightarrow> enabled (inst_at s i))"
  using spawn_enabled_keeps[OF assms(1,3) _ _ assms(4,5)] assms(2) by (auto simp: active_def split: if_splits)

section \<open>The main function\<close>

definition unspawned :: "xvc_global_config_t \<Rightarrow> bool" where
  "unspawned c \<longleftrightarrow> instance_count c \<le> int (length (instances c)) \<and> length (instances c) = MAX_INSTANCES \<and>
     (\<forall>inst \<in> set (instances c). pid inst = 0)"

lemma on_instance_unspawned:
  assumes "unspawned c" "valid_id i" "\<And>inst. pid (f inst) = pid inst"
  shows "unspawned (on_instance i f c)"
proof -
  have "nat (i - 1) < length (instances c)" using assms(1,2) by (auto simp: unspawned_def valid_id_def nat_less_iff)
  then show ?thesis using assms by (auto simp: unspawned_def on_instance_def dest!: set_update_subset_insert[THEN subsetD])
qed

lemma keyed_unspawned:
  "unspawned c \<Longrightarrow> (\<And>s inst. pid (f s inst) = pid inst) \<Longrightarrow> unspawned (keyed_entry key f c)"
  by (simp add: keyed_entry_def Let_def on_instance_unspawned split: option.splits)

lemma entries_unspawned:
  assumes "unspawned c"
  shows "unspawned (management_entry key v c)" "unspawned (settings_entry key v c)" "unspawned (alias_entry key v c)"
    "unspawned (whitelist_entry key v c)"
  using assms
  by (simp_all add: management_entry_def settings_entry_def alias_entry_def whitelist_entry_def Let_def on_instance_unspawned
      apply_setting_def whitelist_setting_def keyed_unspawned) (simp add: unspawned_def)

lemma mapping_unspawned:
  assumes "unspawned c" "mapping_entry key v c = Ret c'"
  shows "unspawned c'"
proof (cases "valid_id (atoi key)")
  case True
  define c1 where "c1 = on_instance (atoi key) (\<lambda>inst. inst\<lparr>enabled := True, port := base_port c + atoi key - 1,
                                           device_id := snd (config_parse_device_id v)\<rparr>) c"
  have c1: "unspawned c1" unfolding c1_def by (rule on_instance_unspawned[OF assms(1) True]) simp
  have "c' = (if atoi key > instance_count c then c1\<lparr>instance_count := atoi key\<rparr> else c1)"
    using True assms(2) by (auto simp: mapping_entry_def Let_def c1_def split: if_splits)
  then show ?thesis using c1 True by (auto simp: unspawned_def valid_id_def)
qed (use assms in \<open>simp add: mapping_entry_def Let_def\<close>)

lemma apply_unspawned:
  assumes "unspawned c" "config_apply it (sec, c) = Ret (sec', c')"
  shows "unspawned c'"
proof (cases it)
  case (Entry key v)
  then show ?thesis using assms entries_unspawned[OF assms(1), of key v] mapping_unspawned[OF assms(1), of key v]
    by (cases sec) (auto simp: bind_out_Ret_iff)
qed (use assms in auto)

lemma lines_unspawned:
  "unspawned c \<Longrightarrow> config_lines content (sec, c) = Ret (sec', c') \<Longrightarrow> unspawned c'"
proof (induction content arbitrary: sec c rule: length_induct)
  case (1 content)
  show ?case
  proof (cases "fgets LINE_SIZE content")
    case None
    then show ?thesis using 1(2,3) by (simp add: config_lines.simps)
  next
    case (Some p)
    obtain line rest where p: "p = (line, rest)" by (cases p)
    with Some 1(3) obtain sec1 c1 where a: "config_apply (config_item_of (c_str line)) (sec, c) = Ret (sec1, c1)"
      "config_lines rest (sec1, c1) = Ret (sec', c')" by (auto simp: config_lines.simps[of content] bind_out_Ret_iff)
    have "length rest < length content" using Some p by (auto simp: LINE_SIZE_def dest: fgets_rest)
    with 1(1) a(2) apply_unspawned[OF 1(2) a(1)] show ?thesis by blast
  qed
qed

lemma load_unspawned: "config_load fopen path c0 = Ret (0, c) \<Longrightarrow> unspawned c"
proof -
  have "unspawned config_init" by (auto simp: unspawned_def config_init_def default_instance_def MAX_INSTANCES_def)
  then show "config_load fopen path c0 = Ret (0, c) \<Longrightarrow> unspawned c"
    by (auto simp: config_load_def bind_out_Ret_iff dest: lines_unspawned split: option.splits)
qed

lemma override_unspawned:
  assumes "unspawned c" "override_ports p c = Ret c'"
  shows "unspawned c' \<and> instance_count c' = instance_count c \<and> (\<forall>i < length (instances c). enabled (instances c' ! i) = enabled (instances c ! i))"
proof -
  have "pid (instances c ! i) = 0" if "i < MAX_INSTANCES" for i using assms(1) that by (auto simp: unspawned_def)
  with assms show ?thesis by (auto simp: override_ports_def unspawned_def split: if_splits)
qed

text \<open>The manager's first state.\<close>

lemma fresh_manager:
  assumes "unspawned c" "kids n = {}" "s = \<lparr>m_config = c, m_net = n, m_dev = d, m_mem = m, m_reloads = 0\<rparr>"
  shows "kids_inv kids s" "\<forall>i \<in> set (active s). pid (inst_at s i) \<le> 0"
proof -
  have z: "pid (inst_at s i) = 0" if "i \<in> set (active s)" for i
    using that assms(1,3) by (auto simp: inst_at_def unspawned_def)
  then show "\<forall>i \<in> set (active s). pid (inst_at s i) \<le> 0" by simp
  from z have "table_ok s" using assms(1,3) by (simp add: table_ok_def unspawned_def)
  moreover have "set (live_pids s) = {}" using z by (auto simp: live_pids_set)
  ultimately show "kids_inv kids s" using assms(2,3) by (simp add: kids_inv_def)
qed

text \<open>Multi-instance mode in the parent.\<close>

lemma run_manager_reaps:
  assumes ok: "proc_ok P kids" and c: "unspawned c" "kids n = {}" and s: "s = \<lparr>m_config = c, m_net = n, m_dev = d, m_mem = m, m_reloads = 0\<rparr>"
    and multi: "\<not> (instance_count c = 1 \<and> enabled (instances c ! 0))" and r: "run_manager P s = Ret (Cont (code, n', d', m'))"
  shows "code = 0 \<and> kids n' = {}"
proof -
  note init = fresh_manager[of c kids n s, OF c s]
  from r multi obtain s1 s2 where s1: "spawn_enabled P (active s) s = Ret (Cont s1)" and s2: "manager_loop P s1 = Some (Ret (Cont s2))"
    and e: "code = 0" "\<exists>s3. stop_children P s2 = Ret s3 \<and> n' = m_net s3"
    by (auto simp: run_manager_def s inst_at_def and_then_Cont bind_out_Ret_iff split: option.splits)
  have "kids_inv kids s1" using spawn_enabled_keeps[OF ok init(1) _ _ init(2) s1] by (simp add: active_def)
  from loop_keeps_kids[OF ok this s2] stop_reaps[OF ok] e show ?thesis by blast
qed

text \<open>
  C15. When the server's main function returns in multi-instance mode, or returns early because of
  its options, the process has no child it has not waited for: every instance that was spawned
  or restarted has been reaped.
\<close>

theorem main_reaps_children:
  assumes ok: "proc_ok P kids" and k: "kids n = {}"
    and multi: "\<And>c. config_load fopen (hd operands) c0 = Ret (0, c) \<Longrightarrow> \<not> (instance_count c = 1 \<and> enabled (instances c ! 0))"
    and r: "main P fopen c0 g prog args operands (n, d, m) = Ret (Cont e)"
  shows "kids (fst (main_world e)) = {}"
proof (cases "server_options prog args \<lparr>srv_daemonize = False, srv_verbose = 0, srv_port = 0\<rparr>")
  case (Inl p)
  then show ?thesis using r k by (cases p) (auto simp: main_def)
next
  case (Inr o')
  show ?thesis
  proof (cases "operands = []")
    case True
    then show ?thesis using r k Inr by (auto simp: main_def)
  next
    case False
    define g1 where "g1 = snd (log_init True True (server_log o') g)"
    obtain dm n1 where dm: "(if srv_daemonize o' then p_daemon P n else (0, n)) = (dm, n1)" by fastforce
    have n1: "kids n1 = {}" using dm k proc_okD(4)[OF ok, of n] by (auto simp: same_kids_def split: if_splits)
    obtain code c where l: "config_load fopen (hd operands) c0 = Ret (code, c)"
      using r Inr False by (auto simp: main_def Let_def bind_out_Ret_iff)
    have code: "code = 0 \<or> code = -1" using l by (auto simp: config_load_def bind_out_Ret_iff split: option.splits)
    show ?thesis
    proof (cases "code < 0 \<or> dm < 0")
      case True
      then show ?thesis using r Inr False l dm k n1 by (auto simp: main_def Let_def bind_out_Ret_iff split: if_splits)
    next
      case ok2: False
      with code have l: "config_load fopen (hd operands) c0 = Ret (0, c)" using l by auto
      from r Inr False l dm ok2 obtain c1 code' n' d' m' where c1: "override_ports (srv_port o') c = Ret c1"
        and rm: "run_manager P \<lparr>m_config = c1, m_net = n1, m_dev = d, m_mem = m, m_reloads = 0\<rparr> = Ret (Cont (code', n', d', m'))"
        and e: "main_world e = (n', d', m')"
        by (auto simp: main_def Let_def bind_out_Ret_iff and_then_Cont)
      note u = load_unspawned[OF l] override_unspawned[OF load_unspawned[OF l] c1]
      have "\<not> (instance_count c1 = 1 \<and> enabled (instances c1 ! 0))" using multi[OF l] u by (auto simp: unspawned_def MAX_INSTANCES_def)
      from run_manager_reaps[OF ok _ n1 refl this rm] u e show ?thesis by simp
    qed
  qed
qed

end
