(* ===== verification/Manager_Ends.thy ===== *)
theory Manager_Ends
  imports Instance_Ends Manager_Props
begin

text \<open>
  The whole program ends after a stop signal: the children's processes, because an instance ends;
  the loop that reaps children, because it waits a second before every restart and otherwise
  has one child less to reap; the manager's loop, because it sleeps in every round.
\<close>

section \<open>Time\<close>

text \<open>
  \<open>ticks n\<close> bounds how many seconds of sleep, or calls of \<open>select\<close>, it takes until the stop
  signal has been handled; no other call of the operating system puts the signal off.
\<close>

definition stop_comes :: "('n, 'd) platform \<Rightarrow> ('n \<Rightarrow> nat) \<Rightarrow> bool" where
  "stop_comes P ticks \<longleftrightarrow> stops_within (p_os P) (p_net P) (still_running P) ticks \<and>
     (\<forall>n. ticks (p_sleep P n) \<le> ticks n - 1) \<and> (\<forall>n. ticks (snd (p_fork P n)) \<le> ticks n) \<and>
     (\<forall>n. ticks (snd (p_waitpid_any P n)) \<le> ticks n)"

text \<open>
  \<open>waitpid\<close> without options blocks only on a child that does not end, that is, if some run of an
  instance does not.
\<close>

definition waits_end :: "('n, 'd) platform \<Rightarrow> bool" where
  "waits_end P \<longleftrightarrow> (\<forall>n p. p_waitpid P n p = None \<longrightarrow> (\<exists>conf w. run_here P conf w = Diverges))"

lemma stop_comesD:
  assumes "stop_comes P ticks"
  shows "still_running P n \<Longrightarrow> 0 < ticks n" "ticks (p_sleep P n) \<le> ticks n - 1"
    "p_fork P n = (p, n') \<Longrightarrow> ticks n' \<le> ticks n" "p_waitpid_any P n = (p, n') \<Longrightarrow> ticks n' \<le> ticks n"
    "stops_within (p_os P) (p_net P) (still_running P) ticks"
proof -
  have c: "stops_within (p_os P) (p_net P) (still_running P) ticks" "ticks (p_sleep P n) \<le> ticks n - 1"
      "ticks (snd (p_fork P n)) \<le> ticks n" "ticks (snd (p_waitpid_any P n)) \<le> ticks n"
    using assms unfolding stop_comes_def by blast+
  then show "stops_within (p_os P) (p_net P) (still_running P) ticks" "ticks (p_sleep P n) \<le> ticks n - 1" by blast+
  show "still_running P n \<Longrightarrow> 0 < ticks n" by (rule stops_withinD(1)[OF c(1)])
  show "p_fork P n = (p, n') \<Longrightarrow> ticks n' \<le> ticks n" "p_waitpid_any P n = (p, n') \<Longrightarrow> ticks n' \<le> ticks n"
    using c(3,4) by auto
qed

fun cont_in :: "('a \<Rightarrow> bool) \<Rightarrow> ('w, 'a) proc \<Rightarrow> bool" where
  "cont_in R (Cont a) = R a"
| "cont_in R (Exited code w) = True"

lemma and_then_ends:
  "ends_in (cont_in R) m \<Longrightarrow> (\<And>a. R a \<Longrightarrow> ends_in (cont_in S) (f a)) \<Longrightarrow> ends_in (cont_in S) (and_then m f)"
  by (cases "(m, f)" rule: and_then.cases) auto

section \<open>Children\<close>

definition env_ok :: "('n, 'd) platform \<Rightarrow> ('n \<Rightarrow> nat) \<Rightarrow> ('n \<Rightarrow> nat) \<Rightarrow> bool" where
  "env_ok P left ticks \<longleftrightarrow> driver_reads (p_drv P) \<and> finite_input (p_net P) left \<and> never_blocks (p_net P) \<and> waits_end P \<and> stop_comes P ticks"

lemma run_here_ends: "env_ok P left ticks \<Longrightarrow> run_here P conf w \<noteq> Diverges"
  by (cases w) (auto simp: env_ok_def run_here_def dest!: instance_ends[OF _ _ _ stop_comesD(5)])

lemma env_stop: "env_ok P left ticks \<Longrightarrow> stop_comes P ticks"
  by (simp add: env_ok_def)

lemma wait_children_ends: "env_ok P left ticks \<Longrightarrow> wait_children P ps n \<noteq> Diverges"
proof (induction ps arbitrary: n)
  case (Cons p ps)
  then have "p_waitpid P n p \<noteq> None" using run_here_ends[OF Cons.prems] by (fastforce simp: env_ok_def waits_end_def)
  with Cons show ?case by auto
qed simp

lemma spawn_ends:
  assumes "env_ok P left ticks"
  shows "ends_in (cont_in (\<lambda>(_, s'). ticks (m_net s') \<le> ticks (m_net s))) (spawn_instance P i s)"
proof -
  obtain p n1 where f: "p_fork P (m_net s) = (p, n1)" by fastforce
  have t: "ticks n1 \<le> ticks (m_net s)" using stop_comesD(3)[OF _ f] assms by (simp add: env_ok_def)
  have "ends_in (\<lambda>_. True) (run_here P c w)" for c w using run_here_ends[OF assms] by (simp add: ends_in_iff)
  then show ?thesis using t f by (auto simp: spawn_instance_def Let_def intro!: ends_in_bind)
qed

text \<open>One reaped child: nothing happens in the world, or a second passes before the restart.\<close>

lemma child_exited_ends:
  assumes "env_ok P left ticks"
  shows "ends_in (cont_in (\<lambda>s'. m_net s' = m_net s \<or> ticks (m_net s') < ticks (m_net s))) (child_exited P p s)"
proof (cases "find_child p s")
  case (Some i)
  let ?s1 = "set_pid i 0 s"
  let ?s2 = "?s1\<lparr>m_net := p_sleep P (m_net ?s1)\<rparr>"
  note stop = env_stop[OF assms]
  have less: "ticks (m_net ?s2) < ticks (m_net s)" if "still_running P (m_net s)"
    using stop_comesD(1,2)[OF stop, of "m_net s"] that by simp
  have "ends_in (cont_in (\<lambda>s'. m_net s' = m_net s \<or> ticks (m_net s') < ticks (m_net s)))
      (and_then (spawn_instance P i ?s2) (\<lambda>(_, s2). Ret (Cont s2)))" if "still_running P (m_net s)"
    using less[OF that] by (intro and_then_ends[OF spawn_ends[OF assms]]) auto
  then show ?thesis using Some by (simp add: child_exited_def Let_def)
qed (simp add: child_exited_def)

lemma check_children_ends:
  assumes env: "env_ok P left ticks" and ok: "proc_ok P kids" and fin: "\<And>n. finite (kids n)"
  shows "\<exists>r. check_children P s = Some r \<and> ends_in (cont_in (\<lambda>s'. ticks (m_net s') \<le> ticks (m_net s))) r"
proof (induction "(ticks (m_net s), card (kids (m_net s)))" arbitrary: s
    rule: wf_induct_rule[OF wf_lex_prod[OF wf_less_than wf_less_than]])
  case (1 s)
  note stop = env_stop[OF env]
  obtain p n1 where w: "p_waitpid_any P (m_net s) = (p, n1)" by fastforce
  have t: "ticks n1 \<le> ticks (m_net s)" using stop_comesD(4)[OF stop w] .
  show ?case
  proof (cases "p > 0")
    case False
    then show ?thesis using w t by (subst check_children.simps) simp
  next
    case True
    then have "p \<in> kids (m_net s)" "kids n1 = kids (m_net s) - {p}" using ok w unfolding proc_ok_def by metis+
    then have less: "card (kids n1) < card (kids (m_net s))" using fin by (metis card_Diff1_less)
    note c = child_exited_ends[OF env, of "s\<lparr>m_net := n1\<rparr>" p]
    show ?thesis
    proof (cases "child_exited P p (s\<lparr>m_net := n1\<rparr>)")
      case (Ret x)
      show ?thesis
      proof (cases x)
        case (Cont s1)
        with c Ret have s1: "m_net s1 = n1 \<or> ticks (m_net s1) < ticks n1" by simp
        then have "((ticks (m_net s1), card (kids (m_net s1))), (ticks (m_net s), card (kids (m_net s)))) \<in> less_than <*lex*> less_than"
          using t less by auto
        from 1[OF this] obtain r where "check_children P s1 = Some r" "ends_in (cont_in (\<lambda>s'. ticks (m_net s') \<le> ticks (m_net s1))) r" by blast
        moreover have "ticks (m_net s1) \<le> ticks (m_net s)" using s1 t by auto
        ultimately show ?thesis using True w Ret Cont
          by (subst check_children.simps) (auto elim!: ends_in_mono cont_in.elims)
      qed (use True w Ret in \<open>subst check_children.simps, simp\<close>)
    qed (use True w c in \<open>subst check_children.simps, simp\<close>)+
  qed
qed

section \<open>The manager\<close>

lemma check_reload_net [simp]: "m_net (check_reload P s) = m_net s"
  by (simp add: check_reload_def)

lemma manager_loop_ends:
  assumes env: "env_ok P left ticks" and ok: "proc_ok P kids" and fin: "\<And>n. finite (kids n)"
  shows "\<exists>r. manager_loop P s = Some r \<and> ends_in (cont_in (\<lambda>_. True)) r"
proof (induction "ticks (m_net s)" arbitrary: s rule: less_induct)
  case less
  note stop = env_stop[OF env]
  show ?case
  proof (cases "still_running P (m_net s)")
    case False
    then show ?thesis by (subst manager_loop.simps) simp
  next
    case True
    obtain r where r: "check_children P s = Some r" "ends_in (cont_in (\<lambda>s'. ticks (m_net s') \<le> ticks (m_net s))) r"
      using check_children_ends[OF env ok fin] by blast
    have "\<exists>r. manager_loop P (s2\<lparr>m_net := p_sleep P (m_net s1)\<rparr>) = Some r \<and> ends_in (cont_in (\<lambda>_. True)) r"
      if "ticks (m_net s1) \<le> ticks (m_net s)" for s1 s2
      using that stop_comesD(1)[OF stop True] stop_comesD(2)[OF stop, of "m_net s1"] by (intro less) simp
    then show ?thesis using r True
      by (subst manager_loop.simps) (auto simp: Let_def split: outcome.splits proc.splits)
  qed
qed

lemma spawn_enabled_ends: "env_ok P left ticks \<Longrightarrow> ends_in (cont_in (\<lambda>_. True)) (spawn_enabled P is s)"
proof (induction "is" arbitrary: s)
  case (Cons i "is")
  then show ?case by (auto intro!: and_then_ends[OF spawn_ends])
qed simp

lemma run_manager_ends:
  assumes env: "env_ok P left ticks" and ok: "proc_ok P kids" and fin: "\<And>n. finite (kids n)"
  shows "ends_in (cont_in (\<lambda>_. True)) (run_manager P s)"
proof -
  have single: "ends_in (cont_in (\<lambda>_. True)) (bind_out (run_here P c w) (\<lambda>r. Ret (Cont r)))" for c w
    using run_here_ends[OF env, of c w] by (cases "run_here P c w") auto
  have "ends_in (cont_in (\<lambda>_. True)) (case manager_loop P s1 of None \<Rightarrow> Diverges
      | Some r \<Rightarrow> and_then r (\<lambda>s2. bind_out (stop_children P s2) (\<lambda>s3. Ret (Cont (0, m_net s3, m_dev s3, m_mem s3)))))" for s1
  proof -
    have "ends_in (\<lambda>_. True) (stop_children P s2)" for s2
      using wait_children_ends[OF env] by (auto simp: ends_in_iff stop_children_def bind_out_Diverges_iff)
    then show ?thesis using manager_loop_ends[OF env ok fin, of s1] by (auto intro!: and_then_ends ends_in_bind)
  qed
  then show ?thesis
    using single by (auto simp: run_manager_def intro!: and_then_ends[OF spawn_enabled_ends[OF env]])
qed

section \<open>The program\<close>

lemma config_apply_ends: "config_apply item st \<noteq> Diverges"
  by (cases "(item, st)" rule: config_apply.cases)
    (auto simp: mapping_entry_def Let_def bind_out_Diverges_iff split: section_t.splits if_splits)

lemma config_lines_ends: "config_lines str st \<noteq> Diverges"
proof (induction str st rule: config_lines.induct)
  case (1 str st)
  then show ?case
    by (subst config_lines.simps) (auto simp: bind_out_Diverges_iff config_apply_ends split: option.splits)
qed

lemma config_load_ends: "config_load fopen path c \<noteq> Diverges"
  by (auto simp: config_load_def bind_out_Diverges_iff config_lines_ends split: option.splits)

text \<open>
  C7. The server ends after a stop signal if no client stalls in the middle of a command: with drivers
  whose successful reads return data, clients that send finitely many bytes between two polls and never
  block a read or write for ever, finitely many children, a \<open>waitpid\<close> that blocks only on a child
  that does not end, and a stop signal that comes, the main function does not go on for ever, in the
  parent as in every child, for any command line, configuration file and configuration. It returns,
  the process exits or is ended by \<open>SIGPIPE\<close>, or a step with undefined behaviour is reached.
\<close>

theorem main_ends:
  assumes drv: "driver_reads (p_drv P)" and net: "finite_input (p_net P) left" "never_blocks (p_net P)" and wait: "waits_end P"
    and stop: "stop_comes P ticks" and ok: "proc_ok P kids" and fin: "\<And>n. finite (kids n)"
  shows "main P fopen c0 g prog args operands w \<noteq> Diverges"
proof -
  have env: "env_ok P left ticks" using drv net wait stop by (simp add: env_ok_def)
  have load: "ends_in (\<lambda>_. True) (config_load fopen path c)" for path c by (simp add: ends_in_iff config_load_ends)
  have ports: "ends_in (\<lambda>_. True) (override_ports p c)" for p c by (simp add: override_ports_def)
  have run: "ends_in (\<lambda>_. True) (and_then (run_manager P s) (\<lambda>(code, w). Ret (Cont (h code w))))" for s and h :: "_ \<Rightarrow> _ \<Rightarrow> 'x"
    using and_then_ends[OF run_manager_ends[OF env ok fin], where S = "\<lambda>_. True" and f = "\<lambda>(code, w). Ret (Cont (h code w))"]
    by (auto simp: ends_in_iff)
  have "ends_in (\<lambda>_. True) (main P fopen c0 g prog args operands w)"
    by (cases w) (auto simp: main_def Let_def run intro!: ends_in_bind[OF load] ends_in_bind[OF ports] split: sum.split prod.split)
  then show ?thesis by (simp add: ends_in_iff)
qed

end
