(* ===== verification/Manager_Instances.thy ===== *)
theory Manager_Instances
  imports Server_Instances Manager_Ends
begin

text \<open>
  A concrete set of processes: children that live or have ended, and a clock; the process is told
  to stop after two seconds. The witnesses of the manager's properties run on it.
\<close>

record town =
  alive :: "int list"
  zombies :: "int list"
  ticks :: nat

definition kids :: "town \<Rightarrow> int set" where
  "kids n = set (alive n) \<union> set (zombies n)"

definition bury :: "int \<Rightarrow> town \<Rightarrow> town" where
  "bury p n = n\<lparr>alive := filter (\<lambda>x. x \<noteq> p) (alive n), zombies := filter (\<lambda>x. x \<noteq> p) (zombies n)\<rparr>"

definition town_fork :: "town \<Rightarrow> int \<times> town" where
  "town_fork n = (let p = fresh_fd (alive n @ zombies n) in (p, n\<lparr>alive := p # alive n\<rparr>))"

definition town_wait :: "town \<Rightarrow> int \<times> town" where
  "town_wait n = (case filter (\<lambda>p. p > 0) (zombies n) of [] \<Rightarrow> (0, n) | p # _ \<Rightarrow> (p, bury p n))"

definition town_os :: "town os" where
  "town_os = \<lparr>os_socket = (\<lambda>n. (3, n)), os_bind = (\<lambda>n _ _. (0, n)), os_listen = (\<lambda>n _. (0, n)), os_accept = (\<lambda>n _. (-1, 0, n)),
     os_close = (\<lambda>n _. n), os_select = (\<lambda>n _ _ _. (Select_Timeout, n\<lparr>ticks := ticks n + 1\<rparr>)), os_time = (\<lambda>n. int (ticks n))\<rparr>"

definition town_platform :: "(town, bool chip) platform" where
  "town_platform = \<lparr>p_create_malloc = (\<lambda>_ _. None), p_malloc = (\<lambda>_ _. None), p_calloc_ok = True,
     p_net = \<lparr>net_read = (\<lambda>n _ _. (Closed, n)), net_write = (\<lambda>n _ _. (Wrote (-1), n))\<rparr>, p_drv = chip_driver bypass, p_os = town_os,
     p_signals = (\<lambda>n. if ticks n < 2 then [SIGCHLD] else [SIGCHLD, SIGTERM]),
     p_fork = town_fork, p_waitpid_any = town_wait, p_waitpid = (\<lambda>n p. Some (bury p n)), p_kill = (\<lambda>n p. n),
     p_sleep = (\<lambda>n. n\<lparr>ticks := ticks n + 1\<rparr>), p_daemon = (\<lambda>n. (0, n))\<rparr>"

lemma town_running: "still_running town_platform n \<longleftrightarrow> ticks n < 2"
  by (simp add: still_running_def town_platform_def flags_after_def signal_handler_def)

lemma town_ok: "proc_ok town_platform kids"
proof -
  have "(p > 0 \<longrightarrow> p \<in> kids n \<and> kids n' = kids n - {p}) \<and> (\<not> p > 0 \<longrightarrow> n' = n) \<and> ticks n' = ticks n" if "town_wait n = (p, n')" for n p n'
  proof (cases "filter (\<lambda>p. p > 0) (zombies n)")
    case (Cons q qs)
    then have "q \<in> set (filter (\<lambda>p. p > 0) (zombies n))" by (metis list.set_intros(1))
    then have "q \<in> set (zombies n)" "q > 0" by simp_all
    with that Cons show ?thesis by (auto simp: town_wait_def kids_def bury_def)
  qed (use that in \<open>auto simp: town_wait_def\<close>)
  moreover have "p > 0 \<and> p \<notin> kids n \<and> kids n' = insert p (kids n) \<and> ticks n' = ticks n" if "town_fork n = (p, n')" for n p n'
    using that fresh_fd(1)[of "alive n @ zombies n"] fold_max_ge[of 2 "alive n @ zombies n"]
    by (auto simp: town_fork_def Let_def kids_def fresh_fd_def)
  moreover have "kids (bury p n) = kids n - {p}" for p n by (auto simp: kids_def bury_def)
  ultimately show ?thesis
    unfolding proc_ok_def same_kids_def town_running by (auto simp: town_platform_def kids_def) 
qed

lemma town_forks: "forks_succeed town_platform"
  using fresh_fd(2) by (simp add: forks_succeed_def town_platform_def town_fork_def Let_def)

definition ex_manager :: "int list \<Rightarrow> int list \<Rightarrow> (town, bool chip) manager" where
  "ex_manager pids zs =
    \<lparr>m_config = config_init\<lparr>instances := map (\<lambda>p. (default_instance 0)\<lparr>enabled := True, pid := p\<rparr>) pids, instance_count := int (length pids)\<rparr>,
     m_net = \<lparr>alive = filter (\<lambda>p. p > 0 \<and> p \<notin> set zs) pids, zombies = zs, ticks = 0\<rparr>, m_dev = idle_chip, m_mem = Map.empty, m_reloads = 0\<rparr>"

text \<open>The child of the second of two instances has ended.\<close>

definition goes_on :: "('n, 'd) step option \<Rightarrow> bool" where
  "goes_on r = (case r of Some (Ret (Cont _)) \<Rightarrow> True | _ \<Rightarrow> False)"

lemma goes_onD: "goes_on r \<Longrightarrow> \<exists>s'. r = Some (Ret (Cont s'))"
  by (auto simp: goes_on_def split: option.splits outcome.splits proc.splits)

lemma ex_check: "goes_on (check_children town_platform (ex_manager [11, 12] [12]))"
  by code_simp

lemma ex_manager_inv: "kids_inv kids (ex_manager [11, 12] [12])"
  by (auto simp: kids_inv_def table_ok_def ex_manager_def inst_at_def active_def live_pids_def kids_def less_Suc_eq numeral_2_eq_2 upt_rec)

theorem children_accounted_witness:
  "\<exists>s'. check_children town_platform (ex_manager [11, 12] [12]) = Some (Ret (Cont s')) \<and> kids_inv kids s'"
proof -
  obtain s' where s': "check_children town_platform (ex_manager [11, 12] [12]) = Some (Ret (Cont s'))" using goes_onD[OF ex_check] by blast
  with children_accounted[OF town_ok ex_manager_inv s'] show ?thesis by simp
qed

text \<open>The first spawns of two instances.\<close>

lemma ex_fresh_inv: "kids_inv kids (ex_manager [0, 0] [])" "\<forall>i \<in> set (active (ex_manager [0, 0] [])). pid (inst_at (ex_manager [0, 0] []) i) \<le> 0"
  by (auto simp: kids_inv_def table_ok_def ex_manager_def inst_at_def active_def live_pids_def kids_def less_Suc_eq numeral_2_eq_2 upt_rec)

lemma ex_spawn: "goes_on (Some (spawn_enabled town_platform (active (ex_manager [0, 0] [])) (ex_manager [0, 0] [])))"
  by code_simp

theorem spawns_enabled_witness:
  "\<exists>s'. spawn_enabled town_platform (active (ex_manager [0, 0] [])) (ex_manager [0, 0] []) = Ret (Cont s') \<and> pid (inst_at s' 1) > 0"
proof -
  obtain s' where s': "spawn_enabled town_platform (active (ex_manager [0, 0] [])) (ex_manager [0, 0] []) = Ret (Cont s')"
    using goes_onD[OF ex_spawn] by blast
  have "1 \<in> set (active (ex_manager [0, 0] []))" "enabled (inst_at (ex_manager [0, 0] []) 1)" by (simp_all add: ex_manager_def inst_at_def)
  with spawns_enabled[OF town_ok town_forks ex_fresh_inv s'] s' show ?thesis by blast
qed

text \<open>The server on a file with two instances, told to stop after two seconds.\<close>

definition two_instances :: string where
  "two_instances = ''[instance_mappings]'' @ [NL] @ ''1 = SN:A'' @ [NL] @ ''2 = SN:B'' @ [NL]"

definition no_log :: g_log where
  "no_log = \<lparr>log_config = server_log \<lparr>srv_daemonize = False, srv_verbose = 0, srv_port = 0\<rparr>, log_handle = False, log_initialized = False\<rparr>"

definition returned :: "(('n, 'd) world, ('n, 'd) main_end) proc outcome \<Rightarrow> bool" where
  "returned r = (case r of Ret (Cont e) \<Rightarrow> main_code e = 0 | _ \<Rightarrow> False)"

definition ex_main :: "((town, bool chip) world, (town, bool chip) main_end) proc outcome" where
  "ex_main = main town_platform (\<lambda>_. Some two_instances) config_init no_log ''xvc-server'' [Srv_Verbose] [''xvc.conf'']
     (\<lparr>alive = [], zombies = [], ticks = 0\<rparr>, idle_chip, Map.empty)"

lemma ex_main_returns: "returned ex_main"
  by code_simp

lemma ex_main_count: "(case config_load (\<lambda>_. Some two_instances) ''xvc.conf'' config_init of Ret (code, c) \<Rightarrow> instance_count c = 2 | _ \<Rightarrow> False)"
  by code_simp

theorem main_reaps_children_witness: "\<exists>e. ex_main = Ret (Cont e) \<and> kids (fst (main_world e)) = {}"
proof -
  obtain e where e: "ex_main = Ret (Cont e)" using ex_main_returns by (auto simp: returned_def split: outcome.splits proc.splits)
  have m: "\<not> (instance_count c = 1 \<and> enabled (instances c ! 0))" if "config_load (\<lambda>_. Some two_instances) (hd [''xvc.conf'']) config_init = Ret (0, c)" for c
    using ex_main_count that by simp
  have "kids \<lparr>alive = [], zombies = [], ticks = 0\<rparr> = {}" by (simp add: kids_def)
  from main_reaps_children[OF town_ok this m e[unfolded ex_main_def]] e show ?thesis by blast
qed

lemma town_reads: "driver_reads (p_drv town_platform)" "finite_input (p_net town_platform) (\<lambda>_. 0)" "never_blocks (p_net town_platform)"
    "waits_end town_platform"
  using chip_driver_reads by (simp_all add: town_platform_def finite_input_def never_blocks_def waits_end_def)

lemma town_stops: "stop_comes town_platform (\<lambda>n. 2 - ticks n)"
proof -
  have "ticks (snd (town_wait n)) = ticks n" for n by (simp add: town_wait_def bury_def split: list.splits)
  moreover have "ticks (snd (town_fork n)) = ticks n" for n by (simp add: town_fork_def Let_def)
  ultimately show ?thesis
    unfolding stop_comes_def stops_within_def town_running by (auto simp: town_platform_def town_os_def)
qed

theorem main_ends_witness:
  "main town_platform (\<lambda>_. Some two_instances) config_init no_log ''xvc-server'' [Srv_Verbose] [''xvc.conf'']
     (\<lparr>alive = [], zombies = [], ticks = 0\<rparr>, idle_chip, Map.empty) \<noteq> Diverges"
proof -
  have "finite (kids n)" for n by (simp add: kids_def)
  then show ?thesis by (rule main_ends[OF town_reads town_stops town_ok])
qed

end
