(* ===== verification/Spec2Isabelle.thy ===== *)
theory Spec2Isabelle
  imports Discover_Round_Trip Manager_Instances
begin

text \<open>
  Verification of the XVC server for FTDI D2XX adapters (\<^verbatim>\<open>src/src\<close>, \<^verbatim>\<open>src/include\<close>).

  \<^bold>\<open>The program.\<close> \<open>xvc-server\<close> reads an INI file (\<^verbatim>\<open>config.c\<close>), starts one process per enabled
  instance (\<^verbatim>\<open>main.c\<close>) and restarts those that end. An instance opens an FTDI cable
  (\<^verbatim>\<open>ftdi_adapter.c\<close> over \<^verbatim>\<open>mpsse_adapter.c\<close>), listens on a TCP port (\<^verbatim>\<open>tcp_server.c\<close>, with
  \<^verbatim>\<open>whitelist.c\<close> deciding on addresses) and serves the Xilinx Virtual Cable protocol
  (\<^verbatim>\<open>xvc_protocol.c\<close>) on its connections: every shift command becomes MPSSE commands that clock the
  JTAG chain, and the captured TDO bits are the reply. \<open>xvc-discover\<close> (\<^verbatim>\<open>discover_main.c\<close> over
  \<^verbatim>\<open>device_manager.c\<close>) lists the cables and writes a configuration. \<^verbatim>\<open>logging.c\<close> formats messages.

  \<^bold>\<open>Theories.\<close>
  \<^item> \<open>Xvc_Prelude\<close>: the outcome of C code (a value, undefined behaviour, an execution that does not
    end, or the end of the process by \<open>SIGPIPE\<close>), memory blocks, word lemmas. \<open>C_Lib\<close>: the string and number functions of the C library.
  \<^item> \<open>Jtag_Tap\<close>: the TAP table of the protocol layer with its byte-wise tracking loop, the adapter's
    switch, and the locale \<open>tap_controller\<close> both interpret.
  \<^item> \<open>Bit_Buffer\<close>: \<open>get_bit\<close>, \<open>set_bit\<close>, \<open>copy_bits\<close> and \<^verbatim>\<open>bit_copy.h\<close> with its 32-bit arithmetic, over
    the locale \<open>bit_store\<close>.
  \<^item> \<open>Mpsse_Device\<close>: the command processor of the chip as an executable machine, and the D2XX driver
    as a record of functions; \<open>ideal_driver\<close> is its documented behaviour.
  \<^item> \<open>Mpsse_Buffer\<close>, \<open>Mpsse_Scan\<close>, \<open>Mpsse_Adapter\<close>: command buffer with receive observers and memory
    pool, command generation for TMS and TDI segments, open, close, frequency. \<open>Mpsse_Stream\<close>,
    \<open>Mpsse_Response\<close>, \<open>Mpsse_Correct\<close>, \<open>Mpsse_Reference\<close>: that a scan does to the chain what a bit by
    bit reference does. \<open>Mpsse_Bounds\<close>: capacities for any driver. \<open>Mpsse_Ends\<close>, \<open>Adapter_Ends\<close>: every
    operation of the two adapter layers comes to an end with any driver whose successful reads return
    data; the index of the data-shift loop moves in every pass. \<open>Mpsse_Dump\<close>: the hexadecimal dump of
    flushed commands, a record beside the context since no caller opens a dump file, and when it reads
    past the end of the vectors.
  \<^item> \<open>Scan_Port\<close>, \<open>Ftdi_Adapter\<close>: the contract of a scan as a locale, interpreted by the MPSSE adapter
    and by the adapter layer, and the chunked scan proved over it; opening and closing give back every
    handle, whichever call of the driver or of the allocator fails.
  \<^item> \<open>Xvc_Protocol\<close>, \<open>Xvc_Session\<close>, \<open>Xvc_Net\<close>: the protocol handler, its replies, and that it touches
    the network only through the socket. \<open>Xvc_Refinement\<close>: an abstract server on sequences of
    commands of all three kinds, which a whole call of the handler refines. \<open>Xvc_Ends\<close>: that a call of
    the handler ends if the socket does not block for ever: each command that keeps its loop going
    consumes bytes.
  \<^item> \<open>Config\<close>, \<open>Config_Props\<close>, \<open>Config_Round_Trip\<close>: the INI reader and writer, the invariant of what
    is loaded, and that a saved configuration is read back.
  \<^item> \<open>Whitelist\<close>: CIDR parsing and the access decision against a specification on networks.
  \<^item> \<open>Logging\<close>: levels, targets, message formatting.
  \<^item> \<open>Device_Manager\<close>, \<open>Discover\<close>, \<open>Discover_Round_Trip\<close>: scanning, ownership of devices as a
    refinement, the discovery tool, and that the server reads what the tool writes.
  \<^item> \<open>Tcp_Server\<close>, \<open>Tcp_Props\<close>: the connection table and the \<open>select\<close> loop; the invariant of the table
    and of the descriptors under the locale \<open>connection_callbacks\<close>. \<open>Tcp_Ends\<close>: polling and stopping
    end under the locale \<open>ending_callbacks\<close>.
  \<^item> \<open>Instance\<close>, \<open>Instance_Props\<close>: the instance process, its callbacks interpreting that locale, the
    client lock, and that no descriptor is lost. \<open>Instance_Ends\<close>: the callbacks interpret
    \<open>ending_callbacks\<close>, and the process ends after a stop signal if no client stalls. \<open>Instance_Serves\<close>: all layers
    together; a client is served from \<open>accept\<close> to the end of its connection, through the polls of
    the server, the callbacks, the handler and the adapter, with the replies of the abstract server;
    also when the callback has refused it, because of the lock or because another session is active.
    \<open>Instance_Stalls\<close>: a client that stops in the middle of a command hangs the event loop.
  \<^item> \<open>Manager\<close>, \<open>Manager_Props\<close>: signals, children, options and \<open>main\<close>; the table of children.
    \<open>Manager_Ends\<close>: under the same condition the whole program ends after a stop signal, in the
    parent and in every child.
  \<^item> \<open>Instances\<close>, \<open>Server_Instances\<close>, \<open>Manager_Instances\<close>: concrete chips, sockets, operating systems
    and processes on which the properties are applied.

  \<^bold>\<open>State and effects.\<close> Structures are records with the fields of the source, fixed arrays are lists,
  C strings are lists of characters up to the NUL. A function that may hit undefined behaviour
  (overflow of \<open>int\<close>, an index out of range, \<open>FD_SET\<close> beyond 1024, a negative size) returns an
  \<open>outcome\<close>. Loops that may not end are \<open>partial_function (option)\<close>; loops that end are proved to.
  The sockets are blocking: a \<open>read\<close> or \<open>write\<close> that waits for ever and a \<open>waitpid\<close> for a child that
  does not end are the outcome \<open>Diverges\<close>, like a loop that does not end, and a \<open>write\<close> to a closed
  connection may be \<open>Killed\<close>, since nothing ignores \<open>SIGPIPE\<close>. That the program as a whole does not
  run for ever is a chain of proofs under the hypothesis that no client stalls, from the polling
  loop of a flush to \<open>main\<close>; without it the program does hang. No fuel is used. Integers that wrap are words of their width, \<open>int\<close>
  values that must not overflow are integers with the check written out.

  \<^bold>\<open>Parameters.\<close> The D2XX driver, the sockets, \<open>select\<close>, the clock, \<open>malloc\<close>, the process calls and
  the file system are arguments. What a property needs of them is a named predicate: \<open>ideal_driver\<close>
  and \<open>clean_open\<close> (driver and chip), \<open>device_present\<close> (a device that can be opened), \<open>stream_net\<close>
  (a socket is a byte stream), \<open>logs_reads\<close> (what a socket has delivered), \<open>malloc_ok\<close> and
  \<open>malloc_succeeds\<close> (the allocator; its answers when an adapter is created and later are separate
  arguments), \<open>counts_handles\<close> (open and close of a driver are counted), \<open>os_ok\<close> (fresh descriptors), \<open>proc_ok\<close> (children are
  forked and reaped), \<open>driver_reads\<close> (a successful read returns data), \<open>finite_input\<close> (a client has
  finitely many bytes to send), \<open>never_blocks\<close> (no read or write waits for ever) and its opposite
  \<open>stalling_net\<close>, \<open>waits_end\<close> (\<open>waitpid\<close> returns when the child ends), \<open>stops_within\<close> and \<open>stop_comes\<close> (a stop signal arrives),
  \<open>one_client\<close> (the sockets, \<open>select\<close> and the stop signal as one
  client sees them).

  \<^bold>\<open>Bounds.\<close> Sizes are those of a 64-bit machine. The scan properties hold for vectors up to 65535
  bytes (524280 bits), the size of one command of the chip; above it \<open>append_tdi_shift\<close> splits
  segments and is wrong (see the manifest). The memory pool has 16 MB. A configuration has 32
  instances with 64 whitelist entries, a server 16 connections.

  \<^bold>\<open>Not modelled.\<close> Null context pointers; the text of the log messages inside other components; the
  timing measurements of the adapter and the protocol handler, which only feed log lines; socket
  options, whose failure is only logged; the vendor libraries; the declarations of another project
  under \<^verbatim>\<open>include/txvc\<close>, which nothing includes; the manual driver tests. What the manifest's map
  leaves uncovered beyond these are comments, prototypes and constants no code uses.

  \<^bold>\<open>Idealised.\<close> The flush statistics of the adapter are unbounded, the indices of \<open>copy_bits\<close> are
  natural numbers (its callers stay far below \<open>2 ^ 31\<close>), and the clock does not advance between two
  readings within one callback unless a socket call lies between them.
\<close>

end
